(* ===== verification/Prelude.thy ===== *)
theory Prelude
  imports Main "HOL-Library.AList"
begin

text \<open>
  Shared foundation of the development: the names of the model's basic types, the lemma
  collections the component theories feed, and the generic facts on lists, association lists
  and options that more than one component uses.

  A Go function with effects on the outside world (the Kubernetes API server, the Towonel hub,
  the clock, the event recorder) is modelled as a function of a world of an arbitrary type
  \<open>'w\<close> that returns its result and the next world; the outside operations themselves are
  arguments. A Go map is an association list in the order the Go runtime happens to iterate
  it; every statement quantifies over all such lists, so over all iteration orders.
\<close>

section \<open>Names of the basic types\<close>

type_synonym ('w, 'a) op = "'w \<Rightarrow> 'a \<times> 'w"
type_synonym strmap = "(string \<times> string) list"

named_theorems conventions "names, keys and constants shared by the components"
named_theorems frame_simps "fields an operation does not write"

section \<open>Go maps keyed by strings\<close>

text \<open>Indexing a Go map gives the zero value for a missing key: \<open>m[k]\<close>.\<close>

definition mget :: "strmap \<Rightarrow> string \<Rightarrow> string" where
  "mget m k = (case map_of m k of None \<Rightarrow> [] | Some v \<Rightarrow> v)"

definition has_key :: "('k \<times> 'v) list \<Rightarrow> 'k \<Rightarrow> bool" where
  "has_key m k \<longleftrightarrow> k \<in> fst ` set m"

lemma has_key_map_of: "has_key m k \<longleftrightarrow> map_of m k \<noteq> None"
  by (simp add: has_key_def map_of_eq_None_iff)

lemma has_key_Nil [simp]: "\<not> has_key [] k"
  by (simp add: has_key_def)

lemma has_key_Cons [simp]: "has_key ((k', v) # m) k \<longleftrightarrow> k = k' \<or> has_key m k"
  by (auto simp: has_key_def)

lemma mget_update [simp]: "mget (AList.update k v m) k' = (if k' = k then v else mget m k')"
  by (simp add: mget_def update_conv')

lemma mget_Nil [simp]: "mget [] k = []"
  by (simp add: mget_def)

lemma mget_Cons [simp]: "mget ((k', v) # m) k = (if k = k' then v else mget m k)"
  by (simp add: mget_def)

section \<open>First non-zero value\<close>

text \<open>\<open>cmp.Or\<close> on two strings: the first one that is not empty.\<close>

definition cmp_or :: "string \<Rightarrow> string \<Rightarrow> string" where
  "cmp_or a b = (if a \<noteq> [] then a else b)"

lemma cmp_or_simps [simp]:
  "cmp_or [] b = b"
  "a \<noteq> [] \<Longrightarrow> cmp_or a b = a"
  by (simp_all add: cmp_or_def)

section \<open>Sums as results\<close>

definition is_ok :: "'e + 'a \<Rightarrow> bool" where
  "is_ok r \<longleftrightarrow> (case r of Inl _ \<Rightarrow> False | Inr _ \<Rightarrow> True)"

lemma is_ok_simps [simp]: "is_ok (Inr a)" "\<not> is_ok (Inl e)"
  by (simp_all add: is_ok_def)

lemma is_okE: "is_ok r \<Longrightarrow> (\<And>a. r = Inr a \<Longrightarrow> P) \<Longrightarrow> P"
  by (cases r) auto

text \<open>Reading off the outcome of a method that returns its result and the object it mutated.\<close>

lemma run_Inr: "\<not> isl (fst (fst p)) \<Longrightarrow> (\<And>a t w. p = ((Inr a, t), w) \<Longrightarrow> thesis) \<Longrightarrow> thesis"
  by (metis prod.collapse sum.collapse(2))

lemma run_None: "fst (fst p) = None \<Longrightarrow> (\<And>t w. p = ((None, t), w) \<Longrightarrow> thesis) \<Longrightarrow> thesis"
  by (metis prod.collapse)

section \<open>Lists\<close>

lemma find_in: "find P xs = Some x \<Longrightarrow> x \<in> set xs \<and> P x"
  by (induction xs) (auto split: if_splits)

lemma map_of_filter_key:
  "map_of (filter (\<lambda>p. P (fst p)) xs) k = (if P k then map_of xs k else None)"
  by (induction xs) auto

lemma takeWhile_append_no:
  "c \<notin> set xs \<Longrightarrow> takeWhile (\<lambda>x. x \<noteq> c) (xs @ c # ys) = xs"
  by (induction xs) auto

lemma dropWhile_append_no:
  "c \<notin> set xs \<Longrightarrow> dropWhile (\<lambda>x. x \<noteq> c) (xs @ c # ys) = c # ys"
  by (induction xs) auto

lemma sorted_wrt_map: "sorted_wrt P (map f xs) \<longleftrightarrow> sorted_wrt (\<lambda>x y. P (f x) (f y)) xs"
  by (induction xs) auto

end
