(* ===== verification/GoLib.thy ===== *)
theory GoLib
  imports Prelude "HOL-Library.List_Lexorder" "HOL-Library.Char_ord" "HOL-Library.Word"
begin

text \<open>
  The parts of the Go standard library the operator uses on strings and numbers: packages
  \<open>strings\<close>, \<open>strconv\<close>, \<open>slices\<close>, \<open>cmp\<close> and the formatting verbs of \<open>fmt\<close>.
  A Go string is its list of bytes, so \<open>length\<close> is Go's \<open>len\<close> and \<open><\<close> on strings
  (bytewise lexicographic, from \<open>List_Lexorder\<close>) is \<open>cmp.Compare\<close>.

  Case mapping is exact on ASCII letters and on the four letters outside ASCII whose image
  is an ASCII letter; other letters outside ASCII are left as they are. The quoting verb copies
  bytes outside ASCII, as Go does for printable characters.
\<close>

section \<open>Prefixes, suffixes and cuts\<close>

fun cut_prefix :: "string \<Rightarrow> string \<Rightarrow> string option" where
  "cut_prefix s [] = Some s"
| "cut_prefix [] (p # ps) = None"
| "cut_prefix (c # s) (p # ps) = (if c = p then cut_prefix s ps else None)"

definition has_prefix :: "string \<Rightarrow> string \<Rightarrow> bool" where
  "has_prefix s p = (cut_prefix s p \<noteq> None)"

definition trim_prefix :: "string \<Rightarrow> string \<Rightarrow> string" where
  "trim_prefix s p = (case cut_prefix s p of None \<Rightarrow> s | Some r \<Rightarrow> r)"

definition cut_suffix :: "string \<Rightarrow> string \<Rightarrow> string option" where
  "cut_suffix s p = map_option rev (cut_prefix (rev s) (rev p))"

definition has_suffix :: "string \<Rightarrow> string \<Rightarrow> bool" where
  "has_suffix s p = (cut_suffix s p \<noteq> None)"

definition trim_suffix :: "string \<Rightarrow> string \<Rightarrow> string" where
  "trim_suffix s p = (case cut_suffix s p of None \<Rightarrow> s | Some r \<Rightarrow> r)"

text \<open>\<open>strings.Cut(s, sep)\<close>: around the first occurrence of the separator.\<close>

fun cut :: "string \<Rightarrow> string \<Rightarrow> (string \<times> string) option" where
  "cut [] sep = (if sep = [] then Some ([], []) else None)"
| "cut (c # s) sep =
     (case cut_prefix (c # s) sep of
        Some r \<Rightarrow> Some ([], r)
      | None \<Rightarrow> map_option (\<lambda>(b, a). (c # b, a)) (cut s sep))"

text \<open>\<open>strings.CutLast\<close>, which the operator only calls with one-byte separators.\<close>

definition cut_last :: "string \<Rightarrow> char \<Rightarrow> (string \<times> string) option" where
  "cut_last s c = (if c \<in> set s
     then Some (rev (tl (dropWhile (\<lambda>x. x \<noteq> c) (rev s))), rev (takeWhile (\<lambda>x. x \<noteq> c) (rev s)))
     else None)"

definition str_contains :: "string \<Rightarrow> string \<Rightarrow> bool" where
  "str_contains s sub = (cut s sub \<noteq> None)"

definition trim_right_char :: "string \<Rightarrow> char \<Rightarrow> string" where
  "trim_right_char s c = rev (dropWhile (\<lambda>x. x = c) (rev s))"

definition trim_char :: "string \<Rightarrow> char \<Rightarrow> string" where
  "trim_char s c = trim_right_char (dropWhile (\<lambda>x. x = c) s) c"

text \<open>\<open>strings.Split\<close> on a one-byte separator.\<close>

fun split_on :: "char \<Rightarrow> string \<Rightarrow> string list" where
  "split_on c [] = [[]]"
| "split_on c (x # s) =
     (if x = c then [] # split_on c s
      else (case split_on c s of [] \<Rightarrow> [[x]] | p # ps \<Rightarrow> (x # p) # ps))"

fun join :: "string \<Rightarrow> string list \<Rightarrow> string" where
  "join sep [] = []"
| "join sep [s] = s"
| "join sep (s # t # ss) = s @ sep @ join sep (t # ss)"

lemma cut_prefix_append [simp]: "cut_prefix (p @ s) p = Some s"
  by (induction p) simp_all

lemma cut_prefix_Some: "cut_prefix s p = Some r \<longleftrightarrow> s = p @ r"
  by (induction s p rule: cut_prefix.induct) auto

lemma has_prefix_iff: "has_prefix s p \<longleftrightarrow> (\<exists>r. s = p @ r)"
  by (auto simp: has_prefix_def not_None_eq cut_prefix_Some)

lemma has_prefix_append [simp]: "has_prefix (p @ s) p"
  by (auto simp: has_prefix_iff)

lemma trim_prefix_append [simp]: "trim_prefix (p @ s) p = s"
  by (simp add: trim_prefix_def)

lemma cut_suffix_Some: "cut_suffix s p = Some r \<longleftrightarrow> s = r @ p"
proof -
  have "rev s = rev p @ rev r \<longleftrightarrow> s = r @ p"
    by (metis rev_append rev_rev_ident)
  then show ?thesis
    by (auto simp: cut_suffix_def cut_prefix_Some rev_swap)
qed

lemma has_suffix_iff: "has_suffix s p \<longleftrightarrow> (\<exists>r. s = r @ p)"
  by (auto simp: has_suffix_def not_None_eq cut_suffix_Some)

lemma has_suffix_append [simp]: "has_suffix (s @ p) p"
  by (auto simp: has_suffix_iff)

lemma trim_suffix_append [simp]: "trim_suffix (s @ p) p = s"
proof -
  have "cut_suffix (s @ p) p = Some s" by (simp add: cut_suffix_Some)
  then show ?thesis by (simp add: trim_suffix_def)
qed

lemma trim_suffix_no: "\<not> has_suffix s p \<Longrightarrow> trim_suffix s p = s"
  by (auto simp: trim_suffix_def has_suffix_def)

lemma length_trim_suffix: "length (trim_suffix s p) \<le> length s"
  by (auto simp: trim_suffix_def cut_suffix_Some split: option.splits)

lemma cut_char_eq:
  "cut s [c] = (if c \<in> set s
     then Some (takeWhile (\<lambda>x. x \<noteq> c) s, tl (dropWhile (\<lambda>x. x \<noteq> c) s)) else None)"
  by (induction s) (auto split: if_splits)

lemma cut_char_append [simp]: "c \<notin> set b \<Longrightarrow> cut (b @ c # a) [c] = Some (b, a)"
  by (simp add: cut_char_eq takeWhile_append_no dropWhile_append_no)

lemma cut_char_None [simp]: "cut s [c] = None \<longleftrightarrow> c \<notin> set s"
  by (simp add: cut_char_eq)

lemma cut_char_Some: "cut s [c] = Some (b, a) \<longleftrightarrow> s = b @ c # a \<and> c \<notin> set b"
proof
  assume h: "cut s [c] = Some (b, a)"
  then have c: "c \<in> set s" and b: "b = takeWhile (\<lambda>x. x \<noteq> c) s"
    and a: "a = tl (dropWhile (\<lambda>x. x \<noteq> c) s)"
    by (auto simp: cut_char_eq split: if_splits)
  have ne: "dropWhile (\<lambda>x. x \<noteq> c) s \<noteq> []" using c by (simp add: dropWhile_eq_Nil_conv)
  then have "hd (dropWhile (\<lambda>x. x \<noteq> c) s) = c" using hd_dropWhile by blast
  then have "dropWhile (\<lambda>x. x \<noteq> c) s = c # a" using ne a by (metis list.collapse)
  then have "s = b @ c # a" using b takeWhile_dropWhile_id by metis
  moreover have "c \<notin> set b" using b set_takeWhileD by metis
  ultimately show "s = b @ c # a \<and> c \<notin> set b" by simp
qed auto

lemma cut_last_append [simp]: "c \<notin> set a \<Longrightarrow> cut_last (b @ c # a) c = Some (b, a)"
  by (simp add: cut_last_def takeWhile_append_no dropWhile_append_no)

lemma cut_last_Some: "cut_last s c = Some (b, a) \<longleftrightarrow> s = b @ c # a \<and> c \<notin> set a"
proof
  assume h: "cut_last s c = Some (b, a)"
  then have c: "c \<in> set s" by (auto simp: cut_last_def split: if_splits)
  then obtain ys zs where s: "s = ys @ c # zs" and z: "c \<notin> set zs"
    using split_list_last by metis
  with h show "s = b @ c # a \<and> c \<notin> set a" by simp
qed auto

lemma cut_last_None [simp]: "cut_last s c = None \<longleftrightarrow> c \<notin> set s"
  by (simp add: cut_last_def)


section \<open>White space and letter case\<close>

text \<open>The byte sequences of the characters for which \<open>unicode.IsSpace\<close> holds.\<close>

definition space_seqs :: "string list" where
  "space_seqs =
     [[CHR 0x09], [CHR 0x0A], [CHR 0x0B], [CHR 0x0C], [CHR 0x0D], [CHR 0x20],
      [CHR 0xC2, CHR 0x85], [CHR 0xC2, CHR 0xA0], [CHR 0xE1, CHR 0x9A, CHR 0x80],
      [CHR 0xE2, CHR 0x80, CHR 0x80], [CHR 0xE2, CHR 0x80, CHR 0x81], [CHR 0xE2, CHR 0x80, CHR 0x82],
      [CHR 0xE2, CHR 0x80, CHR 0x83], [CHR 0xE2, CHR 0x80, CHR 0x84], [CHR 0xE2, CHR 0x80, CHR 0x85],
      [CHR 0xE2, CHR 0x80, CHR 0x86], [CHR 0xE2, CHR 0x80, CHR 0x87], [CHR 0xE2, CHR 0x80, CHR 0x88],
      [CHR 0xE2, CHR 0x80, CHR 0x89], [CHR 0xE2, CHR 0x80, CHR 0x8A], [CHR 0xE2, CHR 0x80, CHR 0xA8],
      [CHR 0xE2, CHR 0x80, CHR 0xA9], [CHR 0xE2, CHR 0x80, CHR 0xAF], [CHR 0xE2, CHR 0x81, CHR 0x9F],
      [CHR 0xE3, CHR 0x80, CHR 0x80]]"

fun strip_one :: "string list \<Rightarrow> string \<Rightarrow> string option" where
  "strip_one [] s = None"
| "strip_one (p # ps) s = (case cut_prefix s p of Some r \<Rightarrow> Some r | None \<Rightarrow> strip_one ps s)"

lemma strip_one_length:
  "strip_one ps s = Some r \<Longrightarrow> [] \<notin> set ps \<Longrightarrow> length r < length s"
  by (induction ps) (auto simp: cut_prefix_Some split: option.splits)

function strip_left :: "string list \<Rightarrow> string \<Rightarrow> string" where
  "strip_left ps s = (if [] \<in> set ps then s else
     (case strip_one ps s of None \<Rightarrow> s | Some r \<Rightarrow> strip_left ps r))"
  by pat_completeness auto
termination
  by (relation "measure (\<lambda>(ps, s). length s)") (auto dest: strip_one_length)

declare strip_left.simps [simp del]

definition trim_space :: "string \<Rightarrow> string" where
  "trim_space s = rev (strip_left (map rev space_seqs) (rev (strip_left space_seqs s)))"

definition lower_char :: "char \<Rightarrow> char" where
  "lower_char c = (let n = of_char c :: nat in if 65 \<le> n \<and> n \<le> 90 then char_of (n + 32) else c)"

definition upper_char :: "char \<Rightarrow> char" where
  "upper_char c = (let n = of_char c :: nat in if 97 \<le> n \<and> n \<le> 122 then char_of (n - 32) else c)"

fun to_lower :: "string \<Rightarrow> string" where
  "to_lower (a # b # c # s) =
     (if a = CHR 0xC4 \<and> b = CHR 0xB0 then CHR ''i'' # to_lower (c # s)
      else if a = CHR 0xE2 \<and> b = CHR 0x84 \<and> c = CHR 0xAA then CHR ''k'' # to_lower s
      else lower_char a # to_lower (b # c # s))"
| "to_lower [a, b] =
     (if a = CHR 0xC4 \<and> b = CHR 0xB0 then [CHR ''i''] else [lower_char a, lower_char b])"
| "to_lower [a] = [lower_char a]"
| "to_lower [] = []"

fun to_upper :: "string \<Rightarrow> string" where
  "to_upper (a # b # s) =
     (if a = CHR 0xC4 \<and> b = CHR 0xB1 then CHR ''I'' # to_upper s
      else if a = CHR 0xC5 \<and> b = CHR 0xBF then CHR ''S'' # to_upper s
      else upper_char a # to_upper (b # s))"
| "to_upper [a] = [upper_char a]"
| "to_upper [] = []"

definition equal_fold_ascii :: "string \<Rightarrow> string \<Rightarrow> bool" where
  "equal_fold_ascii s t = (map lower_char s = map lower_char t)"

text \<open>
  A string that starts and ends with a byte of no space sequence is its own trimmed form;
  names and host names are of this kind.
\<close>

definition plain_char :: "char \<Rightarrow> bool" where
  "plain_char c = (let n = of_char c :: nat in 33 \<le> n \<and> n \<le> 126)"

lemma plain_not_space:
  assumes "plain_char c" and "p \<in> set space_seqs \<union> set (map rev space_seqs)"
  shows "cut_prefix (c # s) p = None"
  using assms by (auto simp: space_seqs_def plain_char_def)

lemma strip_one_plain:
  "plain_char c \<Longrightarrow> set ps \<subseteq> set space_seqs \<union> set (map rev space_seqs) \<Longrightarrow> strip_one ps (c # s) = None"
  by (induction ps) (simp_all add: plain_not_space)

lemma strip_left_plain:
  "plain_char c \<Longrightarrow> strip_left space_seqs (c # s) = c # s"
  "plain_char c \<Longrightarrow> strip_left (map rev space_seqs) (c # s) = c # s"
  by (simp_all add: strip_left.simps strip_one_plain)

lemma trim_space_Nil [simp]: "trim_space [] = []"
proof -
  have "strip_one space_seqs [] = None" "strip_one (map rev space_seqs) [] = None"
    by (simp_all add: space_seqs_def)
  then show ?thesis by (simp add: trim_space_def strip_left.simps)
qed

lemma trim_space_plain [simp]:
  assumes "list_all plain_char s"
  shows "trim_space s = s"
proof (cases s)
  case (Cons c t)
  have "rev s \<noteq> []" using Cons by simp
  then obtain d u where r: "rev s = d # u" by (cases "rev s") auto
  have "d \<in> set s" using r by (metis list.set_intros(1) set_rev)
  then have "plain_char d" "plain_char c" using assms Cons by (auto simp: list_all_iff)
  have "strip_left space_seqs s = s"
    unfolding Cons by (rule strip_left_plain(1)) fact
  moreover have "strip_left (map rev space_seqs) (rev s) = rev s"
    unfolding r by (rule strip_left_plain(2)) fact
  ultimately show ?thesis by (simp add: trim_space_def)
qed simp

section \<open>Numbers\<close>

definition is_digit :: "char \<Rightarrow> bool" where
  "is_digit c = (let n = of_char c :: nat in 48 \<le> n \<and> n \<le> 57)"

definition digit_val :: "char \<Rightarrow> int" where
  "digit_val c = int (of_char c) - 48"

definition digit_char :: "nat \<Rightarrow> char" where
  "digit_char d = char_of (48 + d)"

definition digits_val :: "string \<Rightarrow> int" where
  "digits_val s = foldl (\<lambda>n c. n * 10 + digit_val c) 0 s"

definition max_int64 :: int where "max_int64 = 9223372036854775807"
definition min_int64 :: int where "min_int64 = - 9223372036854775808"

text \<open>Arithmetic of \<open>int64\<close> (and of \<open>time.Duration\<close>) and of \<open>int32\<close> wraps around.\<close>

definition wrap64 :: "int \<Rightarrow> int" where
  "wrap64 n = sint (word_of_int n :: 64 word)"

definition wrap32 :: "int \<Rightarrow> int" where
  "wrap32 n = sint (word_of_int n :: 32 word)"

lemma wrap32_id: "- 2147483648 \<le> n \<Longrightarrow> n < 2147483648 \<Longrightarrow> wrap32 n = n"
  by (simp add: wrap32_def sint_sbintrunc' signed_take_bit_int_eq_self)

lemma wrap64_id: "min_int64 \<le> n \<Longrightarrow> n \<le> max_int64 \<Longrightarrow> wrap64 n = n"
  by (simp add: wrap64_def min_int64_def max_int64_def sint_sbintrunc' signed_take_bit_int_eq_self)

lemma wrap64_range: "min_int64 \<le> wrap64 n \<and> wrap64 n \<le> max_int64"
  using sint_range_size[of "word_of_int n :: 64 word"]
  by (simp add: wrap64_def min_int64_def max_int64_def word_size)

text \<open>\<open>strconv.Atoi\<close> on a 64-bit platform: optional sign, decimal digits, in range of \<open>int\<close>.\<close>

definition atoi :: "string \<Rightarrow> int option" where
  "atoi s =
     (let (neg, ds) = (case s of [] \<Rightarrow> (False, [])
                       | c # t \<Rightarrow> if c = CHR ''-'' then (True, t)
                                 else if c = CHR ''+'' then (False, t) else (False, s))
      in if ds = [] \<or> \<not> list_all is_digit ds then None
         else let n = (if neg then - digits_val ds else digits_val ds)
              in if min_int64 \<le> n \<and> n \<le> max_int64 then Some n else None)"

fun nat_str :: "nat \<Rightarrow> string" where
  "nat_str n = (if n < 10 then [digit_char n] else nat_str (n div 10) @ [digit_char (n mod 10)])"

declare nat_str.simps [simp del]

definition itoa :: "int \<Rightarrow> string" where
  "itoa i = (if i < 0 then CHR ''-'' # nat_str (nat (- i)) else nat_str (nat i))"

lemma of_char_digit [simp]: "d < 10 \<Longrightarrow> of_char (digit_char d) = 48 + d"
  by (simp add: digit_char_def)

lemma is_digit_digit_char [simp]: "d < 10 \<Longrightarrow> is_digit (digit_char d)"
  by (simp add: is_digit_def Let_def)

lemma nat_str_digits: "list_all is_digit (nat_str n)"
proof (induction n rule: nat_str.induct)
  case (1 n)
  then show ?case by (subst nat_str.simps) simp
qed

lemma nat_str_not_Nil [simp]: "nat_str n \<noteq> []"
  by (subst nat_str.simps) simp

lemma digits_val_nat_str [simp]: "digits_val (nat_str n) = int n"
proof (induction n rule: nat_str.induct)
  case (1 n)
  show ?case
  proof (cases "n < 10")
    case True
    then show ?thesis by (subst nat_str.simps) (simp add: digits_val_def digit_val_def)
  next
    case False
    then have "digits_val (nat_str (n div 10)) = int (n div 10)" using 1 by simp
    then have "digits_val (nat_str n) = int (n div 10) * 10 + int (n mod 10)" using False
      by (subst nat_str.simps) (simp add: digits_val_def digit_val_def)
    also have "\<dots> = int (n div 10 * 10 + n mod 10)"
      by (simp only: of_nat_add of_nat_mult of_nat_numeral)
    finally show ?thesis by (simp only: div_mult_mod_eq)
  qed
qed

lemma digit_not_sign: "is_digit c \<Longrightarrow> c \<noteq> CHR ''-'' \<and> c \<noteq> CHR ''+''"
  by (auto simp: is_digit_def)

lemma atoi_digits:
  assumes "list_all is_digit ds" and "ds \<noteq> []"
  shows "atoi ds = (if min_int64 \<le> digits_val ds \<and> digits_val ds \<le> max_int64
    then Some (digits_val ds) else None)"
  using assms digit_not_sign
  by (cases ds) (auto simp: atoi_def Let_def)

lemma atoi_itoa:
  assumes "min_int64 \<le> i" and "i \<le> max_int64"
  shows "atoi (itoa i) = Some i"
proof (cases "i < 0")
  case True
  then show ?thesis using assms nat_str_digits[of "nat (- i)"] by (simp add: itoa_def atoi_def)
next
  case False
  then show ?thesis using assms nat_str_digits[of "nat i"]
    by (simp add: itoa_def atoi_digits)
qed

lemma itoa_inject [simp]: "itoa a = itoa b \<longleftrightarrow> a = b"
proof
  assume h: "itoa a = itoa b"
  have hd: "c \<in> set (nat_str n) \<Longrightarrow> c \<noteq> CHR ''-''" for c n
    using nat_str_digits[of n] digit_not_sign by (auto simp: list_all_iff)
  have nat_inj: "nat_str m = nat_str n \<Longrightarrow> m = n" for m n
    by (metis digits_val_nat_str of_nat_eq_iff)
  have first: "CHR ''-'' # x \<noteq> nat_str n" for x n
    using hd[of "CHR ''-''" n] by (metis list.set_intros(1))
  show "a = b"
  proof (cases "a < 0"; cases "b < 0")
    assume "a < 0" "b < 0"
    then show ?thesis using h nat_inj[of "nat (- a)" "nat (- b)"] by (simp add: itoa_def)
  next
    assume "a < 0" "\<not> b < 0"
    then show ?thesis using h first by (simp add: itoa_def)
  next
    assume "\<not> a < 0" "b < 0"
    then show ?thesis using h first by (metis itoa_def)
  next
    assume "\<not> a < 0" "\<not> b < 0"
    then show ?thesis using h nat_inj[of "nat a" "nat b"] by (simp add: itoa_def)
  qed
qed simp

lemma itoa_no_slash: "CHR ''/'' \<notin> set (itoa i)"
proof -
  have "CHR ''/'' \<notin> set (nat_str n)" for n
    using nat_str_digits[of n] by (auto simp: list_all_iff is_digit_def)
  then show ?thesis by (simp add: itoa_def)
qed

section \<open>Formatting\<close>

definition hex_digit :: "nat \<Rightarrow> char" where
  "hex_digit d = (if d < 10 then char_of (48 + d) else char_of (87 + d))"

definition byte_hex :: "nat \<Rightarrow> string" where
  "byte_hex b = [hex_digit (b div 16), hex_digit (b mod 16)]"

definition quote_char :: "char \<Rightarrow> string" where
  "quote_char c =
     (let n = of_char c :: nat in
      if n = 34 then [CHR 0x5C, CHR 0x22] else if n = 92 then [CHR 0x5C, CHR 0x5C]
      else if n = 7 then [CHR 0x5C, CHR ''a''] else if n = 8 then [CHR 0x5C, CHR ''b'']
      else if n = 12 then [CHR 0x5C, CHR ''f''] else if n = 10 then [CHR 0x5C, CHR ''n'']
      else if n = 13 then [CHR 0x5C, CHR ''r''] else if n = 9 then [CHR 0x5C, CHR ''t'']
      else if n = 11 then [CHR 0x5C, CHR ''v'']
      else if n < 32 \<or> n = 127 then CHR 0x5C # CHR ''x'' # byte_hex n else [c])"

text \<open>The verb \<open>%q\<close> on a string.\<close>

definition quote :: "string \<Rightarrow> string" where
  "quote s = CHR 0x22 # concat (map quote_char s) @ [CHR 0x22]"

lemma length_byte_hex [simp]: "length (byte_hex b) = 2"
  by (simp add: byte_hex_def)

end
