(* ===== verification/GoErrors.thy ===== *)
theory GoErrors
  imports GoLib
begin

text \<open>
  Go error values. An error is a tree: a leaf is an API-server status, a non-2xx hub response
  (\<open>towonel.APIError\<close>), one of the operator's sentinel errors or a plain text; an inner
  node is a \<open>fmt.Errorf\<close> with the errors its \<open>%w\<close> verbs wrap, or an \<open>errors.Join\<close>.
  \<open>errors.Is\<close> and \<open>errors.As\<close> search the tree in pre-order, as the library documents.
\<close>

section \<open>The operator's sentinel errors\<close>

datatype sentinel =
    ErrUnrecognizedTruthy
  | ErrDefaultAgentNameClash
  | ErrRoutingConflict
  | ErrOrphanInFlight
  | ErrNoEdgeTarget
  | ErrAdoptedNoToken
  | ErrInviteNotFound
  | ErrSecretClash

fun sentinel_text :: "sentinel \<Rightarrow> string" where
  "sentinel_text ErrUnrecognizedTruthy = ''unrecognized truthy value''"
| "sentinel_text ErrDefaultAgentNameClash =
     ''default-agent name occupied by a non-operator-owned agent''"
| "sentinel_text ErrRoutingConflict = ''routing entry already owned by another source''"
| "sentinel_text ErrOrphanInFlight = ''auto-created agent empty but a source apply is in flight''"
| "sentinel_text ErrNoEdgeTarget = ''no DNS edge target for the invite's hub region''"
| "sentinel_text ErrAdoptedNoToken =
     ''adopted invite has no stored token; re-create the tunnel or restore the token Secret''"
| "sentinel_text ErrInviteNotFound = ''invite not found on hub''"
| "sentinel_text ErrSecretClash =
     ''token secret exists with a foreign or missing controller owner; rename the agent or the clashing object''"

section \<open>Errors\<close>

text \<open>The class of an API-server failure, as \<open>apierrors.IsNotFound\<close> and its kin read it.\<close>

datatype kube_reason =
  RNotFound | RConflict | RAlreadyExists | RInvalid | RForbidden | RNoMatch | ROther

datatype goerr =
    KubeError kube_reason string
  | APIError (api_status: int) (api_body: string) (api_retry_after: int)
  | Sentinel sentinel
  | PlainError string
  | Errorf string "goerr list"
  | Joined "goerr list"

fun err_text :: "goerr \<Rightarrow> string" where
  "err_text (KubeError r m) = m"
| "err_text (APIError st body ra) = ''towonel api: status '' @ itoa st @ '': '' @ body"
| "err_text (Sentinel s) = sentinel_text s"
| "err_text (PlainError m) = m"
| "err_text (Errorf m es) = m"
| "err_text (Joined es) = join [CHR 0x0A] (map err_text es)"

text \<open>\<open>fmt.Errorf\<close> whose format is a prefix followed by a single \<open>%w\<close>.\<close>

definition wrapf :: "string \<Rightarrow> goerr \<Rightarrow> goerr" where
  "wrapf prefix e = Errorf (prefix @ err_text e) [e]"

text \<open>\<open>errors.Join\<close>: nil when there is nothing to join.\<close>

definition errors_join :: "goerr list \<Rightarrow> goerr option" where
  "errors_join es = (if es = [] then None else Some (Joined es))"

section \<open>Searching an error tree\<close>

fun errors_as :: "(goerr \<Rightarrow> 'a option) \<Rightarrow> goerr \<Rightarrow> 'a option"
  and errors_as_list :: "(goerr \<Rightarrow> 'a option) \<Rightarrow> goerr list \<Rightarrow> 'a option" where
  "errors_as f (Errorf m es) =
     (case f (Errorf m es) of Some a \<Rightarrow> Some a | None \<Rightarrow> errors_as_list f es)"
| "errors_as f (Joined es) =
     (case f (Joined es) of Some a \<Rightarrow> Some a | None \<Rightarrow> errors_as_list f es)"
| "errors_as f (KubeError r m) = f (KubeError r m)"
| "errors_as f (APIError st b ra) = f (APIError st b ra)"
| "errors_as f (Sentinel s) = f (Sentinel s)"
| "errors_as f (PlainError m) = f (PlainError m)"
| "errors_as_list f [] = None"
| "errors_as_list f (e # es) =
     (case errors_as f e of Some a \<Rightarrow> Some a | None \<Rightarrow> errors_as_list f es)"

definition as_sentinel :: "sentinel \<Rightarrow> goerr \<Rightarrow> unit option" where
  "as_sentinel s e = (case e of Sentinel t \<Rightarrow> if t = s then Some () else None | _ \<Rightarrow> None)"

definition errors_is :: "goerr \<Rightarrow> sentinel \<Rightarrow> bool" where
  "errors_is e s = (errors_as (as_sentinel s) e \<noteq> None)"

definition as_api :: "goerr \<Rightarrow> (int \<times> string \<times> int) option" where
  "as_api e = (case e of APIError st b ra \<Rightarrow> Some (st, b, ra) | _ \<Rightarrow> None)"

text \<open>\<open>errors.AsType[*towonel.APIError]\<close>: status, body and retry delay of the first hub error.\<close>

definition errors_as_api :: "goerr \<Rightarrow> (int \<times> string \<times> int) option" where
  "errors_as_api e = errors_as as_api e"

definition is_hub_status :: "int \<Rightarrow> goerr \<Rightarrow> bool" where
  "is_hub_status n e = (case errors_as_api e of Some (st, _, _) \<Rightarrow> st = n | None \<Rightarrow> False)"

definition as_kube :: "goerr \<Rightarrow> kube_reason option" where
  "as_kube e = (case e of KubeError r _ \<Rightarrow> Some r | _ \<Rightarrow> None)"

definition kube_is :: "kube_reason \<Rightarrow> goerr \<Rightarrow> bool" where
  "kube_is r e = (errors_as as_kube e = Some r)"

abbreviation "is_not_found \<equiv> kube_is RNotFound"
abbreviation "is_conflict \<equiv> kube_is RConflict"
abbreviation "is_already_exists \<equiv> kube_is RAlreadyExists"
abbreviation "is_invalid \<equiv> kube_is RInvalid"
abbreviation "is_no_match \<equiv> kube_is RNoMatch"

text \<open>\<open>client.IgnoreNotFound\<close> on an optional error.\<close>

definition ignore_not_found :: "goerr \<Rightarrow> goerr option" where
  "ignore_not_found e = (if is_not_found e then None else Some e)"

lemma kube_is_KubeError [simp]: "kube_is r (KubeError r' m) \<longleftrightarrow> r = r'"
  by (auto simp: kube_is_def as_kube_def)

lemma kube_is_wrapf [simp]: "kube_is r (wrapf p e) = kube_is r e"
  by (simp add: kube_is_def wrapf_def as_kube_def split: option.splits)

lemma kube_is_leaves [simp]:
  "\<not> kube_is r (APIError st b ra)" "\<not> kube_is r (Sentinel s)" "\<not> kube_is r (PlainError m)"
  by (simp_all add: kube_is_def as_kube_def)

lemma errors_is_Sentinel [simp]: "errors_is (Sentinel t) s \<longleftrightarrow> t = s"
  by (simp add: errors_is_def as_sentinel_def)

lemma errors_is_leaves [simp]:
  "\<not> errors_is (KubeError r m) s" "\<not> errors_is (APIError st b ra) s" "\<not> errors_is (PlainError m) s"
  by (simp_all add: errors_is_def as_sentinel_def)

lemma errors_is_wrapf [simp]: "errors_is (wrapf p e) s = errors_is e s"
  by (simp add: errors_is_def wrapf_def as_sentinel_def split: option.splits)

lemma errors_is_Errorf [simp]:
  "errors_is (Errorf m []) s = False"
  "errors_is (Errorf m (e # es)) s \<longleftrightarrow> errors_is e s \<or> errors_is (Errorf m es) s"
  by (simp_all add: errors_is_def as_sentinel_def split: option.splits)

lemma errors_as_api_simps [simp]:
  "errors_as_api (APIError st b ra) = Some (st, b, ra)"
  "errors_as_api (wrapf p e) = errors_as_api e"
  "errors_as_api (KubeError r m) = None"
  "errors_as_api (Sentinel s) = None"
  "errors_as_api (PlainError m) = None"
  by (simp_all add: errors_as_api_def as_api_def wrapf_def split: option.splits)

lemma errors_as_api_Errorf [simp]:
  "errors_as_api (Errorf m []) = None"
  "errors_as_api (Errorf m (e # es)) =
     (case errors_as_api e of Some a \<Rightarrow> Some a | None \<Rightarrow> errors_as_api (Errorf m es))"
  by (simp_all add: errors_as_api_def as_api_def split: option.splits)

lemma errors_as_api_Joined [simp]:
  "errors_as_api (Joined []) = None"
  "errors_as_api (Joined (e # es)) =
     (case errors_as_api e of Some a \<Rightarrow> Some a | None \<Rightarrow> errors_as_api (Joined es))"
  by (simp_all add: errors_as_api_def as_api_def split: option.splits)

lemma is_hub_status_simps [simp]:
  "is_hub_status n (APIError st b ra) \<longleftrightarrow> st = n"
  "is_hub_status n (wrapf p e) = is_hub_status n e"
  "\<not> is_hub_status n (KubeError r m)"
  "\<not> is_hub_status n (PlainError m)"
  by (simp_all add: is_hub_status_def)

end
