(* ===== verification/Json.thy ===== *)
theory Json
  imports GoLib
begin

text \<open>
  JSON values and their text as \<open>encoding/json\<close> writes it (no white space, HTML characters
  escaped, bytes that are no valid UTF-8 replaced). HTTP bodies and the objects of third-party
  Go types the operator only carries around (tolerations, affinities, security contexts) are
  JSON values in the model.
\<close>

datatype json =
    JNull
  | JBool bool
  | JNum int
  | JStr string
  | JArr "json list"
  | JObj "(string \<times> json) list"

section \<open>Text\<close>

definition cont_byte :: "nat \<Rightarrow> bool" where
  "cont_byte n = (128 \<le> n \<and> n \<le> 191)"

text \<open>
  Length of the well-formed UTF-8 sequence of at least two bytes at the head of a string, zero
  when there is none (\<open>utf8.DecodeRune\<close>).
\<close>

definition utf8_len :: "string \<Rightarrow> nat" where
  "utf8_len s = (case map of_char s of
     (a::nat) # b # r \<Rightarrow>
       if 194 \<le> a \<and> a \<le> 223 \<and> cont_byte b then 2
       else (case r of c # r' \<Rightarrow>
         if 224 \<le> a \<and> a \<le> 239 \<and> cont_byte b \<and> cont_byte c
            \<and> (a = 224 \<longrightarrow> 160 \<le> b) \<and> (a = 237 \<longrightarrow> b \<le> 159) then 3
         else (case r' of d # _ \<Rightarrow>
           if 240 \<le> a \<and> a \<le> 244 \<and> cont_byte b \<and> cont_byte c \<and> cont_byte d
              \<and> (a = 240 \<longrightarrow> 144 \<le> b) \<and> (a = 244 \<longrightarrow> b \<le> 143) then 4 else 0
           | [] \<Rightarrow> 0)
         | [] \<Rightarrow> 0)
   | _ \<Rightarrow> 0)"

definition json_esc_ascii :: "char \<Rightarrow> string" where
  "json_esc_ascii c =
     (let n = of_char c :: nat in
      if n = 34 then [CHR 0x5C, CHR 0x22] else if n = 92 then [CHR 0x5C, CHR 0x5C]
      else if n = 8 then [CHR 0x5C, CHR ''b''] else if n = 12 then [CHR 0x5C, CHR ''f'']
      else if n = 10 then [CHR 0x5C, CHR ''n''] else if n = 13 then [CHR 0x5C, CHR ''r'']
      else if n = 9 then [CHR 0x5C, CHR ''t'']
      else if n < 32 \<or> n = 60 \<or> n = 62 \<or> n = 38 then CHR 0x5C # ''u00'' @ byte_hex n
      else [c])"

function json_esc :: "string \<Rightarrow> string" where
  "json_esc [] = []"
| "json_esc (c # s) =
     (if (of_char c :: nat) < 128 then json_esc_ascii c @ json_esc s
      else let k = utf8_len (c # s) in
        if k = 0 then CHR 0x5C # ''ufffd'' @ json_esc s
        else if take 3 (c # s) = [CHR 0xE2, CHR 0x80, CHR 0xA8]
          then CHR 0x5C # ''u2028'' @ json_esc (drop (k - 1) s)
        else if take 3 (c # s) = [CHR 0xE2, CHR 0x80, CHR 0xA9]
          then CHR 0x5C # ''u2029'' @ json_esc (drop (k - 1) s)
        else take k (c # s) @ json_esc (drop (k - 1) s))"
  by pat_completeness auto
termination
  by (relation "measure length") auto

definition json_str :: "string \<Rightarrow> string" where
  "json_str s = CHR 0x22 # json_esc s @ [CHR 0x22]"

fun json_text :: "json \<Rightarrow> string"
  and json_texts :: "json list \<Rightarrow> string list"
  and json_fields :: "(string \<times> json) list \<Rightarrow> string list" where
  "json_text JNull = ''null''"
| "json_text (JBool b) = (if b then ''true'' else ''false'')"
| "json_text (JNum n) = itoa n"
| "json_text (JStr s) = json_str s"
| "json_text (JArr js) = ''['' @ join '','' (json_texts js) @ '']''"
| "json_text (JObj fs) = ''{'' @ join '','' (json_fields fs) @ ''}''"
| "json_texts [] = []"
| "json_texts (j # js) = json_text j # json_texts js"
| "json_fields [] = []"
| "json_fields ((k, v) # fs) = (json_str k @ '':'' @ json_text v) # json_fields fs"

section \<open>Decoding into Go structs\<close>

text \<open>
  \<open>json.Unmarshal\<close> of one struct field: a missing key or a null leaves the zero value, a value
  of the wrong kind is an error. \<open>None\<close> is the error here.
\<close>

definition jfield :: "json \<Rightarrow> string \<Rightarrow> json" where
  "jfield j k = (case j of JObj fs \<Rightarrow> (case map_of fs k of Some v \<Rightarrow> v | None \<Rightarrow> JNull) | _ \<Rightarrow> JNull)"

fun dec_string :: "json \<Rightarrow> string option" where
  "dec_string (JStr s) = Some s"
| "dec_string JNull = Some []"
| "dec_string _ = None"

fun dec_int :: "json \<Rightarrow> int option" where
  "dec_int (JNum n) = Some n"
| "dec_int JNull = Some 0"
| "dec_int _ = None"

text \<open>Pointer fields: null and absent are nil.\<close>

fun dec_ptr :: "(json \<Rightarrow> 'a option) \<Rightarrow> json \<Rightarrow> 'a option option" where
  "dec_ptr f JNull = Some None"
| "dec_ptr f j = map_option Some (f j)"

fun dec_all :: "(json \<Rightarrow> 'a option) \<Rightarrow> json list \<Rightarrow> 'a list option" where
  "dec_all f [] = Some []"
| "dec_all f (j # js) =
     (case f j of None \<Rightarrow> None
      | Some x \<Rightarrow> (case dec_all f js of None \<Rightarrow> None | Some xs \<Rightarrow> Some (x # xs)))"

fun dec_list :: "(json \<Rightarrow> 'a option) \<Rightarrow> json \<Rightarrow> 'a list option" where
  "dec_list f (JArr js) = dec_all f js"
| "dec_list f JNull = Some []"
| "dec_list f _ = None"

definition is_jobj :: "json \<Rightarrow> bool" where
  "is_jobj j = (case j of JObj _ \<Rightarrow> True | JNull \<Rightarrow> True | _ \<Rightarrow> False)"

text \<open>Encoding: \<open>omitempty\<close> fields are left out when they hold the zero value.\<close>

definition jstrs :: "string list \<Rightarrow> json" where
  "jstrs ss = JArr (map JStr ss)"

definition omit_str :: "string \<Rightarrow> string \<Rightarrow> (string \<times> json) list" where
  "omit_str k s = (if s = [] then [] else [(k, JStr s)])"

definition omit_ptr :: "string \<Rightarrow> ('a \<Rightarrow> json) \<Rightarrow> 'a option \<Rightarrow> (string \<times> json) list" where
  "omit_ptr k f v = (case v of None \<Rightarrow> [] | Some x \<Rightarrow> [(k, f x)])"

lemma dec_all_map:
  "(\<And>x. x \<in> set xs \<Longrightarrow> f (g x) = Some x) \<Longrightarrow> dec_all f (map g xs) = Some xs"
  by (induction xs) auto

lemma dec_strings [simp]: "dec_list dec_string (jstrs ss) = Some ss"
  by (simp add: jstrs_def dec_all_map)

lemma dec_ptr_JStr [simp]: "dec_ptr dec_string (JStr s) = Some (Some s)"
  by simp

lemma jfield_Cons [simp]:
  "jfield (JObj ((k, v) # fs)) k' = (if k' = k then v else jfield (JObj fs) k')"
  by (simp add: jfield_def)

lemma jfield_Nil [simp]: "jfield (JObj []) k = JNull"
  by (simp add: jfield_def)

lemma jfield_omit_str [simp]:
  "jfield (JObj (omit_str k s @ gs)) k' =
     (if k' = k \<and> s \<noteq> [] then JStr s else jfield (JObj gs) k')"
  by (simp add: omit_str_def)

lemma jfield_omit_ptr [simp]:
  "jfield (JObj (omit_ptr k f v @ gs)) k' =
     (if k' = k \<and> v \<noteq> None then f (the v) else jfield (JObj gs) k')"
  by (cases v) (simp_all add: omit_ptr_def)

lemma jfield_omit_ptr_last [simp]:
  "jfield (JObj (omit_ptr k f v)) k' = (if k' = k \<and> v \<noteq> None then f (the v) else JNull)"
  by (cases v) (simp_all add: omit_ptr_def)

end
