(* ===== verification/Kube.thy ===== *)
theory Kube
  imports GoErrors Json
begin

text \<open>
  What the operator sees of Kubernetes: object metadata, status conditions, events and the
  objects of the core API groups, with the fields the operator reads or writes. Values of
  third-party types that are only copied are JSON values.

  The helper functions of \<open>apimachinery\<close> and \<open>controller-runtime\<close> the operator calls are
  not part of the repository: they are the fields of \<open>k8s_lib\<close>, the head of every
  reconciler record, and \<open>lib_ok\<close> states their documented behaviour.
\<close>

section \<open>Metadata\<close>

type_synonym nn = "string \<times> string"   \<comment> \<open>\<open>types.NamespacedName\<close>: namespace, name\<close>

definition nn_str :: "nn \<Rightarrow> string" where
  "nn_str k = fst k @ ''/'' @ snd k"

record managed_field =
  mf_manager :: string
  mf_apply :: bool

record meta =
  m_ns :: string
  m_name :: string
  m_uid :: string
  m_rv :: string
  m_generation :: int
  m_deleting :: bool
  m_finalizers :: "string list"
  m_labels :: strmap
  m_annotations :: strmap
  m_controller :: "string option"
  m_managed :: "managed_field list"

definition new_meta :: "string \<Rightarrow> string \<Rightarrow> meta" where
  "new_meta ns name = \<lparr>m_ns = ns, m_name = name, m_uid = [], m_rv = [], m_generation = 0,
     m_deleting = False, m_finalizers = [], m_labels = [], m_annotations = [],
     m_controller = None, m_managed = []\<rparr>"

definition key_of :: "meta \<Rightarrow> nn" where
  "key_of m = (m_ns m, m_name m)"

section \<open>Conditions and events\<close>

datatype cond_status = CTrue | CFalse | CUnknown

record condition =
  c_type :: string
  c_status :: cond_status
  c_reason :: string
  c_message :: string
  c_generation :: int

datatype event_type = EvNormal | EvWarning

record event =
  ev_object :: nn
  ev_type :: event_type
  ev_reason :: string
  ev_message :: string

section \<open>Library helpers\<close>

record k8s_lib =
  set_status_condition :: "condition list \<Rightarrow> condition \<Rightarrow> condition list"
  remove_status_condition :: "condition list \<Rightarrow> string \<Rightarrow> condition list"
  find_status_condition :: "condition list \<Rightarrow> string \<Rightarrow> condition option"
  add_finalizer :: "string list \<Rightarrow> string \<Rightarrow> string list \<times> bool"
  contains_finalizer :: "string list \<Rightarrow> string \<Rightarrow> bool"
  remove_finalizer :: "string list \<Rightarrow> string \<Rightarrow> string list"
  set_controller_reference :: "meta \<Rightarrow> meta \<Rightarrow> goerr + meta"

definition is_status_condition_true :: "('a) k8s_lib_scheme \<Rightarrow> condition list \<Rightarrow> string \<Rightarrow> bool" where
  "is_status_condition_true L cs t =
     (case find_status_condition L cs t of None \<Rightarrow> False | Some c \<Rightarrow> c_status c = CTrue)"

text \<open>
  Documented behaviour of these helpers: a condition list is a map keyed by the condition type,
  a finalizer list a set, and a controller reference is stamped on the owned object only.
\<close>

definition lib_ok :: "('a) k8s_lib_scheme \<Rightarrow> bool" where
  "lib_ok L \<longleftrightarrow>
     (\<forall>cs c t. find_status_condition L (set_status_condition L cs c) t =
        (if t = c_type c then Some c else find_status_condition L cs t)) \<and>
     (\<forall>cs k t. find_status_condition L (remove_status_condition L cs k) t =
        (if t = k then None else find_status_condition L cs t)) \<and>
     (\<forall>fs f. contains_finalizer L fs f = (f \<in> set fs)) \<and>
     (\<forall>fs f. add_finalizer L fs f = (if f \<in> set fs then (fs, False) else (fs @ [f], True))) \<and>
     (\<forall>fs f. set (remove_finalizer L fs f) = set fs - {f}) \<and>
     (\<forall>ow m m'. set_controller_reference L ow m = Inr m' \<longrightarrow> m' = m\<lparr>m_controller := Some (m_uid ow)\<rparr>)"

lemma lib_find_set:
  "lib_ok L \<Longrightarrow> find_status_condition L (set_status_condition L cs c) t =
     (if t = c_type c then Some c else find_status_condition L cs t)"
  by (simp add: lib_ok_def)

lemma lib_find_remove:
  "lib_ok L \<Longrightarrow> find_status_condition L (remove_status_condition L cs k) t =
     (if t = k then None else find_status_condition L cs t)"
  by (simp add: lib_ok_def)

lemma lib_true_set:
  "lib_ok L \<Longrightarrow> is_status_condition_true L (set_status_condition L cs c) t =
     (if t = c_type c then c_status c = CTrue else is_status_condition_true L cs t)"
  by (simp add: is_status_condition_true_def lib_find_set)

lemma lib_true_remove:
  "lib_ok L \<Longrightarrow> is_status_condition_true L (remove_status_condition L cs k) t =
     (t \<noteq> k \<and> is_status_condition_true L cs t)"
  by (simp add: is_status_condition_true_def lib_find_remove)

lemma lib_finalizer:
  "lib_ok L \<Longrightarrow> contains_finalizer L fs f = (f \<in> set fs)"
  "lib_ok L \<Longrightarrow> set (remove_finalizer L fs f) = set fs - {f}"
  "lib_ok L \<Longrightarrow> add_finalizer L fs f = (if f \<in> set fs then (fs, False) else (fs @ [f], True))"
  by (simp_all add: lib_ok_def)

lemma lib_owner:
  "lib_ok L \<Longrightarrow> set_controller_reference L ow m = Inr m' \<Longrightarrow> m' = m\<lparr>m_controller := Some (m_uid ow)\<rparr>"
  by (auto simp: lib_ok_def)

lemmas lib_simps = lib_find_set lib_find_remove lib_true_set lib_true_remove lib_finalizer

text \<open>One concrete library with that behaviour, for the witnesses.\<close>

fun put_cond :: "condition list \<Rightarrow> condition \<Rightarrow> condition list" where
  "put_cond [] c = [c]"
| "put_cond (d # ds) c = (if c_type d = c_type c then c # ds else d # put_cond ds c)"

definition std_lib :: k8s_lib where
  "std_lib = \<lparr>set_status_condition = put_cond,
     remove_status_condition = (\<lambda>cs t. filter (\<lambda>c. c_type c \<noteq> t) cs),
     find_status_condition = (\<lambda>cs t. find (\<lambda>c. c_type c = t) cs),
     add_finalizer = (\<lambda>fs f. if List.member fs f then (fs, False) else (fs @ [f], True)),
     contains_finalizer = (\<lambda>fs f. List.member fs f),
     remove_finalizer = (\<lambda>fs f. filter (\<lambda>x. x \<noteq> f) fs),
     set_controller_reference = (\<lambda>ow m. Inr (m\<lparr>m_controller := Some (m_uid ow)\<rparr>))\<rparr>"

lemma find_put_cond:
  "find (\<lambda>d. c_type d = t) (put_cond cs c) =
     (if t = c_type c then Some c else find (\<lambda>d. c_type d = t) cs)"
  by (induction cs) auto

lemma find_filter_cond:
  "find (\<lambda>d. c_type d = t) (filter (\<lambda>d. c_type d \<noteq> k) cs) =
     (if t = k then None else find (\<lambda>d. c_type d = t) cs)"
  by (induction cs) auto

lemma std_lib_ok: "lib_ok std_lib"
  by (auto simp: lib_ok_def std_lib_def find_put_cond find_filter_cond)

section \<open>Core objects\<close>

record secret_obj =
  sec_meta :: meta
  sec_data :: strmap

record service_port =
  sp_name :: string
  sp_protocol :: string
  sp_port :: int
  sp_targetPort :: int
  sp_nodePort :: int

record service_obj =
  svc_meta :: meta
  svc_type :: string
  svc_externalTrafficPolicy :: string
  svc_clusterIP :: string
  svc_selector :: strmap
  svc_ports :: "service_port list"

record service_account = sa_meta :: meta

record policy_rule =
  pr_apiGroups :: "string list"
  pr_resources :: "string list"
  pr_verbs :: "string list"

record rbac_role =
  role_meta :: meta
  role_rules :: "policy_rule list"

record rbac_subject =
  sub_kind :: string
  sub_apiGroup :: string
  sub_name :: string
  sub_namespace :: string

record role_binding =
  rb_meta :: meta
  rb_roleRef :: string
  rb_subjects :: "rbac_subject list"

record cluster_role_binding =
  crb_meta :: meta
  crb_subjects :: "rbac_subject list"

datatype env_source = EnvValue string | EnvSecretKey string string | EnvField string

record env_var =
  ev_name :: string
  ev_source :: env_source

record container_port =
  cp_name :: string
  cp_port :: int
  cp_protocol :: string

record resources =
  rq_requests :: strmap
  rq_limits :: strmap

record probe =
  pb_path :: string
  pb_port :: int

record container =
  ct_name :: string
  ct_image :: string
  ct_securityContext :: json
  ct_env :: "env_var list"
  ct_ports :: "container_port list"
  ct_resources :: resources
  ct_liveness :: probe
  ct_readiness :: probe

record pod_template =
  pt_labels :: strmap
  pt_annotations :: strmap
  pt_serviceAccountName :: string
  pt_securityContext :: json
  pt_nodeSelector :: strmap
  pt_tolerations :: "json list"
  pt_affinity :: "json option"
  pt_containers :: "container list"

record deployment =
  dp_meta :: meta
  dp_replicas :: "int option"
  dp_selector :: strmap
  dp_template :: pod_template
  dp_conditions :: "(string \<times> cond_status) list"

text \<open>external-dns objects.\<close>

record dns_entry =
  de_dnsName :: string
  de_recordType :: string
  de_targets :: "string list"
  de_ttl :: int
  de_providerSpecific :: "(string \<times> string) list"

record dns_endpoint =
  dns_meta :: meta
  dns_endpoints :: "dns_entry list"

text \<open>Gateway API objects.\<close>

record gateway =
  gw_meta :: meta
  gw_listeners :: "string option list"

record parent_ref =
  pa_group :: "string option"
  pa_kind :: "string option"
  pa_namespace :: "string option"
  pa_name :: string

record http_route =
  hr_meta :: meta
  hr_parentRefs :: "parent_ref list"
  hr_hostnames :: "string list"

end
