(* ===== verification/ApiTypes.thy ===== *)
theory ApiTypes
  imports Kube
begin

text \<open>
  The custom resources of \<open>api/v1alpha1\<close>: \<open>TowonelTunnel\<close> and \<open>TowonelAgent\<close> with
  their specs and statuses, one record per Go struct, in the source's field order. Go's nil and
  empty slices (and maps) are one value here, the empty list; pointer fields are options.
\<close>

section \<open>shared_types.go\<close>

record secret_key_ref =
  skr_name :: string
  skr_key :: string

record secret_reference =
  sr_name :: string
  sr_namespace :: string

section \<open>towonelagent_types.go\<close>

record tunnel_reference =
  tr_name :: string
  tr_namespace :: string

record agent_service =
  as_hostname :: string
  as_origin :: string
  as_edgeTLSMode :: string
  as_proxyProtocol :: string
  as_dnsRecord :: "bool option"

record agent_l4_service =
  l4_name :: string
  l4_origin :: string
  l4_preferredPort :: int
  l4_hostname :: string

record nodeport_spec =
  np_create :: bool
  np_name :: string
  np_port :: int

record connectivity_spec =
  cn_autodiscover :: bool
  cn_irohPort :: int
  cn_extraLocalAddrs :: "string list"
  cn_nodePort :: nodeport_spec

record workload_spec =
  wl_disableUDPGSO :: bool
  wl_replicas :: "int option"
  wl_image :: string
  wl_resources :: resources
  wl_nodeSelector :: strmap
  wl_tolerations :: "json list"
  wl_affinity :: "json option"
  wl_podSecurityContext :: "json option"
  wl_securityContext :: "json option"

definition ModeManaged :: string where "ModeManaged = ''Managed''"
definition ModeObserveOnly :: string where "ModeObserveOnly = ''ObserveOnly''"

record agent_spec =
  ag_tunnelRef :: tunnel_reference
  ag_mode :: string
  ag_services :: "agent_service list"
  ag_tcp :: "agent_l4_service list"
  ag_udp :: "agent_l4_service list"
  ag_relayURL :: string
  ag_connectivity :: connectivity_spec
  ag_workload :: workload_spec

record agent_status =
  as_phase :: string
  as_observedConfigHash :: string
  as_renderedSecretRef :: "secret_reference option"
  as_conditions :: "condition list"
  as_observedGeneration :: int

record towonel_agent =
  ta_meta :: meta
  ta_spec :: agent_spec
  ta_status :: agent_status

section \<open>towoneltunnel_types.go\<close>

definition DNSModeDisabled :: string where "DNSModeDisabled = ''Disabled''"
definition DNSModeDNSEndpoint :: string where "DNSModeDNSEndpoint = ''DNSEndpoint''"
definition DeletionPolicyDelete :: string where "DeletionPolicyDelete = ''Delete''"
definition DeletionPolicyRetain :: string where "DeletionPolicyRetain = ''Retain''"

record dns_provider_property =
  dpp_name :: string
  dpp_value :: string

record tunnel_dns_spec =
  td_mode :: string
  td_defaultTTL :: int
  td_namespace :: string
  td_cnameTarget :: string
  td_includeWildcards :: bool
  td_labels :: strmap
  td_annotations :: strmap
  td_providerSpecific :: "dns_provider_property list"

record tunnel_spec =
  ts_region :: string
  ts_failoverRegions :: "string list"
  ts_apiKeySecretRef :: "secret_key_ref option"
  ts_tokenExpiry :: int
  ts_deletionPolicy :: string
  ts_extraHostnames :: "string list"
  ts_dns :: tunnel_dns_spec

record edge_ref =
  er_nodeID :: string
  er_addresses :: "string list"

record port_allocation =
  al_name :: string
  al_protocol :: string
  al_listenPort :: int
  al_edge :: edge_ref

record dns_record =
  dr_hostname :: string
  dr_type :: string
  dr_target :: string
  dr_port :: int
  dr_protocol :: string

record region_endpoint =
  re_region :: string
  re_role :: string
  re_addresses :: "string list"

record tunnel_status =
  st_inviteID :: string
  st_tenantID :: string
  st_tokenSecretRef :: "secret_reference option"
  st_expiresAt :: int
  st_authorizedHostnames :: "string list"
  st_portAllocations :: "port_allocation list"
  st_edges :: "string list"
  st_dnsRecords :: "dns_record list"
  st_regionEndpoints :: "region_endpoint list"
  st_conditions :: "condition list"
  st_phase :: string
  st_observedGeneration :: int

record towonel_tunnel =
  tt_meta :: meta
  tt_spec :: tunnel_spec
  tt_status :: tunnel_status

section \<open>Zero values\<close>

definition zero_edge :: edge_ref where
  "zero_edge = \<lparr>er_nodeID = [], er_addresses = []\<rparr>"

definition zero_connectivity :: connectivity_spec where
  "zero_connectivity = \<lparr>cn_autodiscover = False, cn_irohPort = 0, cn_extraLocalAddrs = [],
     cn_nodePort = \<lparr>np_create = False, np_name = [], np_port = 0\<rparr>\<rparr>"

definition zero_workload :: workload_spec where
  "zero_workload = \<lparr>wl_disableUDPGSO = False, wl_replicas = None, wl_image = [],
     wl_resources = \<lparr>rq_requests = [], rq_limits = []\<rparr>, wl_nodeSelector = [], wl_tolerations = [],
     wl_affinity = None, wl_podSecurityContext = None, wl_securityContext = None\<rparr>"

definition zero_agent_spec :: agent_spec where
  "zero_agent_spec = \<lparr>ag_tunnelRef = \<lparr>tr_name = [], tr_namespace = []\<rparr>, ag_mode = [],
     ag_services = [], ag_tcp = [], ag_udp = [], ag_relayURL = [],
     ag_connectivity = zero_connectivity, ag_workload = zero_workload\<rparr>"

definition zero_agent_status :: agent_status where
  "zero_agent_status = \<lparr>as_phase = [], as_observedConfigHash = [], as_renderedSecretRef = None,
     as_conditions = [], as_observedGeneration = 0\<rparr>"

definition zero_dns :: tunnel_dns_spec where
  "zero_dns = \<lparr>td_mode = [], td_defaultTTL = 0, td_namespace = [], td_cnameTarget = [],
     td_includeWildcards = False, td_labels = [], td_annotations = [], td_providerSpecific = []\<rparr>"

definition zero_tunnel_spec :: tunnel_spec where
  "zero_tunnel_spec = \<lparr>ts_region = [], ts_failoverRegions = [], ts_apiKeySecretRef = None,
     ts_tokenExpiry = 0, ts_deletionPolicy = [], ts_extraHostnames = [], ts_dns = zero_dns\<rparr>"

definition zero_tunnel_status :: tunnel_status where
  "zero_tunnel_status = \<lparr>st_inviteID = [], st_tenantID = [], st_tokenSecretRef = None,
     st_expiresAt = 0, st_authorizedHostnames = [], st_portAllocations = [], st_edges = [],
     st_dnsRecords = [], st_regionEndpoints = [], st_conditions = [], st_phase = [],
     st_observedGeneration = 0\<rparr>"

lemmas zero_defs = zero_edge_def zero_connectivity_def zero_workload_def zero_agent_spec_def
  zero_agent_status_def zero_dns_def zero_tunnel_spec_def zero_tunnel_status_def new_meta_def

end
