(* ===== verification/Conventions.thy ===== *)
theory Conventions
  imports ApiTypes Sha256
begin

text \<open>
  \<open>conventions.go\<close>, \<open>parsetruthy.go\<close>, \<open>source_agentname.go\<close>, \<open>indexes.go\<close> and the naming
  functions of \<open>towoneltunnel_dns.go\<close>: the annotation and label vocabulary, the names of the
  objects the operator creates, and the lemmas that tell those names apart.
\<close>

section \<open>Constants\<close>

definition FinalizerName :: string where "FinalizerName = ''towonel-operator.towonel.io/finalizer''"
definition FieldOwner :: string where "FieldOwner = ''towonel-operator''"
definition DefaultTowonelAPIURL :: string where "DefaultTowonelAPIURL = ''https://hub.towonel.dev''"

definition AnnotationInviteID :: string where "AnnotationInviteID = ''towonel.io/invite-id''"
definition AnnotationConfigHash :: string where "AnnotationConfigHash = ''towonel.io/config-hash''"
definition LabelPartOf :: string where "LabelPartOf = ''app.kubernetes.io/part-of''"
definition PartOfValue :: string where "PartOfValue = ''towonel-operator''"
definition LabelAppName :: string where "LabelAppName = ''app.kubernetes.io/name''"
definition LabelAppInstance :: string where "LabelAppInstance = ''app.kubernetes.io/instance''"
definition AgentAppName :: string where "AgentAppName = ''towonel-agent''"
definition LabelManagedBy :: string where "LabelManagedBy = ''app.kubernetes.io/managed-by''"
definition ManagedByValue :: string where "ManagedByValue = ''towonel-operator''"
definition AnnotationAutoCreated :: string where "AnnotationAutoCreated = ''towonel.io/auto-created''"
definition LabelOwnerTunnel :: string where "LabelOwnerTunnel = ''towonel.io/owner-tunnel''"
definition AnnotationOwnerTunnelRef :: string where
  "AnnotationOwnerTunnelRef = ''towonel.io/owner-tunnel-ref''"

definition AnnotationTunnel :: string where "AnnotationTunnel = ''towonel.io/tunnel''"
definition AnnotationTunnelRef :: string where "AnnotationTunnelRef = ''towonel.io/tunnel-ref''"
definition AnnotationAgentRef :: string where "AnnotationAgentRef = ''towonel.io/agent-ref''"
definition AnnotationSrcHostname :: string where "AnnotationSrcHostname = ''towonel.io/hostname''"
definition AnnotationSrcOrigin :: string where "AnnotationSrcOrigin = ''towonel.io/origin''"
definition AnnotationSrcEdgeTLSMode :: string where
  "AnnotationSrcEdgeTLSMode = ''towonel.io/edge-tls-mode''"
definition AnnotationSrcProtocol :: string where "AnnotationSrcProtocol = ''towonel.io/protocol''"
definition AnnotationGatewayService :: string where
  "AnnotationGatewayService = ''towonel.io/gateway-service''"
definition AnnotationAutoRoutes :: string where "AnnotationAutoRoutes = ''towonel.io/auto-routes''"
definition AnnotationAutoRoutesNamespaces :: string where
  "AnnotationAutoRoutesNamespaces = ''towonel.io/auto-routes-namespaces''"
definition AnnotationDNSRecord :: string where "AnnotationDNSRecord = ''towonel.io/dns-record''"

definition CondReady :: string where "CondReady = ''Ready''"
definition CondInviteIssued :: string where "CondInviteIssued = ''InviteIssued''"
definition CondHostnamesSynced :: string where "CondHostnamesSynced = ''HostnamesSynced''"
definition CondTokenExpiringSoon :: string where "CondTokenExpiringSoon = ''TokenExpiringSoon''"
definition CondTunnelReady :: string where "CondTunnelReady = ''TunnelReady''"
definition CondConfigRendered :: string where "CondConfigRendered = ''ConfigRendered''"
definition CondPortsAllocated :: string where "CondPortsAllocated = ''PortsAllocated''"
definition CondWorkloadAvailable :: string where "CondWorkloadAvailable = ''WorkloadAvailable''"
definition CondPortsReserved :: string where "CondPortsReserved = ''PortsReserved''"
definition CondDNSEndpointSynced :: string where "CondDNSEndpointSynced = ''DNSEndpointSynced''"
definition CondRegionEndpointsAvailable :: string where
  "CondRegionEndpointsAvailable = ''RegionEndpointsAvailable''"
definition CondIrohConnectivityReady :: string where
  "CondIrohConnectivityReady = ''IrohConnectivityReady''"

lemmas cond_names = CondReady_def CondInviteIssued_def CondHostnamesSynced_def
  CondTokenExpiringSoon_def CondTunnelReady_def CondConfigRendered_def CondPortsAllocated_def
  CondWorkloadAvailable_def CondPortsReserved_def CondDNSEndpointSynced_def
  CondRegionEndpointsAvailable_def CondIrohConnectivityReady_def

text \<open>The reasons of conditions and events.\<close>

abbreviation ReasonDNSCRDMissing :: string where "ReasonDNSCRDMissing \<equiv> ''DNSEndpointCRDMissing''"
abbreviation ReasonNoEdgeTarget :: string where "ReasonNoEdgeTarget \<equiv> ''NoEdgeTarget''"
abbreviation ReasonForeignObject :: string where "ReasonForeignObject \<equiv> ''ForeignObject''"
abbreviation ReasonInviteRevoked :: string where "ReasonInviteRevoked \<equiv> ''InviteRevoked''"
abbreviation ReasonInvalidConfig :: string where "ReasonInvalidConfig \<equiv> ''InvalidConfig''"
abbreviation ReasonReconciling :: string where "ReasonReconciling \<equiv> ''Reconciling''"
abbreviation ReasonReady :: string where "ReasonReady \<equiv> ''Ready''"
abbreviation ReasonAPIError :: string where "ReasonAPIError \<equiv> ''APIError''"
abbreviation ReasonSynced :: string where "ReasonSynced \<equiv> ''Synced''"
abbreviation ReasonExpiringSoon :: string where "ReasonExpiringSoon \<equiv> ''ExpiringSoon''"
abbreviation ReasonNotExpiring :: string where "ReasonNotExpiring \<equiv> ''NotExpiring''"
abbreviation ReasonTunnelNotFound :: string where "ReasonTunnelNotFound \<equiv> ''TunnelNotFound''"
abbreviation ReasonTokenSecretMissing :: string where "ReasonTokenSecretMissing \<equiv> ''TokenSecretMissing''"
abbreviation ReasonTokenStale :: string where "ReasonTokenStale \<equiv> ''TokenStale''"
abbreviation ReasonNoL4Services :: string where "ReasonNoL4Services \<equiv> ''NoL4Services''"
abbreviation ReasonPending :: string where "ReasonPending \<equiv> ''Pending''"
abbreviation ReasonRendered :: string where "ReasonRendered \<equiv> ''Rendered''"
abbreviation ReasonAvailable :: string where "ReasonAvailable \<equiv> ''Available''"
abbreviation ReasonUnavailable :: string where "ReasonUnavailable \<equiv> ''Unavailable''"
abbreviation ReasonSecretClash :: string where "ReasonSecretClash \<equiv> ''SecretClash''"
abbreviation ReasonPortConflict :: string where "ReasonPortConflict \<equiv> ''PortConflict''"
abbreviation ReasonConnectivityReady :: string where "ReasonConnectivityReady \<equiv> ''ConnectivityReady''"
abbreviation ReasonConnectivitySkipped :: string where "ReasonConnectivitySkipped \<equiv> ''ConnectivitySkipped''"
abbreviation ReasonNodeRBACShellMissing :: string where "ReasonNodeRBACShellMissing \<equiv> ''NodeRBACShellMissing''"
abbreviation ReasonPortIgnored :: string where "ReasonPortIgnored \<equiv> ''NodePortPortIgnored''"
abbreviation ReasonEnvIgnored :: string where "ReasonEnvIgnored \<equiv> ''EnvIgnored''"
abbreviation ReasonInvalidAnnotation :: string where "ReasonInvalidAnnotation \<equiv> ''InvalidAnnotationValue''"
abbreviation ReasonTunnelRefMissing :: string where "ReasonTunnelRefMissing \<equiv> ''TunnelRefMissing''"
abbreviation ReasonGatewayServiceUnset :: string where "ReasonGatewayServiceUnset \<equiv> ''GatewayServiceUnspecified''"
abbreviation ReasonHostnameConflict :: string where "ReasonHostnameConflict \<equiv> ''HostnameConflict''"
abbreviation ReasonAmbiguousGateway :: string where "ReasonAmbiguousGateway \<equiv> ''AmbiguousGateway''"
abbreviation ReasonAgentRefNotFound :: string where "ReasonAgentRefNotFound \<equiv> ''AgentRefNotFound''"
abbreviation ReasonAgentRefConflict :: string where "ReasonAgentRefConflict \<equiv> ''AgentRefConflict''"
abbreviation ReasonDefaultAgentClash :: string where "ReasonDefaultAgentClash \<equiv> ''DefaultAgentNameConflict''"
abbreviation ReasonMultipleAgents :: string where "ReasonMultipleAgents \<equiv> ''MultipleAgentsOnTunnel''"
abbreviation ReasonObserveOnly :: string where "ReasonObserveOnly \<equiv> ''ObserveOnlyAgent''"
abbreviation ReasonReconcilingAgent :: string where "ReasonReconcilingAgent \<equiv> ''ReconcilingAgent''"
abbreviation ReasonAutoSelectedByGateway :: string where "ReasonAutoSelectedByGateway \<equiv> ''AutoSelectedByGateway''"

text \<open>Durations in nanoseconds.\<close>

definition second :: int where "second = 1000000000"
definition minute :: int where "minute = 60 * second"
definition dnsRetryRequeue :: int where "dnsRetryRequeue = 2 * minute"
definition renewWindow :: int where "renewWindow = 7 * 24 * 60 * minute"
definition waitingRequeue :: int where "waitingRequeue = 30 * second"
definition defaultTokenKey :: string where "defaultTokenKey = ''token''"
definition tokenDataKey :: string where "tokenDataKey = ''token''"
definition defaultAgentImage :: string where
  "defaultAgentImage = ''codeberg.org/towonel/towonel-agent:1.13.4''"
definition agentHealthAddr :: string where "agentHealthAddr = ''0.0.0.0:9090''"
definition agentHealthPort :: int where "agentHealthPort = 9090"
definition nodeReaderName :: string where "nodeReaderName = ''towonel-operator-agent-node-reader''"

section \<open>Names\<close>

definition tokenSecretName :: "string \<Rightarrow> string" where
  "tokenSecretName tunnelName = tunnelName @ ''-token''"

definition portLabel :: "string \<Rightarrow> string \<Rightarrow> string \<Rightarrow> string" where
  "portLabel tunnelNS tunnelName svc = tunnelNS @ ''/'' @ tunnelName @ ''/'' @ svc"

definition portLabelPrefix :: "string \<Rightarrow> string \<Rightarrow> string" where
  "portLabelPrefix tunnelNS tunnelName = tunnelNS @ ''/'' @ tunnelName @ ''/''"

definition srcFieldManager :: "string \<Rightarrow> string \<Rightarrow> string \<Rightarrow> string" where
  "srcFieldManager kind namespace name =
     ''towonel-src:'' @ kind @ '':'' @ namespace @ '':'' @ name"

definition agentSAName :: "string \<Rightarrow> string" where
  "agentSAName agentName = agentName"

definition nodePortServiceName :: "towonel_agent \<Rightarrow> string" where
  "nodePortServiceName ta =
     cmp_or (np_name (cn_nodePort (ag_connectivity (ta_spec ta)))) (m_name (ta_meta ta) @ ''-iroh'')"

definition servicesReaderName :: "string \<Rightarrow> string" where
  "servicesReaderName agentName = agentName @ ''-iroh-svc-reader''"

definition resolvedTunnelRef :: "towonel_agent \<Rightarrow> nn" where
  "resolvedTunnelRef ta =
     (cmp_or (tr_namespace (ag_tunnelRef (ta_spec ta))) (m_ns (ta_meta ta)),
      tr_name (ag_tunnelRef (ta_spec ta)))"

text \<open>The value the shared field index stores for an agent (\<open>RegisterIndexes\<close>).\<close>

definition agentTunnelRefIndex :: "towonel_agent \<Rightarrow> string list" where
  "agentTunnelRefIndex ta =
     (if tr_name (ag_tunnelRef (ta_spec ta)) = [] then [] else [nn_str (resolvedTunnelRef ta)])"

definition ownerHash :: "string \<Rightarrow> string \<Rightarrow> string" where
  "ownerHash namespace name = take 16 (hex_encode (sha256 (namespace @ ''/'' @ name)))"

definition dnsEndpointName :: "string \<Rightarrow> string \<Rightarrow> string" where
  "dnsEndpointName namespace name =
     (let n = ''towonel.'' @ namespace @ ''.'' @ name
      in if length n \<le> 253 then n else ''towonel.'' @ ownerHash namespace name)"

section \<open>Default agent names\<close>

definition is_lower :: "char \<Rightarrow> bool" where
  "is_lower c = (let n = of_char c :: nat in 97 \<le> n \<and> n \<le> 122)"

definition is_upper :: "char \<Rightarrow> bool" where
  "is_upper c = (let n = of_char c :: nat in 65 \<le> n \<and> n \<le> 90)"

fun sanitize_loop :: "bool \<Rightarrow> string \<Rightarrow> string" where
  "sanitize_loop prevHyphen [] = []"
| "sanitize_loop prevHyphen (c # s) =
     (if is_lower c \<or> is_digit c then c # sanitize_loop False s
      else if is_upper c then char_of (of_char c + (32::nat)) # sanitize_loop False s
      else if \<not> prevHyphen then CHR ''-'' # sanitize_loop True s
      else sanitize_loop prevHyphen s)"

definition sanitizeLabel :: "string \<Rightarrow> string" where
  "sanitizeLabel s = trim_char (sanitize_loop False s) CHR ''-''"

definition defaultAgentName :: "string \<Rightarrow> string \<Rightarrow> string" where
  "defaultAgentName tunnelNS tunnelName =
     (let short = hex_encode (take 4 (sha256 (tunnelNS @ ''/'' @ tunnelName)));
          san = sanitizeLabel (tunnelNS @ ''-'' @ tunnelName);
          maxSan = 63 - 1 - 8;
          san = (if length san > maxSan then trim_right_char (take maxSan san) CHR ''-'' else san)
      in if san = [] then short else san @ ''-'' @ short)"

section \<open>Truth values of annotations\<close>

definition ParseTruthy :: "string \<Rightarrow> goerr + bool" where
  "ParseTruthy v =
     (let t = to_lower (trim_space v) in
      if t \<in> {''true'', ''yes'', ''enable'', ''enabled''} then Inr True
      else if t \<in> {''false'', ''no'', ''disable'', ''disabled''} then Inr False
      else Inl (Errorf (sentinel_text ErrUnrecognizedTruthy @ '': '' @ quote v)
                  [Sentinel ErrUnrecognizedTruthy]))"

text \<open>The operator's use of it where the error is dropped: \<open>enabled, _ := ParseTruthy(v)\<close>.\<close>

definition truthy :: "string \<Rightarrow> bool" where
  "truthy v = (ParseTruthy v = Inr True)"

section \<open>Facts about names\<close>

lemma append_char_inject:
  assumes "c \<notin> set a" and "c \<notin> set b" and "a @ c # x = b @ c # y"
  shows "a = b \<and> x = y"
proof -
  have "takeWhile (\<lambda>z. z \<noteq> c) (a @ c # x) = takeWhile (\<lambda>z. z \<noteq> c) (b @ c # y)"
    using assms(3) by simp
  then have "a = b" using assms(1,2) by (simp add: takeWhile_append_no)
  then show ?thesis using assms(3) by simp
qed

lemma tokenSecretName_inject [simp]: "tokenSecretName a = tokenSecretName b \<longleftrightarrow> a = b"
  by (simp add: tokenSecretName_def)

lemma nn_str_inject:
  "CHR ''/'' \<notin> set (fst a) \<Longrightarrow> CHR ''/'' \<notin> set (fst b) \<Longrightarrow> nn_str a = nn_str b \<Longrightarrow> a = b"
  using append_char_inject[of "CHR ''/''" "fst a" "fst b" "snd a" "snd b"]
  by (auto simp: nn_str_def intro: prod_eqI)

lemma portLabel_prefix: "has_prefix (portLabel ns name svc) (portLabelPrefix ns name)"
  by (auto simp: has_prefix_iff portLabel_def portLabelPrefix_def)

lemma portLabelPrefix_inject:
  assumes "CHR ''/'' \<notin> set ns" and "CHR ''/'' \<notin> set ns'"
    and "CHR ''/'' \<notin> set name" and "CHR ''/'' \<notin> set name'"
    and "has_prefix (portLabel ns' name' svc) (portLabelPrefix ns name)"
  shows "ns' = ns \<and> name' = name"
proof -
  from assms(5) obtain r where
    "ns' @ CHR ''/'' # (name' @ CHR ''/'' # svc) = ns @ CHR ''/'' # (name @ CHR ''/'' # r)"
    by (auto simp: has_prefix_iff portLabel_def portLabelPrefix_def)
  from append_char_inject[OF assms(2,1) this]
  have "ns' = ns" and rest: "name' @ CHR ''/'' # svc = name @ CHR ''/'' # r" by simp_all
  then show ?thesis using append_char_inject[OF assms(4,3) rest] by simp
qed

lemma srcFieldManager_prefix: "has_prefix (srcFieldManager k ns n) ''towonel-src:''"
  unfolding srcFieldManager_def by (rule has_prefix_append)

lemma srcFieldManager_inject:
  assumes "CHR '':'' \<notin> set k" and "CHR '':'' \<notin> set k'"
    and "CHR '':'' \<notin> set ns" and "CHR '':'' \<notin> set ns'"
    and "srcFieldManager k ns n = srcFieldManager k' ns' n'"
  shows "k = k' \<and> ns = ns' \<and> n = n'"
proof -
  from assms(5) have "k @ CHR '':'' # (ns @ CHR '':'' # n) = k' @ CHR '':'' # (ns' @ CHR '':'' # n')"
    by (simp add: srcFieldManager_def)
  from append_char_inject[OF assms(1,2) this]
  have "k = k'" and rest: "ns @ CHR '':'' # n = ns' @ CHR '':'' # n'" by simp_all
  then show ?thesis using append_char_inject[OF assms(3,4) rest] by simp
qed

lemma length_ownerHash [simp]: "length (ownerHash ns n) = 16"
  by (simp add: ownerHash_def)

lemma dnsEndpointName_length: "length (dnsEndpointName ns n) \<le> 253"
  by (simp add: dnsEndpointName_def Let_def)

lemma dnsEndpointName_inject:
  assumes "CHR ''.'' \<notin> set ns" and "CHR ''.'' \<notin> set ns'"
    and "length ns + length n \<le> 244" and "length ns' + length n' \<le> 244"
    and "dnsEndpointName ns n = dnsEndpointName ns' n'"
  shows "ns = ns' \<and> n = n'"
  using assms append_char_inject[of "CHR ''.''" ns ns' n n']
  by (simp add: dnsEndpointName_def Let_def)

definition label_char :: "char \<Rightarrow> bool" where
  "label_char c \<longleftrightarrow> is_lower c \<or> is_digit c \<or> c = CHR ''-''"

text \<open>A DNS-1123 label: what the API server accepts as the name of a namespaced object here.\<close>

definition dns1123_label :: "string \<Rightarrow> bool" where
  "dns1123_label s \<longleftrightarrow> s \<noteq> [] \<and> length s \<le> 63 \<and> list_all label_char s \<and>
     hd s \<noteq> CHR ''-'' \<and> last s \<noteq> CHR ''-''"

lemma upper_to_lower: "is_upper c \<Longrightarrow> is_lower (char_of (of_char c + (32::nat)))"
  by (auto simp: is_upper_def is_lower_def Let_def)

lemma sanitize_loop_chars: "list_all label_char (sanitize_loop p s)"
  by (induction p s rule: sanitize_loop.induct) (auto simp: label_char_def upper_to_lower)

fun no_double_hyphen :: "string \<Rightarrow> bool" where
  "no_double_hyphen (a # b # s) \<longleftrightarrow>
     \<not> (a = CHR ''-'' \<and> b = CHR ''-'') \<and> no_double_hyphen (b # s)"
| "no_double_hyphen s \<longleftrightarrow> True"

lemma lower_not_hyphen: "is_lower c \<or> is_digit c \<Longrightarrow> c \<noteq> CHR ''-''"
  by (auto simp: is_lower_def is_digit_def)

lemma no_double_hyphen_Cons:
  "no_double_hyphen (c # s) \<longleftrightarrow>
     (c = CHR ''-'' \<longrightarrow> (case s of [] \<Rightarrow> True | d # _ \<Rightarrow> d \<noteq> CHR ''-'')) \<and> no_double_hyphen s"
  by (cases s) auto

lemma sanitize_loop_single:
  "no_double_hyphen (sanitize_loop p s) \<and>
   (p \<longrightarrow> (case sanitize_loop p s of [] \<Rightarrow> True | d # _ \<Rightarrow> d \<noteq> CHR ''-''))"
proof (induction p s rule: sanitize_loop.induct)
  case (2 p c s)
  then show ?case
    using lower_not_hyphen[of c] lower_not_hyphen[OF disjI1, OF upper_to_lower[of c]]
    by (auto simp: no_double_hyphen_Cons simp del: no_double_hyphen.simps)
qed simp

lemma no_double_hyphen_append: "no_double_hyphen (xs @ ys) \<Longrightarrow> no_double_hyphen xs \<and> no_double_hyphen ys"
proof (induction xs)
  case (Cons x xs)
  then show ?case by (cases xs) (auto simp: no_double_hyphen_Cons simp del: no_double_hyphen.simps)
qed simp

lemma trim_right_char_split: "\<exists>t. s = trim_right_char s c @ t"
proof -
  have "rev s = takeWhile (\<lambda>x. x = c) (rev s) @ dropWhile (\<lambda>x. x = c) (rev s)" by simp
  then have "s = rev (dropWhile (\<lambda>x. x = c) (rev s)) @ rev (takeWhile (\<lambda>x. x = c) (rev s))"
    by (metis rev_append rev_rev_ident)
  then show ?thesis unfolding trim_right_char_def by blast
qed

lemma trim_right_char_last: "trim_right_char s c \<noteq> [] \<Longrightarrow> last (trim_right_char s c) \<noteq> c"
  using hd_dropWhile[of "\<lambda>x. x = c" "rev s"]
  by (simp only: trim_right_char_def last_rev rev_is_Nil_conv not_False_eq_True simp_thms)

lemma trim_right_char_hd: "trim_right_char s c \<noteq> [] \<Longrightarrow> hd (trim_right_char s c) = hd s"
  using trim_right_char_split[of s c] by (metis hd_append2)

lemma length_trim_right_char: "length (trim_right_char s c) \<le> length s"
  using trim_right_char_split[of s c] by (metis length_append le_add1)

lemma list_all_trim_right: "list_all P s \<Longrightarrow> list_all P (trim_right_char s c)"
  using trim_right_char_split[of s c] by (metis list_all_append)

lemma list_all_take: "list_all P s \<Longrightarrow> list_all P (take n s)"
  by (auto simp: list_all_iff dest: in_set_takeD)

lemma sanitizeLabel_props:
  "list_all label_char (sanitizeLabel s)"
  "sanitizeLabel s \<noteq> [] \<Longrightarrow> hd (sanitizeLabel s) \<noteq> CHR ''-''"
  "sanitizeLabel s \<noteq> [] \<Longrightarrow> last (sanitizeLabel s) \<noteq> CHR ''-''"
proof -
  let ?d = "dropWhile (\<lambda>x. x = CHR ''-'') (sanitize_loop False s)"
  have eq: "sanitizeLabel s = trim_right_char ?d CHR ''-''"
    by (simp add: sanitizeLabel_def trim_char_def)
  have "list_all label_char ?d"
    using sanitize_loop_chars[of False s] by (auto simp: list_all_iff dest: set_dropWhileD)
  then show "list_all label_char (sanitizeLabel s)" by (simp add: eq list_all_trim_right)
  assume ne: "sanitizeLabel s \<noteq> []"
  have "?d \<noteq> []"
  proof
    assume "?d = []"
    then have "sanitizeLabel s = []" unfolding eq by (simp only: trim_right_char_def rev.simps dropWhile.simps)
    with ne show False by simp
  qed
  then have "hd ?d \<noteq> CHR ''-''" by (rule hd_dropWhile[where P = "\<lambda>x. x = CHR ''-''"])
  then show "hd (sanitizeLabel s) \<noteq> CHR ''-''" using ne by (simp add: eq trim_right_char_hd)
  show "last (sanitizeLabel s) \<noteq> CHR ''-''" using ne by (simp add: eq trim_right_char_last)
qed

lemma sanitizeLabel_no_double: "no_double_hyphen (sanitizeLabel s)"
proof -
  let ?l = "sanitize_loop False s"
  let ?d = "dropWhile (\<lambda>x. x = CHR ''-'') ?l"
  have "no_double_hyphen (takeWhile (\<lambda>x. x = CHR ''-'') ?l @ ?d)"
    using sanitize_loop_single[of False s] by simp
  then have d: "no_double_hyphen ?d" by (rule no_double_hyphen_append [THEN conjunct2])
  obtain t where "?d = trim_right_char ?d CHR ''-'' @ t" using trim_right_char_split by blast
  then have "no_double_hyphen (trim_right_char ?d CHR ''-'')"
    using d no_double_hyphen_append by metis
  then show ?thesis by (simp add: sanitizeLabel_def trim_char_def)
qed

lemma hex_label_char: "is_hex c \<Longrightarrow> label_char c \<and> c \<noteq> CHR ''-''"
  by (auto simp: is_hex_def label_char_def is_lower_def is_digit_def Let_def)

lemma short_hash_hex:
  "list_all is_hex (hex_encode (take n (sha256 s)))"
  by (rule hex_encode_hex) (auto dest!: in_set_takeD intro: sha256_byte)

lemma dns1123_append:
  assumes "a \<noteq> []" "list_all label_char a" "hd a \<noteq> CHR ''-''"
    and "h \<noteq> []" "list_all is_hex h" and "length a + length h \<le> 62"
  shows "dns1123_label (a @ CHR ''-'' # h)"
proof -
  have "last h \<in> set h" using assms(4) by simp
  then have "last h \<noteq> CHR ''-''" using assms(5) hex_label_char by (auto simp: list_all_iff)
  moreover have "list_all label_char h" using assms(5) hex_label_char by (auto simp: list_all_iff)
  ultimately show ?thesis using assms by (simp add: dns1123_label_def label_char_def)
qed

lemma dns1123_hex:
  assumes "h \<noteq> []" "list_all is_hex h" "length h \<le> 63"
  shows "dns1123_label h"
proof -
  have "hd h \<in> set h" "last h \<in> set h" using assms(1) by simp_all
  then show ?thesis using assms hex_label_char by (auto simp: dns1123_label_def list_all_iff)
qed

text \<open>C39: whatever the tunnel's namespace and name are, the name of its default agent is a valid
  DNS-1123 label of at most 63 characters, and it ends in the first eight hexadecimal digits of
  the digest of the unsanitized \<open>namespace/name\<close>, so two tunnels whose digests differ there
  never share a default agent.\<close>

theorem defaultAgentName_label:
  "dns1123_label (defaultAgentName ns n) \<and>
   has_suffix (defaultAgentName ns n) (hex_encode (take 4 (sha256 (nn_str (ns, n)))))"
proof -
  let ?short = "hex_encode (take 4 (sha256 (ns @ ''/'' @ n)))"
  let ?san = "sanitizeLabel (ns @ ''-'' @ n)"
  let ?cut = "if length ?san > 54 then trim_right_char (take 54 ?san) CHR ''-'' else ?san"
  have short: "?short \<noteq> []" "list_all is_hex ?short" "length ?short = 8"
    using short_hash_hex by (auto simp: length_0_conv [symmetric] simp del: length_0_conv)
  have name: "defaultAgentName ns n = (if ?cut = [] then ?short else ?cut @ CHR ''-'' # ?short)"
    by (simp add: defaultAgentName_def Let_def)
  have chars: "list_all label_char ?cut"
    using sanitizeLabel_props(1)[of "ns @ ''-'' @ n"]
      list_all_trim_right[of label_char "take 54 ?san" "CHR ''-''"]
    by (simp add: list_all_take)
  have hd: "?cut \<noteq> [] \<Longrightarrow> hd ?cut \<noteq> CHR ''-''"
    using sanitizeLabel_props(2)[of "ns @ ''-'' @ n"]
    by (cases "?san = []") (auto simp: trim_right_char_hd)
  have len: "length ?cut \<le> 54"
    using length_trim_right_char[of "take 54 ?san" "CHR ''-''"] by auto
  have suffix: "has_suffix (defaultAgentName ns n) ?short"
    unfolding name has_suffix_iff by (metis append.assoc append_Cons append_Nil)
  show ?thesis
  proof (cases "?cut = []")
    case True
    then show ?thesis using name short suffix by (simp add: dns1123_hex nn_str_def)
  next
    case False
    then have "dns1123_label (?cut @ CHR ''-'' # ?short)"
      using dns1123_append[OF False chars hd[OF False] short(1,2)] len short(3) by simp
    then show ?thesis using False name suffix by (simp add: nn_str_def)
  qed
qed

end
