(* ===== verification/HubClient.thy ===== *)
theory HubClient
  imports Conventions "HOL-Library.Monad_Syntax"
begin

text \<open>
  \<open>internal/towonel\<close>: the wire types (\<open>types.go\<close>), the HTTP client (\<open>client.go\<close>) and its
  operations on invites and ports (\<open>invites.go\<close>, \<open>ports.go\<close>).

  The HTTP transport is an argument, a function of the request and the world. A body is the
  JSON value it carries, or a text that is no JSON; the encoders and decoders below follow the
  struct tags of \<open>types.go\<close> field by field. Contexts and deadlines are not modelled: an
  expired deadline is a \<open>DoError\<close> of the transport.
\<close>

section \<open>Wire types\<close>

record create_invite_request =
  cr_hostnames :: "string list"
  cr_name :: "string option"
  cr_region :: "string option"
  cr_failoverRegions :: "string list"
  cr_expiresInSecs :: "int option"
  cr_ownerEmail :: "string option"

record create_invite_response =
  co_status :: string
  co_token :: string
  co_inviteID :: string
  co_tenantID :: string
  co_name :: string
  co_expiresAtMs :: "int option"

record invite =
  iv_inviteID :: string
  iv_tenantID :: string
  iv_name :: string
  iv_hostnames :: "string list"
  iv_region :: string
  iv_status :: string
  iv_expiresAtMs :: "int option"

record remove_hostname_response =
  rh_status :: string
  rh_hostname :: string
  rh_remaining :: "string list"

record add_hostnames_response =
  ah_status :: string
  ah_hostnames :: "string list"

record available_ports_response =
  ap_protocol :: string
  ap_rangeStart :: int
  ap_rangeEnd :: int
  ap_ports :: "int list"

record edge_info =
  ei_nodeID :: string
  ei_addresses :: "string list"

record reserve_port_request =
  rp_protocol :: string
  rp_preferred :: "int option"
  rp_ip :: "string option"
  rp_label :: "string option"

record reserve_port_response =
  rr_status :: string
  rr_port :: int
  rr_protocol :: string
  rr_claimedAtMs :: int
  rr_ip :: "string option"
  rr_label :: "string option"
  rr_edge :: "edge_info option"

record edge_status =
  es_nodeID :: string
  es_publicIPs :: "string list"

record region_status =
  rs_region :: string
  rs_role :: string
  rs_edges :: "edge_status list"

record invite_status =
  ivs_inviteID :: string
  ivs_tenantID :: string
  ivs_regions :: "region_status list"

section \<open>Encoding and decoding\<close>

definition enc_create_invite_request :: "create_invite_request \<Rightarrow> json" where
  "enc_create_invite_request r = JObj ((''hostnames'', jstrs (cr_hostnames r)) #
     omit_ptr ''name'' JStr (cr_name r) @ omit_ptr ''region'' JStr (cr_region r) @
     omit_ptr ''failover_regions'' jstrs
       (if cr_failoverRegions r = [] then None else Some (cr_failoverRegions r)) @
     omit_ptr ''expires_in_secs'' JNum (cr_expiresInSecs r) @
     omit_ptr ''owner_email'' JStr (cr_ownerEmail r) @ [])"

definition dec_create_invite_request :: "json \<Rightarrow> create_invite_request option" where
  "dec_create_invite_request j = (if \<not> is_jobj j then None else do {
     hs \<leftarrow> dec_list dec_string (jfield j ''hostnames'');
     n \<leftarrow> dec_ptr dec_string (jfield j ''name'');
     r \<leftarrow> dec_ptr dec_string (jfield j ''region'');
     f \<leftarrow> dec_list dec_string (jfield j ''failover_regions'');
     x \<leftarrow> dec_ptr dec_int (jfield j ''expires_in_secs'');
     e \<leftarrow> dec_ptr dec_string (jfield j ''owner_email'');
     Some \<lparr>cr_hostnames = hs, cr_name = n, cr_region = r, cr_failoverRegions = f,
       cr_expiresInSecs = x, cr_ownerEmail = e\<rparr> })"

definition enc_create_invite_response :: "create_invite_response \<Rightarrow> json" where
  "enc_create_invite_response r = JObj ([(''status'', JStr (co_status r)),
     (''token'', JStr (co_token r)), (''invite_id'', JStr (co_inviteID r)),
     (''tenant_id'', JStr (co_tenantID r)), (''name'', JStr (co_name r))] @
     omit_ptr ''expires_at_ms'' JNum (co_expiresAtMs r) @ [])"

definition dec_create_invite_response :: "json \<Rightarrow> create_invite_response option" where
  "dec_create_invite_response j = (if \<not> is_jobj j then None else do {
     s \<leftarrow> dec_string (jfield j ''status'');
     t \<leftarrow> dec_string (jfield j ''token'');
     i \<leftarrow> dec_string (jfield j ''invite_id'');
     n \<leftarrow> dec_string (jfield j ''tenant_id'');
     m \<leftarrow> dec_string (jfield j ''name'');
     x \<leftarrow> dec_ptr dec_int (jfield j ''expires_at_ms'');
     Some \<lparr>co_status = s, co_token = t, co_inviteID = i, co_tenantID = n, co_name = m,
       co_expiresAtMs = x\<rparr> })"

definition enc_invite :: "invite \<Rightarrow> json" where
  "enc_invite r = JObj ([(''invite_id'', JStr (iv_inviteID r)), (''tenant_id'', JStr (iv_tenantID r)),
     (''name'', JStr (iv_name r)), (''hostnames'', jstrs (iv_hostnames r)),
     (''region'', JStr (iv_region r)), (''status'', JStr (iv_status r))] @
     omit_ptr ''expires_at_ms'' JNum (iv_expiresAtMs r) @ [])"

definition dec_invite :: "json \<Rightarrow> invite option" where
  "dec_invite j = (if \<not> is_jobj j then None else do {
     i \<leftarrow> dec_string (jfield j ''invite_id'');
     t \<leftarrow> dec_string (jfield j ''tenant_id'');
     n \<leftarrow> dec_string (jfield j ''name'');
     hs \<leftarrow> dec_list dec_string (jfield j ''hostnames'');
     r \<leftarrow> dec_string (jfield j ''region'');
     s \<leftarrow> dec_string (jfield j ''status'');
     x \<leftarrow> dec_ptr dec_int (jfield j ''expires_at_ms'');
     Some \<lparr>iv_inviteID = i, iv_tenantID = t, iv_name = n, iv_hostnames = hs, iv_region = r,
       iv_status = s, iv_expiresAtMs = x\<rparr> })"

definition enc_remove_hostname_response :: "remove_hostname_response \<Rightarrow> json" where
  "enc_remove_hostname_response r = JObj [(''status'', JStr (rh_status r)),
     (''hostname'', JStr (rh_hostname r)), (''remaining_hostnames'', jstrs (rh_remaining r))]"

definition dec_remove_hostname_response :: "json \<Rightarrow> remove_hostname_response option" where
  "dec_remove_hostname_response j = (if \<not> is_jobj j then None else do {
     s \<leftarrow> dec_string (jfield j ''status'');
     h \<leftarrow> dec_string (jfield j ''hostname'');
     r \<leftarrow> dec_list dec_string (jfield j ''remaining_hostnames'');
     Some \<lparr>rh_status = s, rh_hostname = h, rh_remaining = r\<rparr> })"

definition enc_add_hostnames_request :: "string list \<Rightarrow> json" where
  "enc_add_hostnames_request hs = JObj [(''hostnames'', jstrs hs)]"

definition dec_add_hostnames_request :: "json \<Rightarrow> string list option" where
  "dec_add_hostnames_request j =
     (if is_jobj j then dec_list dec_string (jfield j ''hostnames'') else None)"

definition enc_add_hostnames_response :: "add_hostnames_response \<Rightarrow> json" where
  "enc_add_hostnames_response r = JObj [(''status'', JStr (ah_status r)),
     (''hostnames'', jstrs (ah_hostnames r))]"

definition dec_add_hostnames_response :: "json \<Rightarrow> add_hostnames_response option" where
  "dec_add_hostnames_response j = (if \<not> is_jobj j then None else do {
     s \<leftarrow> dec_string (jfield j ''status'');
     hs \<leftarrow> dec_list dec_string (jfield j ''hostnames'');
     Some \<lparr>ah_status = s, ah_hostnames = hs\<rparr> })"

definition dec_available_ports_response :: "json \<Rightarrow> available_ports_response option" where
  "dec_available_ports_response j = (if \<not> is_jobj j then None else do {
     p \<leftarrow> dec_string (jfield j ''protocol'');
     a \<leftarrow> dec_int (jfield j ''range_start'');
     b \<leftarrow> dec_int (jfield j ''range_end'');
     ps \<leftarrow> dec_list dec_int (jfield j ''ports'');
     Some \<lparr>ap_protocol = p, ap_rangeStart = a, ap_rangeEnd = b, ap_ports = ps\<rparr> })"

definition enc_edge_info :: "edge_info \<Rightarrow> json" where
  "enc_edge_info e = JObj [(''node_id'', JStr (ei_nodeID e)), (''addresses'', jstrs (ei_addresses e))]"

definition dec_edge_info :: "json \<Rightarrow> edge_info option" where
  "dec_edge_info j = (if \<not> is_jobj j then None else do {
     n \<leftarrow> dec_string (jfield j ''node_id'');
     a \<leftarrow> dec_list dec_string (jfield j ''addresses'');
     Some \<lparr>ei_nodeID = n, ei_addresses = a\<rparr> })"

definition enc_reserve_port_request :: "reserve_port_request \<Rightarrow> json" where
  "enc_reserve_port_request r = JObj ((''protocol'', JStr (rp_protocol r)) #
     omit_ptr ''preferred'' JNum (rp_preferred r) @ omit_ptr ''ip'' JStr (rp_ip r) @
     omit_ptr ''label'' JStr (rp_label r) @ [])"

definition dec_reserve_port_request :: "json \<Rightarrow> reserve_port_request option" where
  "dec_reserve_port_request j = (if \<not> is_jobj j then None else do {
     p \<leftarrow> dec_string (jfield j ''protocol'');
     q \<leftarrow> dec_ptr dec_int (jfield j ''preferred'');
     i \<leftarrow> dec_ptr dec_string (jfield j ''ip'');
     l \<leftarrow> dec_ptr dec_string (jfield j ''label'');
     Some \<lparr>rp_protocol = p, rp_preferred = q, rp_ip = i, rp_label = l\<rparr> })"

definition enc_reserve_port_response :: "reserve_port_response \<Rightarrow> json" where
  "enc_reserve_port_response r = JObj ([(''status'', JStr (rr_status r)), (''port'', JNum (rr_port r)),
     (''protocol'', JStr (rr_protocol r)), (''claimed_at_ms'', JNum (rr_claimedAtMs r))] @
     omit_ptr ''ip'' JStr (rr_ip r) @ omit_ptr ''label'' JStr (rr_label r) @
     omit_ptr ''edge'' enc_edge_info (rr_edge r) @ [])"

definition dec_reserve_port_response :: "json \<Rightarrow> reserve_port_response option" where
  "dec_reserve_port_response j = (if \<not> is_jobj j then None else do {
     s \<leftarrow> dec_string (jfield j ''status'');
     p \<leftarrow> dec_int (jfield j ''port'');
     q \<leftarrow> dec_string (jfield j ''protocol'');
     c \<leftarrow> dec_int (jfield j ''claimed_at_ms'');
     i \<leftarrow> dec_ptr dec_string (jfield j ''ip'');
     l \<leftarrow> dec_ptr dec_string (jfield j ''label'');
     e \<leftarrow> dec_ptr dec_edge_info (jfield j ''edge'');
     Some \<lparr>rr_status = s, rr_port = p, rr_protocol = q, rr_claimedAtMs = c, rr_ip = i,
       rr_label = l, rr_edge = e\<rparr> })"

definition enc_edge_status :: "edge_status \<Rightarrow> json" where
  "enc_edge_status e =
     JObj [(''node_id'', JStr (es_nodeID e)), (''public_ips'', jstrs (es_publicIPs e))]"

definition dec_edge_status :: "json \<Rightarrow> edge_status option" where
  "dec_edge_status j = (if \<not> is_jobj j then None else do {
     n \<leftarrow> dec_string (jfield j ''node_id'');
     a \<leftarrow> dec_list dec_string (jfield j ''public_ips'');
     Some \<lparr>es_nodeID = n, es_publicIPs = a\<rparr> })"

definition enc_region_status :: "region_status \<Rightarrow> json" where
  "enc_region_status r = JObj [(''region'', JStr (rs_region r)), (''role'', JStr (rs_role r)),
     (''edges'', JArr (map enc_edge_status (rs_edges r)))]"

definition dec_region_status :: "json \<Rightarrow> region_status option" where
  "dec_region_status j = (if \<not> is_jobj j then None else do {
     r \<leftarrow> dec_string (jfield j ''region'');
     l \<leftarrow> dec_string (jfield j ''role'');
     es \<leftarrow> dec_list dec_edge_status (jfield j ''edges'');
     Some \<lparr>rs_region = r, rs_role = l, rs_edges = es\<rparr> })"

definition enc_invite_status :: "invite_status \<Rightarrow> json" where
  "enc_invite_status s = JObj [(''invite_id'', JStr (ivs_inviteID s)),
     (''tenant_id'', JStr (ivs_tenantID s)), (''regions'', JArr (map enc_region_status (ivs_regions s)))]"

definition dec_invite_status :: "json \<Rightarrow> invite_status option" where
  "dec_invite_status j = (if \<not> is_jobj j then None else do {
     i \<leftarrow> dec_string (jfield j ''invite_id'');
     t \<leftarrow> dec_string (jfield j ''tenant_id'');
     rs \<leftarrow> dec_list dec_region_status (jfield j ''regions'');
     Some \<lparr>ivs_inviteID = i, ivs_tenantID = t, ivs_regions = rs\<rparr> })"

text \<open>Every type that crosses the wire survives the round trip.\<close>

lemmas codec_defs =
  enc_create_invite_request_def dec_create_invite_request_def
  enc_create_invite_response_def dec_create_invite_response_def
  enc_invite_def dec_invite_def enc_remove_hostname_response_def dec_remove_hostname_response_def
  enc_add_hostnames_request_def dec_add_hostnames_request_def
  enc_add_hostnames_response_def dec_add_hostnames_response_def
  enc_edge_info_def dec_edge_info_def enc_reserve_port_request_def dec_reserve_port_request_def
  enc_edge_status_def dec_edge_status_def

lemma is_jobj_JObj [simp]: "is_jobj (JObj fs)"
  by (simp add: is_jobj_def)

lemma codec_create_invite_request [simp]: "dec_create_invite_request (enc_create_invite_request r) = Some r"
  by (cases r) (auto simp: codec_defs)

lemma codec_create_invite_response [simp]: "dec_create_invite_response (enc_create_invite_response r) = Some r"
  by (cases r) (auto simp: codec_defs)

lemma codec_invite [simp]: "dec_invite (enc_invite r) = Some r"
  by (cases r) (auto simp: codec_defs)

lemma codec_remove_hostname_response [simp]: "dec_remove_hostname_response (enc_remove_hostname_response r) = Some r"
  by (cases r) (auto simp: codec_defs)

lemma codec_add_hostnames_request [simp]: "dec_add_hostnames_request (enc_add_hostnames_request r) = Some r"
  by (auto simp: codec_defs)

lemma codec_add_hostnames_response [simp]: "dec_add_hostnames_response (enc_add_hostnames_response r) = Some r"
  by (cases r) (auto simp: codec_defs)

lemma codec_edge_info [simp]: "dec_edge_info (enc_edge_info r) = Some r"
  by (cases r) (auto simp: codec_defs)

lemma codec_reserve_port_request [simp]: "dec_reserve_port_request (enc_reserve_port_request r) = Some r"
  by (cases r) (auto simp: codec_defs)

lemma codec_edge_status [simp]: "dec_edge_status (enc_edge_status r) = Some r"
  by (cases r) (auto simp: codec_defs)

lemma codec_reserve_port_response [simp]:
  "dec_reserve_port_response (enc_reserve_port_response r) = Some r"
proof -
  have edge: "dec_ptr dec_edge_info (enc_edge_info e) = Some (Some e)" for e
    using codec_edge_info[of e] by (simp add: enc_edge_info_def)
  show ?thesis
    by (cases r) (auto simp: enc_reserve_port_response_def dec_reserve_port_response_def edge)
qed

lemma codec_region_status [simp]: "dec_region_status (enc_region_status r) = Some r"
  by (cases r) (simp add: enc_region_status_def dec_region_status_def dec_all_map)

lemma codec_invite_status [simp]: "dec_invite_status (enc_invite_status r) = Some r"
  by (cases r) (simp add: enc_invite_status_def dec_invite_status_def dec_all_map)


section \<open>client.go\<close>

text \<open>\<open>url.PathEscape\<close> and the server's decoding of a request path.\<close>

definition path_safe :: "char \<Rightarrow> bool" where
  "path_safe c \<longleftrightarrow> is_lower c \<or> is_upper c \<or> is_digit c \<or> c \<in> set ''-_.~$&+=:@''"

definition upper_hex_digit :: "nat \<Rightarrow> char" where
  "upper_hex_digit d = (if d < 10 then char_of (48 + d) else char_of (55 + d))"

definition path_escape :: "string \<Rightarrow> string" where
  "path_escape s = concat (map (\<lambda>c. if path_safe c then [c]
     else [CHR ''%'', upper_hex_digit (of_char c div 16), upper_hex_digit (of_char c mod 16)]) s)"

definition hex_val :: "char \<Rightarrow> nat" where
  "hex_val c = (let n = of_char c :: nat in
     if 48 \<le> n \<and> n \<le> 57 then n - 48 else if 65 \<le> n \<and> n \<le> 70 then n - 55 else n - 87)"

fun path_unescape :: "string \<Rightarrow> string" where
  "path_unescape (c # a # b # s) =
     (if c = CHR ''%'' then char_of (hex_val a * 16 + hex_val b) # path_unescape s
      else c # path_unescape (a # b # s))"
| "path_unescape s = s"

datatype http_body = NoBody | JsonBody json | TextBody string

record http_request =
  hq_baseURL :: string
  hq_method :: string
  hq_path :: string
  hq_bearer :: string
  hq_body :: "json option"

record http_response =
  hs_status :: int
  hs_retryAfter :: string
  hs_body :: http_body

text \<open>Outcome of a round trip: the request cannot be built, the exchange fails, the response
  body cannot be read, or a response arrives.\<close>

datatype http_result = BuildError goerr | DoError goerr | ReadError goerr | Response http_response

type_synonym 'w http = "http_request \<Rightarrow> 'w \<Rightarrow> http_result \<times> 'w"

record hub_client =
  hc_baseURL :: string
  hc_apiKey :: string

definition NewClient :: "string \<Rightarrow> string \<Rightarrow> hub_client" where
  "NewClient baseURL apiKey = \<lparr>hc_baseURL = trim_right_char baseURL CHR ''/'', hc_apiKey = apiKey\<rparr>"

fun body_text :: "http_body \<Rightarrow> string" where
  "body_text NoBody = []"
| "body_text (JsonBody j) = json_text j"
| "body_text (TextBody s) = s"

text \<open>The leftmost match of \<open>Wait for (\d+)s\<close>: its digits.\<close>

fun wait_hint :: "string \<Rightarrow> string option" where
  "wait_hint [] = None"
| "wait_hint (c # s) =
     (case cut_prefix (c # s) ''Wait for '' of
        Some r \<Rightarrow> (let ds = takeWhile is_digit r in
          if ds \<noteq> [] \<and> has_prefix (dropWhile is_digit r) ''s'' then Some ds else wait_hint s)
      | None \<Rightarrow> wait_hint s)"

text \<open>\<open>time.Duration(secs) * time.Second\<close>, in 64-bit arithmetic.\<close>

definition seconds :: "int \<Rightarrow> int" where
  "seconds secs = wrap64 (secs * second)"

definition positive_atoi :: "string \<Rightarrow> int option" where
  "positive_atoi s = (case atoi s of Some n \<Rightarrow> if n > 0 then Some n else None | None \<Rightarrow> None)"

definition parseRetryAfter :: "string \<Rightarrow> string \<Rightarrow> int" where
  "parseRetryAfter header body =
     (case positive_atoi (trim_space header) of
        Some secs \<Rightarrow> seconds secs
      | None \<Rightarrow>
         (case wait_hint body of
            Some ds \<Rightarrow> (case positive_atoi ds of Some secs \<Rightarrow> seconds secs | None \<Rightarrow> 0)
          | None \<Rightarrow> 0))"

text \<open>What \<open>do\<close> makes of the outcome: \<open>dec\<close> decodes into \<open>out\<close>, whose zero value is
  \<open>zero\<close>.\<close>

definition decode_error :: goerr where
  "decode_error = wrapf ''decode response: '' (PlainError ''unexpected JSON'')"

definition read_response :: "(json \<Rightarrow> 'a option) \<Rightarrow> 'a \<Rightarrow> http_result \<Rightarrow> goerr + 'a" where
  "read_response dec zero res =
     (case res of
        BuildError e \<Rightarrow> Inl (wrapf ''build request: '' e)
      | DoError e \<Rightarrow> Inl (wrapf ''do request: '' e)
      | ReadError e \<Rightarrow> Inl (wrapf ''read response: '' e)
      | Response r \<Rightarrow>
          if hs_status r < 200 \<or> hs_status r \<ge> 300 then
            Inl (APIError (hs_status r) (body_text (hs_body r))
              (if hs_status r = 429
               then parseRetryAfter (hs_retryAfter r) (body_text (hs_body r)) else 0))
          else (case hs_body r of
              NoBody \<Rightarrow> Inr zero
            | JsonBody j \<Rightarrow> (case dec j of Some a \<Rightarrow> Inr a | None \<Rightarrow> Inl decode_error)
            | TextBody s \<Rightarrow> if s = [] then Inr zero else Inl decode_error))"

definition client_do ::
  "'w http \<Rightarrow> hub_client \<Rightarrow> string \<Rightarrow> string \<Rightarrow> json option \<Rightarrow> (json \<Rightarrow> 'a option) \<Rightarrow> 'a
     \<Rightarrow> ('w, goerr + 'a) op" where
  "client_do http c mthd path reqBody dec zero w =
     (let (res, w') = http \<lparr>hq_baseURL = hc_baseURL c, hq_method = mthd, hq_path = path,
                            hq_bearer = hc_apiKey c, hq_body = reqBody\<rparr> w
      in (read_response dec zero res, w'))"

text \<open>Calls that ignore the response body (\<open>out == nil\<close>): any 2xx body is accepted.\<close>

definition client_do_nil ::
  "'w http \<Rightarrow> hub_client \<Rightarrow> string \<Rightarrow> string \<Rightarrow> ('w, goerr option) op" where
  "client_do_nil http c mthd path w =
     (let (res, w') = http \<lparr>hq_baseURL = hc_baseURL c, hq_method = mthd, hq_path = path,
                            hq_bearer = hc_apiKey c, hq_body = None\<rparr> w
      in (case res of
            Response r \<Rightarrow>
              if hs_status r < 200 \<or> hs_status r \<ge> 300
              then (case read_response (\<lambda>_. Some ()) () res of Inl e \<Rightarrow> Some e | Inr _ \<Rightarrow> None)
              else None
          | _ \<Rightarrow> (case read_response (\<lambda>_. Some ()) () res of Inl e \<Rightarrow> Some e | Inr _ \<Rightarrow> None),
          w'))"

section \<open>invites.go\<close>

definition zero_create_invite_response :: create_invite_response where
  "zero_create_invite_response = \<lparr>co_status = [], co_token = [], co_inviteID = [], co_tenantID = [],
     co_name = [], co_expiresAtMs = None\<rparr>"

definition zero_invite :: invite where
  "zero_invite = \<lparr>iv_inviteID = [], iv_tenantID = [], iv_name = [], iv_hostnames = [], iv_region = [],
     iv_status = [], iv_expiresAtMs = None\<rparr>"

definition invite_path :: "string \<Rightarrow> string" where
  "invite_path inviteID = ''/v1/invites/'' @ path_escape inviteID"

definition CreateInvite ::
  "'w http \<Rightarrow> hub_client \<Rightarrow> create_invite_request \<Rightarrow> ('w, goerr + create_invite_response) op" where
  "CreateInvite http c req =
     client_do http c ''POST'' ''/v1/invites'' (Some (enc_create_invite_request req))
       dec_create_invite_response zero_create_invite_response"

definition ListInvites :: "'w http \<Rightarrow> hub_client \<Rightarrow> ('w, goerr + invite list) op" where
  "ListInvites http c =
     client_do http c ''GET'' ''/v1/invites'' None (dec_list dec_invite) []"

definition GetInvite :: "'w http \<Rightarrow> hub_client \<Rightarrow> string \<Rightarrow> ('w, goerr + invite) op" where
  "GetInvite http c inviteID =
     client_do http c ''GET'' (invite_path inviteID) None dec_invite zero_invite"

definition AddHostnames ::
  "'w http \<Rightarrow> hub_client \<Rightarrow> string \<Rightarrow> string list \<Rightarrow> ('w, goerr + add_hostnames_response) op" where
  "AddHostnames http c inviteID hostnames =
     client_do http c ''POST'' (invite_path inviteID @ ''/hostnames'')
       (Some (enc_add_hostnames_request hostnames))
       dec_add_hostnames_response \<lparr>ah_status = [], ah_hostnames = []\<rparr>"

definition RemoveHostname ::
  "'w http \<Rightarrow> hub_client \<Rightarrow> string \<Rightarrow> string \<Rightarrow> ('w, goerr + remove_hostname_response) op" where
  "RemoveHostname http c inviteID hostname =
     client_do http c ''DELETE'' (invite_path inviteID @ ''/hostnames/'' @ path_escape hostname)
       None dec_remove_hostname_response \<lparr>rh_status = [], rh_hostname = [], rh_remaining = []\<rparr>"

definition DeleteInvite :: "'w http \<Rightarrow> hub_client \<Rightarrow> string \<Rightarrow> ('w, goerr option) op" where
  "DeleteInvite http c inviteID = client_do_nil http c ''DELETE'' (invite_path inviteID)"

definition GetInviteStatus :: "'w http \<Rightarrow> hub_client \<Rightarrow> string \<Rightarrow> ('w, goerr + invite_status) op" where
  "GetInviteStatus http c inviteID =
     client_do http c ''GET'' (invite_path inviteID @ ''/status'') None
       dec_invite_status \<lparr>ivs_inviteID = [], ivs_tenantID = [], ivs_regions = []\<rparr>"

section \<open>ports.go\<close>

definition zero_reserve_port_response :: reserve_port_response where
  "zero_reserve_port_response = \<lparr>rr_status = [], rr_port = 0, rr_protocol = [], rr_claimedAtMs = 0,
     rr_ip = None, rr_label = None, rr_edge = None\<rparr>"

definition tenant_path :: "string \<Rightarrow> string" where
  "tenant_path tenantID = ''/v1/tenants/'' @ path_escape tenantID @ ''/ports''"

definition query_escape :: "string \<Rightarrow> string" where
  "query_escape s = concat (map (\<lambda>c.
     if is_lower c \<or> is_upper c \<or> is_digit c \<or> c \<in> set ''-_.~'' then [c]
     else if c = CHR '' '' then ''+''
     else [CHR ''%'', upper_hex_digit (of_char c div 16), upper_hex_digit (of_char c mod 16)]) s)"

definition AvailablePorts ::
  "'w http \<Rightarrow> hub_client \<Rightarrow> string \<Rightarrow> int \<Rightarrow> ('w, goerr + available_ports_response) op" where
  "AvailablePorts http c protocol count =
     client_do http c ''GET''
       (''/v1/ports/available?count='' @ query_escape (itoa count) @
        ''&protocol='' @ query_escape protocol) None
       dec_available_ports_response
       \<lparr>ap_protocol = [], ap_rangeStart = 0, ap_rangeEnd = 0, ap_ports = []\<rparr>"

definition ReservePort ::
  "'w http \<Rightarrow> hub_client \<Rightarrow> string \<Rightarrow> reserve_port_request \<Rightarrow> ('w, goerr + reserve_port_response) op"
  where
  "ReservePort http c tenantID req =
     client_do http c ''POST'' (tenant_path tenantID) (Some (enc_reserve_port_request req))
       dec_reserve_port_response zero_reserve_port_response"

definition ListPorts ::
  "'w http \<Rightarrow> hub_client \<Rightarrow> string \<Rightarrow> ('w, goerr + reserve_port_response list) op" where
  "ListPorts http c tenantID =
     client_do http c ''GET'' (tenant_path tenantID) None (dec_list dec_reserve_port_response) []"

definition ReleasePort ::
  "'w http \<Rightarrow> hub_client \<Rightarrow> string \<Rightarrow> string \<Rightarrow> int \<Rightarrow> ('w, goerr option) op" where
  "ReleasePort http c tenantID protocol port =
     client_do_nil http c ''DELETE''
       (tenant_path tenantID @ ''/'' @ path_escape protocol @ ''/'' @ itoa port)"

section \<open>Rate limits\<close>

text \<open>\<open>rateLimitRequeue\<close> (\<open>ratelimit.go\<close>): the delay to requeue after, if the hub asked for one.\<close>

definition rateLimitRequeue :: "goerr \<Rightarrow> int option" where
  "rateLimitRequeue err =
     (case errors_as_api err of
        Some (st, b, ra) \<Rightarrow> if st = 429 \<and> ra > 0 then Some ra else None
      | None \<Rightarrow> None)"


text \<open>The hint of a 429 response, in full seconds.\<close>

lemma is_digit_plain: "is_digit c \<Longrightarrow> plain_char c"
  by (auto simp: is_digit_def plain_char_def Let_def)

lemma positive_atoi_itoa:
  assumes "0 < n" and "n \<le> max_int64"
  shows "positive_atoi (trim_space (itoa n)) = Some n"
proof -
  have "list_all plain_char (itoa n)"
    using assms(1) nat_str_digits[of "nat n"] is_digit_plain by (auto simp: itoa_def list_all_iff)
  then show ?thesis using assms by (simp add: positive_atoi_def atoi_itoa min_int64_def)
qed

lemma parseRetryAfter_exact:
  assumes "0 < n" and "n \<le> 9223372036"
  shows "parseRetryAfter (itoa n) body = n * second"
proof -
  have "wrap64 (n * second) = n * second"
    using assms by (intro wrap64_id) (simp_all add: second_def min_int64_def max_int64_def)
  then show ?thesis
    using assms positive_atoi_itoa[of n] by (simp add: parseRetryAfter_def seconds_def max_int64_def)
qed

text \<open>A Retry-After header of n seconds gives a delay of exactly n seconds for every n up to
  9223372036, the largest number of seconds a \<open>Duration\<close> holds.\<close>

theorem parseRetryAfter_header:
  assumes "0 < n" and "n \<le> 9223372036"
  shows "parseRetryAfter (itoa n) body = n * second"
  using assms by (rule parseRetryAfter_exact)

theorem parseRetryAfter_header_witness: "parseRetryAfter (itoa 30) ''busy'' = 30 * second"
  by (rule parseRetryAfter_header) simp_all


end
