(* ===== verification/TunnelModel.thy ===== *)
theory TunnelModel
  imports HubClient "HOL-Library.Multiset"
begin

text \<open>
  \<open>TowonelTunnelReconciler\<close> (\<open>towoneltunnel_controller.go\<close>) as a record: the client operations
  it performs on the API server, the event recorder, the clock, the environment, the hub's
  transport, and its configuration. Reads that go through \<open>reader()\<close> (the uncached reader
  when it is set) have their own fields. A method is a function of this record, the tunnel it
  mutates and the world. With it, the condition and event helpers every step uses, and the
  sorted-set normalisation (\<open>dedupe\<close>) that all hostname and address lists go through.
\<close>

section \<open>The reconciler\<close>

record 'w tunnel_reconciler = k8s_lib +
  tr_get_tunnel :: "nn \<Rightarrow> ('w, goerr + towonel_tunnel) op"
  tr_update :: "towonel_tunnel \<Rightarrow> ('w, goerr option) op"
  tr_status_update :: "towonel_tunnel \<Rightarrow> ('w, goerr option) op"
  tr_get_secret :: "nn \<Rightarrow> ('w, goerr + secret_obj) op"
  tr_apply_secret :: "secret_obj \<Rightarrow> ('w, goerr option) op"
  tr_list_agents :: "('w, goerr + towonel_agent list) op"
  tr_list_dns :: "strmap \<Rightarrow> ('w, goerr + dns_endpoint list) op"
  tr_get_dns :: "nn \<Rightarrow> ('w, goerr + dns_endpoint) op"
  tr_apply_dns :: "dns_endpoint \<Rightarrow> ('w, goerr option) op"
  tr_delete_dns :: "nn \<Rightarrow> ('w, goerr option) op"
  tr_recorder :: "(event \<Rightarrow> 'w \<Rightarrow> 'w) option"
  tr_now :: "('w, int) op"
  tr_getenv :: "string \<Rightarrow> string"
  tr_range :: "'w \<Rightarrow> string list \<Rightarrow> string list"
  tr_http :: "'w http"
  tr_baseURL :: string
  tr_dnsEdgeTargets :: strmap

text \<open>The order in which \<open>range\<close> visits the keys of a map is up to the runtime.\<close>

definition range_ok :: "('w, 'b) tunnel_reconciler_scheme \<Rightarrow> bool" where
  "range_ok r \<longleftrightarrow> (\<forall>w ks. mset (tr_range r w ks) = mset ks)"

text \<open>A reconciler on an empty cluster, for the witnesses: every read finds nothing, every write
  succeeds and changes nothing, no hub is reachable.\<close>

definition idle_reconciler :: "'w tunnel_reconciler" where
  "idle_reconciler = \<lparr>set_status_condition = set_status_condition std_lib,
     remove_status_condition = remove_status_condition std_lib,
     find_status_condition = find_status_condition std_lib,
     add_finalizer = add_finalizer std_lib, contains_finalizer = contains_finalizer std_lib,
     remove_finalizer = remove_finalizer std_lib,
     set_controller_reference = set_controller_reference std_lib,
     tr_get_tunnel = (\<lambda>k w. (Inl (KubeError RNotFound ''not found''), w)),
     tr_update = (\<lambda>tt w. (None, w)), tr_status_update = (\<lambda>tt w. (None, w)),
     tr_get_secret = (\<lambda>k w. (Inl (KubeError RNotFound ''not found''), w)),
     tr_apply_secret = (\<lambda>s w. (None, w)), tr_list_agents = (\<lambda>w. (Inr [], w)),
     tr_list_dns = (\<lambda>m w. (Inr [], w)),
     tr_get_dns = (\<lambda>k w. (Inl (KubeError RNotFound ''not found''), w)),
     tr_apply_dns = (\<lambda>d w. (None, w)), tr_delete_dns = (\<lambda>k w. (None, w)),
     tr_recorder = None, tr_now = (\<lambda>w. (0, w)), tr_getenv = (\<lambda>k. []),
     tr_range = (\<lambda>w ks. ks), tr_http = (\<lambda>q w. (DoError (PlainError ''no hub''), w)),
     tr_baseURL = DefaultTowonelAPIURL, tr_dnsEdgeTargets = []\<rparr>"

lemma idle_reconciler_lib: "lib_ok idle_reconciler"
  using std_lib_ok by (simp add: lib_ok_def idle_reconciler_def)

lemma idle_reconciler_range: "range_ok idle_reconciler"
  by (simp add: range_ok_def idle_reconciler_def)

definition new_tunnel :: "string \<Rightarrow> string \<Rightarrow> towonel_tunnel" where
  "new_tunnel ns name = \<lparr>tt_meta = (new_meta ns name)\<lparr>m_finalizers := [FinalizerName]\<rparr>,
     tt_spec = zero_tunnel_spec, tt_status = zero_tunnel_status\<rparr>"

definition new_agent :: "string \<Rightarrow> string \<Rightarrow> towonel_agent" where
  "new_agent ns name = \<lparr>ta_meta = new_meta ns name, ta_spec = zero_agent_spec,
     ta_status = zero_agent_status\<rparr>"

section \<open>Conditions and events (\<open>setCond\<close>)\<close>

definition setCond ::
  "('a) k8s_lib_scheme \<Rightarrow> string \<Rightarrow> cond_status \<Rightarrow> string \<Rightarrow> string \<Rightarrow> towonel_tunnel \<Rightarrow> towonel_tunnel" where
  "setCond L condType status reason msg tt =
     tt\<lparr>tt_status := (tt_status tt)\<lparr>st_conditions :=
       set_status_condition L (st_conditions (tt_status tt))
         \<lparr>c_type = condType, c_status = status, c_reason = reason, c_message = msg,
          c_generation = m_generation (tt_meta tt)\<rparr>\<rparr>\<rparr>"

definition tunnel_cond :: "('a) k8s_lib_scheme \<Rightarrow> towonel_tunnel \<Rightarrow> string \<Rightarrow> condition option" where
  "tunnel_cond L tt t = find_status_condition L (st_conditions (tt_status tt)) t"

definition with_status :: "(tunnel_status \<Rightarrow> tunnel_status) \<Rightarrow> towonel_tunnel \<Rightarrow> towonel_tunnel" where
  "with_status f tt = tt\<lparr>tt_status := f (tt_status tt)\<rparr>"

definition tunnel_event ::
  "('w, 'b) tunnel_reconciler_scheme \<Rightarrow> towonel_tunnel \<Rightarrow> string \<Rightarrow> string \<Rightarrow> 'w \<Rightarrow> 'w" where
  "tunnel_event r tt reason msg w = (case tr_recorder r of
     None \<Rightarrow> w
   | Some rec \<Rightarrow> rec \<lparr>ev_object = key_of (tt_meta tt), ev_type = EvWarning, ev_reason = reason,
                      ev_message = msg\<rparr> w)"

lemma setCond_frame [frame_simps, simp]:
  "tt_meta (setCond L t s rs m tt) = tt_meta tt"
  "tt_spec (setCond L t s rs m tt) = tt_spec tt"
  "st_inviteID (tt_status (setCond L t s rs m tt)) = st_inviteID (tt_status tt)"
  "st_tenantID (tt_status (setCond L t s rs m tt)) = st_tenantID (tt_status tt)"
  "st_tokenSecretRef (tt_status (setCond L t s rs m tt)) = st_tokenSecretRef (tt_status tt)"
  "st_expiresAt (tt_status (setCond L t s rs m tt)) = st_expiresAt (tt_status tt)"
  "st_authorizedHostnames (tt_status (setCond L t s rs m tt)) = st_authorizedHostnames (tt_status tt)"
  "st_portAllocations (tt_status (setCond L t s rs m tt)) = st_portAllocations (tt_status tt)"
  "st_edges (tt_status (setCond L t s rs m tt)) = st_edges (tt_status tt)"
  "st_dnsRecords (tt_status (setCond L t s rs m tt)) = st_dnsRecords (tt_status tt)"
  "st_regionEndpoints (tt_status (setCond L t s rs m tt)) = st_regionEndpoints (tt_status tt)"
  "st_phase (tt_status (setCond L t s rs m tt)) = st_phase (tt_status tt)"
  by (simp_all add: setCond_def)

lemma with_status_frame [frame_simps, simp]:
  "tt_meta (with_status f tt) = tt_meta tt"
  "tt_spec (with_status f tt) = tt_spec tt"
  "tt_status (with_status f tt) = f (tt_status tt)"
  by (simp_all add: with_status_def)

lemma setCond_cond:
  "lib_ok L \<Longrightarrow> tunnel_cond L (setCond L t s rs m tt) t' =
     (if t' = t then Some \<lparr>c_type = t, c_status = s, c_reason = rs, c_message = m,
                           c_generation = m_generation (tt_meta tt)\<rparr>
      else tunnel_cond L tt t')"
  by (simp add: tunnel_cond_def setCond_def lib_simps)

section \<open>\<open>dedupe\<close>\<close>

text \<open>The loop keeps what it has seen in \<open>seen\<close> and appends to \<open>out\<close>.\<close>

fun dedupe_loop :: "string list \<Rightarrow> string list \<Rightarrow> string list \<Rightarrow> string list" where
  "dedupe_loop [] seen out = out"
| "dedupe_loop (s # ss) seen out =
     (if s \<noteq> [] \<and> \<not> List.member seen s then dedupe_loop ss (s # seen) (out @ [s])
      else dedupe_loop ss seen out)"

definition dedupe :: "string list \<Rightarrow> string list" where
  "dedupe xs = sort (dedupe_loop xs [] [])"

lemma dedupe_loop_props:
  "set out = set seen \<Longrightarrow> distinct out \<Longrightarrow> [] \<notin> set out \<Longrightarrow>
   set (dedupe_loop xs seen out) = set out \<union> (set xs - {[]}) \<and> distinct (dedupe_loop xs seen out)"
  by (induction xs arbitrary: seen out) auto

lemma set_dedupe [simp]: "set (dedupe xs) = set xs - {[]}"
  using dedupe_loop_props[of "[]" "[]" xs] by (simp add: dedupe_def)

lemma distinct_dedupe [simp]: "distinct (dedupe xs)"
  using dedupe_loop_props[of "[]" "[]" xs] by (simp add: dedupe_def)

lemma sorted_dedupe [simp]: "sorted (dedupe xs)"
  by (simp add: dedupe_def)

text \<open>So a \<open>dedupe\<close>d list is the canonical list of its set.\<close>

lemma dedupe_canonical: "dedupe xs = sorted_list_of_set (set xs - {[]})"
  by (metis distinct_dedupe set_dedupe sorted_dedupe sorted_list_of_set_sort_remdups
      distinct_remdups_id sorted_sort_id)

lemma dedupe_eq_iff: "dedupe xs = dedupe ys \<longleftrightarrow> set xs - {[]} = set ys - {[]}"
  by (metis dedupe_canonical set_dedupe)

lemma dedupe_idem [simp]: "dedupe (dedupe xs) = dedupe xs"
  by (simp add: dedupe_eq_iff)

lemma dedupe_Nil [simp]: "dedupe [] = []"
  by (simp add: dedupe_def)

section \<open>Sorting by a key without repetitions\<close>

lemma sort_key_perm:
  fixes f :: "'a \<Rightarrow> 'b::linorder"
  assumes "mset xs = mset ys" and "distinct (map f xs)"
  shows "sort_key f xs = sort_key f ys"
proof (rule properties_for_sort_key)
  show "mset (sort_key f ys) = mset xs" using assms(1) by simp
  show "sorted (map f (sort_key f ys))" by simp
  fix k
  have inj: "inj_on f (set xs)" using assms(2) by (simp add: distinct_map)
  have le: "length (filter (\<lambda>x. f k = f x) zs) \<le> 1" if "mset zs = mset xs" for zs
  proof -
    have "distinct (map f zs)" using assms(2) that
      by (metis mset_eq_imp_distinct_iff mset_map)
    then show ?thesis by (induction zs) (auto simp: filter_empty_conv)
  qed
  have m: "mset (filter (\<lambda>x. f k = f x) (sort_key f ys)) = mset (filter (\<lambda>x. f k = f x) xs)"
    by (simp add: assms(1) mset_filter)
  show "filter (\<lambda>x. f k = f x) (sort_key f ys) = filter (\<lambda>x. f k = f x) xs" if "k \<in> set (sort_key f ys)"
  proof -
    have l: "length zs \<le> 1 \<Longrightarrow> mset zs = mset us \<Longrightarrow> zs = us" for zs us :: "'a list"
      by (cases zs; cases us) (auto dest: mset_eq_length)
    show ?thesis using l[OF _ m] le[of "sort_key f ys"] assms(1) by simp
  qed
qed

end
