(* ===== verification/HubContract.thy ===== *)
theory HubContract
  imports HubClient
begin

text \<open>
  What the operator relies on of a hub, as locales over the client's operations. \<open>hosts w i\<close> is
  the set of host names invite \<open>i\<close> authorises in world \<open>w\<close> (\<open>None\<close> when the hub has no such
  invite), \<open>held w t\<close> the set of ports tenant \<open>t\<close> holds. \<open>FakeHubClient\<close> interprets both on the
  repository's hub.
\<close>

locale hostname_hub =
  fixes http :: "'w http" and c :: hub_client and ids :: "string set"
    and hosts :: "'w \<Rightarrow> string \<Rightarrow> string set option"
  assumes get_frame: "i \<in> ids \<Longrightarrow> GetInvite http c i w = (res, w') \<Longrightarrow> hosts w' = hosts w"
    and get_ok: "i \<in> ids \<Longrightarrow> GetInvite http c i w = (Inr iv, w') \<Longrightarrow>
      hosts w i = Some (set (iv_hostnames iv))"
    and add_ok: "i \<in> ids \<Longrightarrow> AddHostnames http c i hns w = (Inr a, w') \<Longrightarrow>
      hosts w' i = map_option (\<lambda>H. H \<union> set hns) (hosts w i)"
    and add_err: "i \<in> ids \<Longrightarrow> AddHostnames http c i hns w = (Inl e, w') \<Longrightarrow> hosts w' = hosts w"
    and remove_ok: "i \<in> ids \<Longrightarrow> RemoveHostname http c i h w = (Inr b, w') \<Longrightarrow>
      hosts w' i = map_option (\<lambda>H. H - {h}) (hosts w i)"
    and remove_err: "i \<in> ids \<Longrightarrow> RemoveHostname http c i h w = (Inl e, w') \<Longrightarrow> hosts w' = hosts w"

text \<open>Ports are \<open>int32\<close> values.\<close>

definition is_int32 :: "int \<Rightarrow> bool" where
  "is_int32 n \<longleftrightarrow> - 2147483648 \<le> n \<and> n \<le> 2147483647"

text \<open>A port is named by its protocol and number.\<close>

locale port_hub =
  fixes http :: "'w http" and c :: hub_client and tenants :: "string set"
    and protocols :: "string set"
    and held :: "'w \<Rightarrow> string \<Rightarrow> (string \<times> int) set"
  assumes list_frame: "t \<in> tenants \<Longrightarrow> ListPorts http c t w = (res, w') \<Longrightarrow> held w' = held w"
    and list_ok: "t \<in> tenants \<Longrightarrow> ListPorts http c t w = (Inr rs, w') \<Longrightarrow>
      (\<lambda>r. (rr_protocol r, rr_port r)) ` set rs = held w t"
    and reserve_ok: "t \<in> tenants \<Longrightarrow> ReservePort http c t req w = (Inr r, w') \<Longrightarrow>
      rr_protocol r = rp_protocol req \<and> held w' t = insert (rr_protocol r, rr_port r) (held w t)"
    and reserve_err: "t \<in> tenants \<Longrightarrow> ReservePort http c t req w = (Inl e, w') \<Longrightarrow> held w' t = held w t"
    and release_ok: "t \<in> tenants \<Longrightarrow> q \<in> protocols \<Longrightarrow> is_int32 n \<Longrightarrow> ReleasePort http c t q n w = (None, w') \<Longrightarrow>
      held w' t = held w t - {(q, n)}"
    and release_gone: "t \<in> tenants \<Longrightarrow> q \<in> protocols \<Longrightarrow> is_int32 n \<Longrightarrow> ReleasePort http c t q n w = (Some e, w') \<Longrightarrow>
      is_hub_status 404 e \<Longrightarrow> held w' t = held w t - {(q, n)}"
    and release_err: "t \<in> tenants \<Longrightarrow> q \<in> protocols \<Longrightarrow> is_int32 n \<Longrightarrow> ReleasePort http c t q n w = (Some e, w') \<Longrightarrow>
      held w' t = held w t"

end
