(* ===== verification/TunnelInvite.thy ===== *)
theory TunnelInvite
  imports TunnelModel HubContract
begin

text \<open>
  \<open>towoneltunnel_invite.go\<close>: the API key, the invite, and the convergence of the host names it
  authorises. The hub-side lemmas are proved once over the locale \<open>hostname_hub\<close>.
\<close>

section \<open>The API key\<close>

text \<open>\<open>Inl\<close> is a failed read; \<open>Inr None\<close> is the source's halt.\<close>

definition resolveAPIKey ::
  "('w, 'b) tunnel_reconciler_scheme \<Rightarrow> towonel_tunnel \<Rightarrow> ('w, goerr + string option) op" where
  "resolveAPIKey r tt w =
     (case ts_apiKeySecretRef (tt_spec tt) of
        Some ref \<Rightarrow>
          if skr_name ref \<noteq> [] then
            (let key = (m_ns (tt_meta tt), skr_name ref); (res, w') = tr_get_secret r key w
             in (case res of
                   Inl e \<Rightarrow>
                     if is_not_found e then (Inr None, w')
                     else (Inl (wrapf (''get api-key secret '' @ nn_str key @ '': '') e), w')
                 | Inr s \<Rightarrow>
                     let v = mget (sec_data s) (cmp_or (skr_key ref) defaultTokenKey)
                     in (Inr (if v \<noteq> [] then Some v else None), w')))
          else (Inr (if tr_getenv r ''TOWONEL_API_KEY'' \<noteq> [] then Some (tr_getenv r ''TOWONEL_API_KEY'')
                     else None), w)
      | None \<Rightarrow>
          (Inr (if tr_getenv r ''TOWONEL_API_KEY'' \<noteq> [] then Some (tr_getenv r ''TOWONEL_API_KEY'')
                else None), w))"

section \<open>The invite\<close>

definition inviteName :: "string \<Rightarrow> string \<Rightarrow> string" where
  "inviteName ns name = ns @ ''/'' @ name"

definition adopt :: "invite \<Rightarrow> towonel_tunnel \<Rightarrow> towonel_tunnel" where
  "adopt iv tt = with_status (\<lambda>st. st\<lparr>st_inviteID := iv_inviteID iv, st_tenantID := iv_tenantID iv,
     st_expiresAt := (case iv_expiresAtMs iv of None \<Rightarrow> st_expiresAt st | Some x \<Rightarrow> x),
     st_authorizedHostnames := dedupe (iv_hostnames iv)\<rparr>) tt"

definition invite_request :: "towonel_tunnel \<Rightarrow> string list \<Rightarrow> create_invite_request" where
  "invite_request tt desired = (let sp = tt_spec tt in
     \<lparr>cr_hostnames = dedupe desired,
      cr_name = Some (inviteName (m_ns (tt_meta tt)) (m_name (tt_meta tt))),
      cr_region = (if ts_region sp \<noteq> [] then Some (ts_region sp) else None),
      cr_failoverRegions = ts_failoverRegions sp,
      cr_expiresInSecs = (if ts_tokenExpiry sp \<noteq> 0 then Some (ts_tokenExpiry sp) else None),
      cr_ownerEmail = None\<rparr>)"

definition issue :: "create_invite_request \<Rightarrow> create_invite_response \<Rightarrow> towonel_tunnel \<Rightarrow> towonel_tunnel" where
  "issue req resp tt = with_status (\<lambda>st. st\<lparr>st_inviteID := co_inviteID resp,
     st_tenantID := co_tenantID resp,
     st_expiresAt := (case co_expiresAtMs resp of None \<Rightarrow> st_expiresAt st | Some x \<Rightarrow> x),
     st_authorizedHostnames := dedupe (cr_hostnames req)\<rparr>) tt"

definition ensureInvite ::
  "('w, 'b) tunnel_reconciler_scheme \<Rightarrow> hub_client \<Rightarrow> towonel_tunnel \<Rightarrow> string list
     \<Rightarrow> ('w, (goerr + string) \<times> towonel_tunnel) op" where
  "ensureInvite r tc tt desired w =
     (if st_inviteID (tt_status tt) \<noteq> [] then ((Inr [], tt), w)
      else
        let want = inviteName (m_ns (tt_meta tt)) (m_name (tt_meta tt));
            (listed, w1) = ListInvites (tr_http r) tc w;
            invites = (case listed of Inl _ \<Rightarrow> [] | Inr ivs \<Rightarrow> ivs)
        in (case find (\<lambda>iv. iv_name iv = want \<and> iv_inviteID iv \<noteq> []) invites of
              Some iv \<Rightarrow> ((Inr [], adopt iv tt), w1)
            | None \<Rightarrow>
                let req = invite_request tt desired;
                    (created, w2) = CreateInvite (tr_http r) tc req w1
                in (case created of
                      Inl e \<Rightarrow> ((Inl (wrapf ''create invite: '' e), tt), w2)
                    | Inr resp \<Rightarrow> ((Inr (co_token resp), issue req resp tt), w2))))"

section \<open>Desired host names\<close>

definition desiredHostnames :: "towonel_tunnel \<Rightarrow> towonel_agent list \<Rightarrow> string list" where
  "desiredHostnames tt agents = dedupe (ts_extraHostnames (tt_spec tt) @
     concat (map (\<lambda>a. map as_hostname (ag_services (ta_spec a))) agents))"

section \<open>Convergence\<close>

record inviteView =
  vw_confirmed :: "string list"
  vw_region :: string
  vw_revoked :: bool

definition hubDefaultRegion :: string where "hubDefaultRegion = ''EU''"
definition inviteStatusRevoked :: string where "inviteStatusRevoked = ''revoked''"

definition hubRegion :: "string \<Rightarrow> string" where
  "hubRegion s = (let t = to_upper (trim_space s) in if t \<noteq> [] then t else hubDefaultRegion)"

definition append_new :: "string list \<Rightarrow> string \<Rightarrow> string list" where
  "append_new xs h = (if List.member xs h then xs else xs @ [h])"

text \<open>A 409 whose body names a host name conflict: the host name is reserved by another invite.\<close>

definition is_hostname_conflict :: "goerr \<Rightarrow> bool" where
  "is_hostname_conflict e = (case errors_as_api e of
     Some (st, body, _) \<Rightarrow> st = 409 \<and> str_contains body ''hostname_conflict'' | None \<Rightarrow> False)"

definition conflict_event ::
  "('w, 'b) tunnel_reconciler_scheme \<Rightarrow> towonel_tunnel \<Rightarrow> string \<Rightarrow> 'w \<Rightarrow> 'w" where
  "conflict_event r tt h = tunnel_event r tt ReasonHostnameConflict
     (''hostname '' @ quote h @
      '' is already reserved by another invite; kept in status.authorizedHostnames but not DNS-confirmed'')"

text \<open>First loop: add what is missing on the hub. The accumulators are \<open>authorized\<close> and
  \<open>confirmed\<close>.\<close>

fun add_missing ::
  "('w, 'b) tunnel_reconciler_scheme \<Rightarrow> hub_client \<Rightarrow> towonel_tunnel \<Rightarrow> string list \<Rightarrow> string list
     \<Rightarrow> string list \<times> string list \<Rightarrow> ('w, goerr + string list \<times> string list) op" where
  "add_missing r tc tt hubSet [] acc w = (Inr acc, w)"
| "add_missing r tc tt hubSet (h # hs) (authorized, confirmed) w =
     (if List.member hubSet h then add_missing r tc tt hubSet hs (authorized, confirmed) w
      else
        (case AddHostnames (tr_http r) tc (st_inviteID (tt_status tt)) [h] w of
           (Inl e, w1) \<Rightarrow>
             if is_hostname_conflict e
             then add_missing r tc tt hubSet hs (append_new authorized h, confirmed)
                    (conflict_event r tt h w1)
             else (Inl (wrapf ''add hostnames: '' e), w1)
         | (Inr _, w1) \<Rightarrow>
             add_missing r tc tt hubSet hs (append_new authorized h, append_new confirmed h) w1))"

text \<open>Second loop: remove from the hub what is not desired.\<close>

fun remove_stale ::
  "('w, 'b) tunnel_reconciler_scheme \<Rightarrow> hub_client \<Rightarrow> towonel_tunnel \<Rightarrow> string list \<Rightarrow> string list
     \<Rightarrow> string list \<times> string list \<Rightarrow> ('w, goerr + string list \<times> string list) op" where
  "remove_stale r tc tt desired [] acc w = (Inr acc, w)"
| "remove_stale r tc tt desired (h # hs) (authorized, confirmed) w =
     (if List.member desired h then remove_stale r tc tt desired hs (authorized, confirmed) w
      else
        (case RemoveHostname (tr_http r) tc (st_inviteID (tt_status tt)) h w of
           (Inl e, w1) \<Rightarrow> (Inl (wrapf (''remove hostname '' @ quote h @ '': '') e), w1)
         | (Inr _, w1) \<Rightarrow>
             remove_stale r tc tt desired hs (removeAll h authorized, removeAll h confirmed) w1))"

definition get_invite_error :: "string \<Rightarrow> goerr \<Rightarrow> goerr" where
  "get_invite_error inviteID e =
     (if is_hub_status 404 e
      then Errorf (''get invite '' @ quote inviteID @ '': '' @ sentinel_text ErrInviteNotFound @ '': '' @
             err_text e) [Sentinel ErrInviteNotFound, e]
      else wrapf (''get invite '' @ quote inviteID @ '': '') e)"

definition set_authorized :: "string list \<Rightarrow> towonel_tunnel \<Rightarrow> towonel_tunnel" where
  "set_authorized hs = with_status (\<lambda>st. st\<lparr>st_authorizedHostnames := hs\<rparr>)"

definition convergeHostnames ::
  "('w, 'b) tunnel_reconciler_scheme \<Rightarrow> hub_client \<Rightarrow> towonel_tunnel \<Rightarrow> string list
     \<Rightarrow> ('w, (goerr + inviteView) \<times> towonel_tunnel) op" where
  "convergeHostnames r tc tt desired w =
     (case GetInvite (tr_http r) tc (st_inviteID (tt_status tt)) w of
        (Inl e, w1) \<Rightarrow> ((Inl (get_invite_error (st_inviteID (tt_status tt)) e), tt), w1)
      | (Inr iv, w1) \<Rightarrow>
          let hubSet = dedupe (iv_hostnames iv);
              view = \<lparr>vw_confirmed = [], vw_region = hubRegion (iv_region iv),
                      vw_revoked = (iv_status iv = inviteStatusRevoked)\<rparr>
          in if vw_revoked view then ((Inr view, set_authorized hubSet tt), w1)
             else
               (case add_missing r tc tt hubSet desired (hubSet, hubSet) w1 of
                  (Inl e, w2) \<Rightarrow> ((Inl e, tt), w2)
                | (Inr acc, w2) \<Rightarrow>
                    (case remove_stale r tc tt desired hubSet acc w2 of
                       (Inl e, w3) \<Rightarrow> ((Inl e, tt), w3)
                     | (Inr (authorized, confirmed), w3) \<Rightarrow>
                         ((Inr (view\<lparr>vw_confirmed := dedupe confirmed\<rparr>),
                           set_authorized (dedupe authorized) tt), w3))))"


section \<open>Lemmas\<close>

lemma convergeHostnames_frame:
  assumes "convergeHostnames r tc tt desired w = ((res, tt'), w')"
  shows "tt_meta tt' = tt_meta tt" "tt_spec tt' = tt_spec tt"
    "tt_status tt' = (tt_status tt)\<lparr>st_authorizedHostnames := st_authorizedHostnames (tt_status tt')\<rparr>"
  using assms
  by (auto simp: convergeHostnames_def set_authorized_def Let_def split: sum.splits prod.splits if_splits)

text \<open>The reconciler on a hub that keeps the contracts: it reaches this hub, and recording an
  event does not.\<close>

locale tunnel_hub = hostname_hub http c ids hosts + port_hub http c tenants protocols held
  for http :: "'w http" and c :: hub_client and ids :: "string set"
    and hosts :: "'w \<Rightarrow> string \<Rightarrow> string set option"
    and tenants :: "string set" and protocols :: "string set"
    and held :: "'w \<Rightarrow> string \<Rightarrow> (string \<times> int) set" +
  fixes r :: "('w, 'b) tunnel_reconciler_scheme"
  assumes wired: "tr_http r = http"
    and quiet_hosts: "hosts (tunnel_event r tt rs m w) = hosts w"
    and quiet_held: "held (tunnel_event r tt rs m w) = held w"

context tunnel_hub
begin

lemma add_missing_hosts:
  assumes "st_inviteID (tt_status tt) = i" and "i \<in> ids"
    and "add_missing r c tt hubSet hs (A, C) w = (Inr (A', C'), w')"
    and "hosts w i = Some H"
  shows "\<exists>K. hosts w' i = Some (H \<union> K) \<and> K \<subseteq> set hs - set hubSet \<and> set C' = set C \<union> K \<and>
    set A' = set A \<union> (set hs - set hubSet)"
  using assms(3,4)
proof (induction hs arbitrary: A C w H)
  case (Cons h hs)
  show ?case
  proof (cases "List.member hubSet h")
    case True
    then have "\<exists>K. hosts w' i = Some (H \<union> K) \<and> K \<subseteq> set hs - set hubSet \<and> set C' = set C \<union> K \<and>
        set A' = set A \<union> (set hs - set hubSet)"
      using Cons by simp
    then show ?thesis using True by auto
  next
    case False
    obtain res w1 where call: "AddHostnames http c i [h] w = (res, w1)" by (cases "AddHostnames http c i [h] w")
    show ?thesis
    proof (cases res)
      case (Inl e)
      with call have same: "hosts (conflict_event r tt h w1) i = Some H"
        using add_err[OF assms(2)] Cons.prems(2) by (simp add: conflict_event_def quiet_hosts)
      from Inl call False Cons.prems(1) assms(1) wired
      have "add_missing r c tt hubSet hs (append_new A h, C) (conflict_event r tt h w1) = (Inr (A', C'), w')"
        by (simp split: if_splits)
      from Cons.IH[OF this same] show ?thesis using False
        by (auto simp: append_new_def split: if_splits)
    next
      case (Inr a)
      with call have new: "hosts w1 i = Some (H \<union> {h})"
        using add_ok[OF assms(2)] Cons.prems(2) by simp
      from Inr call False Cons.prems(1) assms(1) wired
      have "add_missing r c tt hubSet hs (append_new A h, append_new C h) w1 = (Inr (A', C'), w')" by simp
      from Cons.IH[OF this new] obtain K where K: "hosts w' i = Some (H \<union> {h} \<union> K)"
        "K \<subseteq> set hs - set hubSet" "set C' = set (append_new C h) \<union> K"
        "set A' = set (append_new A h) \<union> (set hs - set hubSet)" by blast
      have "hosts w' i = Some (H \<union> insert h K)" using K(1) by simp
      moreover have "insert h K \<subseteq> set (h # hs) - set hubSet" using K(2) False by auto
      moreover have "set C' = set C \<union> insert h K" using K(3) by (auto simp: append_new_def)
      moreover have "set A' = set A \<union> (set (h # hs) - set hubSet)"
        using K(4) False by (auto simp: append_new_def)
      ultimately show ?thesis by blast
    qed
  qed
qed auto

lemma remove_stale_hosts:
  assumes "st_inviteID (tt_status tt) = i" and "i \<in> ids"
    and "remove_stale r c tt desired hs (A, C) w = (Inr (A', C'), w')"
    and "hosts w i = Some H"
  shows "hosts w' i = Some (H - (set hs - set desired)) \<and> set C' = set C - (set hs - set desired) \<and>
    set A' = set A - (set hs - set desired)"
  using assms(3,4)
proof (induction hs arbitrary: A C w H)
  case (Cons h hs)
  show ?case
  proof (cases "List.member desired h")
    case True
    then show ?thesis using Cons by auto
  next
    case False
    with Cons.prems(1) assms(1) wired obtain b w1 where call: "RemoveHostname http c i h w = (Inr b, w1)"
      and rest: "remove_stale r c tt desired hs (removeAll h A, removeAll h C) w1 = (Inr (A', C'), w')"
      by (auto split: prod.splits sum.splits)
    have "hosts w1 i = Some (H - {h})" using remove_ok[OF assms(2) call] Cons.prems(2) by simp
    from Cons.IH[OF rest this] show ?thesis using False by auto
  qed
qed auto

lemma convergeHostnames_hosts:
  assumes "st_inviteID (tt_status tt) \<in> ids"
    and "convergeHostnames r c tt desired w = ((Inr view, tt'), w')" and "\<not> vw_revoked view"
  shows "\<exists>H. hosts w' (st_inviteID (tt_status tt)) = Some H \<and> set (vw_confirmed view) = H - {[]} \<and>
    st_authorizedHostnames (tt_status tt') = dedupe desired"
proof -
  let ?i = "st_inviteID (tt_status tt)"
  obtain res w1 where get: "GetInvite http c ?i w = (res, w1)" by (cases "GetInvite http c ?i w")
  with wired assms(2) obtain iv where iv: "res = Inr iv"
    by (auto simp: convergeHostnames_def split: sum.splits)
  let ?H = "set (iv_hostnames iv)" and ?hub = "dedupe (iv_hostnames iv)"
  have start: "hosts w1 ?i = Some ?H"
    using get_ok[OF assms(1)] get_frame[OF assms(1)] get iv by metis
  from wired assms(2,3) get iv obtain A C w2 A' C' where
    add: "add_missing r c tt ?hub desired (?hub, ?hub) w1 = (Inr (A, C), w2)" and
    rem: "remove_stale r c tt desired ?hub (A, C) w2 = (Inr (A', C'), w')" and
    out: "vw_confirmed view = dedupe C'" "tt' = set_authorized (dedupe A') tt"
    by (auto simp: convergeHostnames_def Let_def split: sum.splits prod.splits if_splits)
  obtain K where K: "hosts w2 ?i = Some (?H \<union> K)" "K \<subseteq> set desired - set ?hub"
    "set C = set ?hub \<union> K" "set A = set ?hub \<union> (set desired - set ?hub)"
    using add_missing_hosts[OF refl assms(1) add start] by blast
  have fin: "hosts w' ?i = Some ((?H \<union> K) - (set ?hub - set desired))"
    "set C' = set C - (set ?hub - set desired)" "set A' = set A - (set ?hub - set desired)"
    using remove_stale_hosts[OF refl assms(1) rem K(1)] by auto
  have "set (vw_confirmed view) = ((?H \<union> K) - (set ?hub - set desired)) - {[]}"
    using out(1) fin(2) K(3) by auto
  moreover have "dedupe A' = dedupe desired"
    unfolding dedupe_eq_iff using fin(3) K(4) by auto
  ultimately show ?thesis using fin(1) out(2) by (simp add: set_authorized_def)
qed

end

end
