(* ===== verification/TunnelPorts.thy ===== *)
theory TunnelPorts
  imports TunnelInvite
begin

text \<open>
  \<open>towoneltunnel_ports.go\<close>: the tunnel-wide union of the agents' TCP and UDP services, and the
  convergence of the tenant's port reservations to it.
\<close>

section \<open>Desired ports\<close>

record desired_port =
  dpt_name :: string
  dpt_protocol :: string
  dpt_preferred :: int
  dpt_preferredBy :: string

definition allocKey :: "string \<Rightarrow> string \<Rightarrow> string" where
  "allocKey protocol name = protocol @ ''/'' @ name"

definition sort_agents :: "towonel_agent list \<Rightarrow> towonel_agent list" where
  "sort_agents = sort_key (\<lambda>a. nn_str (key_of (ta_meta a)))"

text \<open>\<open>byKey\<close> and \<open>order\<close> together are one association list in order of first appearance.\<close>

type_synonym port_acc = "(string \<times> desired_port) list \<times> string list"

definition add_port :: "string \<Rightarrow> agent_l4_service \<Rightarrow> string \<Rightarrow> port_acc \<Rightarrow> port_acc" where
  "add_port protocol e agentKey acc =
     (let (byKey, conflicts) = acc; key = allocKey protocol (l4_name e) in
      case map_of byKey key of
        None \<Rightarrow>
          (byKey @ [(key, \<lparr>dpt_name = l4_name e, dpt_protocol = protocol,
             dpt_preferred = l4_preferredPort e,
             dpt_preferredBy = (if l4_preferredPort e \<noteq> 0 then agentKey else [])\<rparr>)], conflicts)
      | Some cur \<Rightarrow>
          if l4_preferredPort e = 0 \<or> l4_preferredPort e = dpt_preferred cur then (byKey, conflicts)
          else if dpt_preferred cur = 0 then
            (AList.update key (cur\<lparr>dpt_preferred := l4_preferredPort e, dpt_preferredBy := agentKey\<rparr>)
               byKey, conflicts)
          else
            (byKey, conflicts @ [key @ '': '' @ itoa (dpt_preferred cur) @ '' ('' @ dpt_preferredBy cur @
               '', kept) vs '' @ itoa (l4_preferredPort e) @ '' ('' @ agentKey @ '')'']))"

definition add_agent :: "towonel_agent \<Rightarrow> port_acc \<Rightarrow> port_acc" where
  "add_agent ag acc = (let agentKey = nn_str (key_of (ta_meta ag)) in
     fold (\<lambda>e. add_port ''udp'' e agentKey) (ag_udp (ta_spec ag))
       (fold (\<lambda>e. add_port ''tcp'' e agentKey) (ag_tcp (ta_spec ag)) acc))"

definition desiredPorts :: "towonel_agent list \<Rightarrow> desired_port list \<times> string list" where
  "desiredPorts agents = (let (byKey, conflicts) = fold add_agent (sort_agents agents) ([], [])
     in (map snd byKey, conflicts))"

section \<open>Allocations\<close>

definition allocFromResponse :: "string \<Rightarrow> reserve_port_response \<Rightarrow> port_allocation" where
  "allocFromResponse name resp = \<lparr>al_name = name, al_protocol = rr_protocol resp,
     al_listenPort = rr_port resp,
     al_edge = (case rr_edge resp of None \<Rightarrow> zero_edge
                | Some e \<Rightarrow> \<lparr>er_nodeID = ei_nodeID e, er_addresses = ei_addresses e\<rparr>)\<rparr>"

definition edgesUnion :: "port_allocation list \<Rightarrow> string list" where
  "edgesUnion allocs = dedupe (concat (map (\<lambda>a. er_addresses (al_edge a)) allocs))"

definition al_key :: "port_allocation \<Rightarrow> string" where
  "al_key pa = allocKey (al_protocol pa) (al_name pa)"

definition dpt_key :: "desired_port \<Rightarrow> string" where
  "dpt_key d = allocKey (dpt_protocol d) (dpt_name d)"

definition observed_ports :: "towonel_tunnel \<Rightarrow> (string \<times> port_allocation) list" where
  "observed_ports tt =
     fold (\<lambda>pa m. AList.update (al_key pa) pa m) (st_portAllocations (tt_status tt)) []"

section \<open>Convergence\<close>

text \<open>The lazy list of reservations: \<open>None\<close> until it has been asked for.\<close>

definition listReservations ::
  "('w, 'b) tunnel_reconciler_scheme \<Rightarrow> hub_client \<Rightarrow> towonel_tunnel \<Rightarrow> reserve_port_response list option
     \<Rightarrow> ('w, reserve_port_response list) op" where
  "listReservations r tc tt cache w =
     (case cache of
        Some rs \<Rightarrow> (rs, w)
      | None \<Rightarrow> (case ListPorts (tr_http r) tc (st_tenantID (tt_status tt)) w of
            (Inl _, w') \<Rightarrow> ([], w')
          | (Inr rs, w') \<Rightarrow> (rs, w')))"

definition find_reservation :: "towonel_tunnel \<Rightarrow> desired_port \<Rightarrow> reserve_port_response list
     \<Rightarrow> reserve_port_response option" where
  "find_reservation tt d rs = find (\<lambda>res. rr_protocol res = dpt_protocol d \<and>
     rr_label res = Some (portLabel (m_ns (tt_meta tt)) (m_name (tt_meta tt)) (dpt_name d))) rs"

definition reserve_request :: "towonel_tunnel \<Rightarrow> desired_port \<Rightarrow> reserve_port_request" where
  "reserve_request tt d = \<lparr>rp_protocol = dpt_protocol d,
     rp_preferred = (if dpt_preferred d \<noteq> 0 then Some (dpt_preferred d) else None), rp_ip = None,
     rp_label = Some (portLabel (m_ns (tt_meta tt)) (m_name (tt_meta tt)) (dpt_name d))\<rparr>"

text \<open>First loop: keep, adopt or reserve. A failure does not stop it.\<close>

fun reserve_desired ::
  "('w, 'b) tunnel_reconciler_scheme \<Rightarrow> hub_client \<Rightarrow> towonel_tunnel \<Rightarrow> (string \<times> port_allocation) list
     \<Rightarrow> desired_port list \<Rightarrow> reserve_port_response list option \<Rightarrow> port_allocation list \<times> goerr list
     \<Rightarrow> ('w, port_allocation list \<times> goerr list) op" where
  "reserve_desired r tc tt observed [] cache acc w = (acc, w)"
| "reserve_desired r tc tt observed (d # ds) cache (allocs, errs) w =
     (case map_of observed (dpt_key d) of
        Some pa \<Rightarrow> reserve_desired r tc tt observed ds cache (allocs @ [pa], errs) w
      | None \<Rightarrow>
          let (rs, w1) = listReservations r tc tt cache w in
          (case find_reservation tt d rs of
             Some res \<Rightarrow>
               reserve_desired r tc tt observed ds (Some rs)
                 (allocs @ [allocFromResponse (dpt_name d) res], errs) w1
           | None \<Rightarrow>
               (case ReservePort (tr_http r) tc (st_tenantID (tt_status tt)) (reserve_request tt d) w1 of
                  (Inl e, w2) \<Rightarrow>
                    reserve_desired r tc tt observed ds (Some rs)
                      (allocs, errs @ [wrapf (''reserve '' @ dpt_key d @ '': '') e]) w2
                | (Inr resp, w2) \<Rightarrow>
                    reserve_desired r tc tt observed ds (Some rs)
                      (allocs @ [allocFromResponse (dpt_name d) resp], errs) w2)))"

text \<open>Second loop, over the keys of the observed map in iteration order: prune.\<close>

fun prune_ports ::
  "('w, 'b) tunnel_reconciler_scheme \<Rightarrow> hub_client \<Rightarrow> towonel_tunnel \<Rightarrow> (string \<times> port_allocation) list
     \<Rightarrow> string list \<Rightarrow> string list \<Rightarrow> port_allocation list \<times> goerr list
     \<Rightarrow> ('w, port_allocation list \<times> goerr list) op" where
  "prune_ports r tc tt observed desiredKeys [] acc w = (acc, w)"
| "prune_ports r tc tt observed desiredKeys (key # keys) (allocs, errs) w =
     (if List.member desiredKeys key
      then prune_ports r tc tt observed desiredKeys keys (allocs, errs) w
      else (case map_of observed key of
          None \<Rightarrow> prune_ports r tc tt observed desiredKeys keys (allocs, errs) w
        | Some pa \<Rightarrow>
            (case ReleasePort (tr_http r) tc (st_tenantID (tt_status tt)) (al_protocol pa)
                    (al_listenPort pa) w of
               (None, w1) \<Rightarrow> prune_ports r tc tt observed desiredKeys keys (allocs, errs) w1
             | (Some e, w1) \<Rightarrow>
                 if is_hub_status 404 e
                 then prune_ports r tc tt observed desiredKeys keys (allocs, errs) w1
                 else prune_ports r tc tt observed desiredKeys keys
                   (allocs @ [pa], errs @ [wrapf (''release '' @ key @ '': '') e]) w1)))"

definition publish_ports :: "port_allocation list \<Rightarrow> towonel_tunnel \<Rightarrow> towonel_tunnel" where
  "publish_ports allocs =
     with_status (\<lambda>st. st\<lparr>st_portAllocations := allocs, st_edges := edgesUnion allocs\<rparr>)"

definition convergePorts ::
  "('w, 'b) tunnel_reconciler_scheme \<Rightarrow> hub_client \<Rightarrow> towonel_tunnel \<Rightarrow> towonel_agent list
     \<Rightarrow> ('w, goerr option \<times> towonel_tunnel) op" where
  "convergePorts r tc tt agents w =
     (let (desired, conflicts) = desiredPorts agents;
          observed = observed_ports tt;
          (acc1, w1) = reserve_desired r tc tt observed desired None ([], []) w;
          ((allocs, errs), w2) = prune_ports r tc tt observed (map dpt_key desired)
             (tr_range r w1 (map fst observed)) acc1 w1;
          tt1 = publish_ports (sort_key al_key allocs) tt
      in (case errors_join errs of
            Some err \<Rightarrow>
              ((Some err, setCond r CondPortsReserved CFalse ReasonAPIError (err_text err) tt1), w2)
          | None \<Rightarrow>
              if conflicts \<noteq> [] then
                let msg = ''preferredPort conflicts (first agent in ns/name order wins): '' @
                      join ''; '' conflicts;
                    prev = tunnel_cond r tt1 CondPortsReserved;
                    w3 = (if (case prev of None \<Rightarrow> True | Some c \<Rightarrow> c_message c \<noteq> msg)
                          then tunnel_event r tt1 ReasonPortConflict msg w2 else w2)
                in ((None, setCond r CondPortsReserved CTrue ReasonPortConflict msg tt1), w3)
              else
                ((None, setCond r CondPortsReserved CTrue ReasonSynced ''port reservations converged'' tt1),
                 w2)))"


section \<open>The union of the agents' services\<close>

type_synonym l4_entry = "string \<times> agent_l4_service \<times> string"

text \<open>Every TCP and UDP entry with its protocol and its agent, in \<open>ns/name\<close> order.\<close>

definition l4_entries :: "towonel_agent list \<Rightarrow> l4_entry list" where
  "l4_entries agents = concat (map (\<lambda>a.
     map (\<lambda>e. (''tcp'', e, nn_str (key_of (ta_meta a)))) (ag_tcp (ta_spec a)) @
     map (\<lambda>e. (''udp'', e, nn_str (key_of (ta_meta a)))) (ag_udp (ta_spec a))) (sort_agents agents))"

definition entry_key :: "l4_entry \<Rightarrow> string" where
  "entry_key x = (case x of (p, e, a) \<Rightarrow> allocKey p (l4_name e))"

definition entry_pref :: "l4_entry \<Rightarrow> int" where
  "entry_pref x = (case x of (p, e, a) \<Rightarrow> l4_preferredPort e)"

text \<open>The first occurrence of each element, and the first non-zero preference for a key.\<close>

definition firsts :: "'a list \<Rightarrow> 'a list" where
  "firsts xs = rev (remdups (rev xs))"

definition first_pref :: "l4_entry list \<Rightarrow> string \<Rightarrow> int" where
  "first_pref ents k = (case find (\<lambda>x. entry_key x = k \<and> entry_pref x \<noteq> 0) ents of
     None \<Rightarrow> 0 | Some x \<Rightarrow> entry_pref x)"

lemma set_firsts [simp]: "set (firsts xs) = set xs"
  by (simp add: firsts_def)

lemma distinct_firsts [simp]: "distinct (firsts xs)"
  by (simp add: firsts_def)

lemma firsts_snoc [simp]: "firsts (xs @ [x]) = (if x \<in> set xs then firsts xs else firsts xs @ [x])"
  by (simp add: firsts_def)

lemma find_append: "find P (xs @ ys) = (case find P xs of None \<Rightarrow> find P ys | Some x \<Rightarrow> Some x)"
  by (induction xs) auto

lemma find_pref_nonzero:
  "find (\<lambda>x. Q x \<and> entry_pref x \<noteq> 0) xs = Some y \<Longrightarrow> entry_pref y \<noteq> 0"
  by (auto simp: find_Some_iff)

lemma first_pref_new: "k \<notin> entry_key ` set ents \<Longrightarrow> first_pref ents k = 0"
  by (induction ents) (auto simp: first_pref_def)

lemma first_pref_zero:
  assumes "first_pref ents k = 0" and "y \<in> set ents" and "entry_key y = k"
  shows "entry_pref y = 0"
proof (cases "find (\<lambda>x. entry_key x = k \<and> entry_pref x \<noteq> 0) ents")
  case None
  then show ?thesis using assms(2,3) by (induction ents) (auto split: if_splits)
next
  case (Some x)
  then show ?thesis using assms(1) by (auto simp: first_pref_def dest: find_pref_nonzero)
qed

lemma first_pref_snoc:
  "first_pref (ents @ [x]) k =
     (if entry_key x = k \<and> first_pref ents k = 0 then entry_pref x else first_pref ents k)"
  by (auto simp: first_pref_def find_append split: option.splits dest: find_pref_nonzero)

definition port_step :: "l4_entry \<Rightarrow> port_acc \<Rightarrow> port_acc" where
  "port_step x acc = (case x of (p, e, a) \<Rightarrow> add_port p e a acc)"

lemma port_step_triple: "port_step (p, e, a) = add_port p e a"
  by (simp add: fun_eq_iff port_step_def)

lemma desiredPorts_fold:
  "fold add_agent (sort_agents agents) acc = fold port_step (l4_entries agents) acc"
proof -
  have "fold add_agent as acc = fold port_step (concat (map (\<lambda>a.
     map (\<lambda>e. (''tcp'', e, nn_str (key_of (ta_meta a)))) (ag_tcp (ta_spec a)) @
     map (\<lambda>e. (''udp'', e, nn_str (key_of (ta_meta a)))) (ag_udp (ta_spec a))) as)) acc" for as
    by (induction as arbitrary: acc) (simp_all add: add_agent_def Let_def fold_map port_step_triple comp_def)
  then show ?thesis by (simp add: l4_entries_def)
qed

lemma map_update_present:
  "distinct (map fst xs) \<Longrightarrow> k \<in> fst ` set xs \<Longrightarrow>
   map (\<lambda>p. (fst p, f (snd p))) (AList.update k v xs) =
   map (\<lambda>p. (fst p, if fst p = k then f v else f (snd p))) xs"
proof (induction xs)
  case (Cons x xs)
  obtain a b where x: "x = (a, b)" by (cases x)
  show ?case
  proof (cases "a = k")
    case True
    then have "\<forall>p \<in> set xs. fst p \<noteq> k" using Cons.prems x by force
    then show ?thesis using True x by simp
  next
    case False
    then show ?thesis using Cons x by auto
  qed
qed simp

definition byKey_ok :: "l4_entry list \<Rightarrow> port_acc \<Rightarrow> bool" where
  "byKey_ok ents acc \<longleftrightarrow>
     map (\<lambda>p. (fst p, dpt_preferred (snd p))) (fst acc) =
       map (\<lambda>k. (k, first_pref ents k)) (firsts (map entry_key ents)) \<and>
     list_all (\<lambda>p. dpt_key (snd p) = fst p) (fst acc) \<and>
     length (snd acc) = length (filter (\<lambda>x. entry_pref x \<noteq> 0 \<and>
       entry_pref x \<noteq> first_pref ents (entry_key x)) ents)"

lemma byKey_step:
  assumes ok: "byKey_ok ents acc"
  shows "byKey_ok (ents @ [x]) (port_step x acc)"
proof -
  obtain p e a where x: "x = (p, e, a)" by (cases x)
  obtain m cs where acc: "acc = (m, cs)" by (cases acc)
  let ?k = "entry_key x" and ?K = "firsts (map entry_key ents)"
  have k: "?k = allocKey p (l4_name e)" and q: "entry_pref x = l4_preferredPort e"
    by (simp_all add: x entry_key_def entry_pref_def)
  have m: "map (\<lambda>p. (fst p, dpt_preferred (snd p))) m = map (\<lambda>k. (k, first_pref ents k)) ?K"
    and keys: "list_all (\<lambda>p. dpt_key (snd p) = fst p) m"
    and len: "length cs = length (filter (\<lambda>x. entry_pref x \<noteq> 0 \<and>
       entry_pref x \<noteq> first_pref ents (entry_key x)) ents)"
    using ok acc by (simp_all add: byKey_ok_def)
  have fstm: "map fst m = ?K"
    using arg_cong[OF m, of "map fst"] by (simp add: comp_def)
  then have dist: "distinct (map fst m)" and mem: "fst ` set m = entry_key ` set ents"
    by (simp, metis set_firsts set_map fstm)
  have same: "filter (\<lambda>y. entry_pref y \<noteq> 0 \<and> entry_pref y \<noteq> first_pref (ents @ [x]) (entry_key y)) ents =
      filter (\<lambda>y. entry_pref y \<noteq> 0 \<and> entry_pref y \<noteq> first_pref ents (entry_key y)) ents"
  proof (rule filter_cong[OF refl])
    fix y assume y: "y \<in> set ents"
    have "entry_pref y = 0 \<or> first_pref ents (entry_key y) \<noteq> 0"
      using first_pref_zero[OF _ y refl] by blast
    then show "(entry_pref y \<noteq> 0 \<and> entry_pref y \<noteq> first_pref (ents @ [x]) (entry_key y)) =
        (entry_pref y \<noteq> 0 \<and> entry_pref y \<noteq> first_pref ents (entry_key y))"
      by (auto simp: first_pref_snoc)
  qed
  show ?thesis
  proof (cases "map_of m ?k")
    case None
    then have new: "?k \<notin> entry_key ` set ents" using mem by (metis map_of_eq_None_iff)
    then have zero: "first_pref ents ?k = 0" by (rule first_pref_new)
    have old: "map (\<lambda>k. (k, first_pref (ents @ [x]) k)) ?K = map (\<lambda>k. (k, first_pref ents k)) ?K"
      using new by (auto simp: first_pref_snoc)
    show ?thesis
      using None new m keys len zero old same
      by (simp add: byKey_ok_def port_step_def add_port_def x acc Let_def k q[symmetric]
          k[symmetric, unfolded x] first_pref_snoc dpt_key_def)
  next
    case (Some cur)
    have "?k \<in> fst ` set m" using Some by (metis map_of_eq_None_iff option.distinct(1))
    then have old: "?k \<in> entry_key ` set ents" using mem by simp
    have "(?k, cur) \<in> set m" using Some by (rule map_of_SomeD)
    then have cur: "dpt_key cur = ?k" using keys by (auto simp: list_all_iff)
    have "map_of (map (\<lambda>p. (fst p, dpt_preferred (snd p))) m) ?k = Some (dpt_preferred cur)"
      using Some by (simp add: map_of_map[unfolded comp_def case_prod_beta])
    then have pref: "dpt_preferred cur = first_pref ents ?k"
      using old unfolding m by (simp add: map_of_map_restrict restrict_map_def)
    have fin: "firsts (map entry_key (ents @ [x])) = ?K" using old by simp
    show ?thesis
    proof (cases "entry_pref x \<noteq> 0 \<and> dpt_preferred cur = 0")
      case True
      have "map (\<lambda>p. (fst p, dpt_preferred (snd p)))
          (AList.update ?k (cur\<lparr>dpt_preferred := entry_pref x, dpt_preferredBy := a\<rparr>) m) =
          map (\<lambda>p. (fst p, if fst p = ?k then entry_pref x else dpt_preferred (snd p))) m"
        by (rule map_update_present[OF dist \<open>?k \<in> fst ` set m\<close>, THEN trans]) simp
      also have "\<dots> = map (\<lambda>z. (fst z, if fst z = ?k then entry_pref x else snd z))
          (map (\<lambda>p. (fst p, dpt_preferred (snd p))) m)" by (simp add: comp_def)
      also have "\<dots> = map (\<lambda>k. (k, first_pref (ents @ [x]) k)) ?K"
        unfolding m using True pref by (auto simp: first_pref_snoc)
      finally have new: "map (\<lambda>p. (fst p, dpt_preferred (snd p)))
          (AList.update ?k (cur\<lparr>dpt_preferred := entry_pref x, dpt_preferredBy := a\<rparr>) m) =
          map (\<lambda>k. (k, first_pref (ents @ [x]) k)) ?K" .
      have "list_all (\<lambda>p. dpt_key (snd p) = fst p) (AList.update ?k v m)" if "dpt_key v = ?k" for v
        using keys that by (induction m) auto
      moreover have "dpt_key (cur\<lparr>dpt_preferred := entry_pref x, dpt_preferredBy := a\<rparr>) = ?k"
        using cur by (simp add: dpt_key_def)
      ultimately show ?thesis
        using Some True new len same fin pref
        by (simp add: byKey_ok_def port_step_def add_port_def x acc Let_def k[symmetric, unfolded x]
            q[symmetric, unfolded x] first_pref_snoc)
    next
      case False
      have "map (\<lambda>k. (k, first_pref (ents @ [x]) k)) ?K = map (\<lambda>k. (k, first_pref ents k)) ?K"
        using False pref by (auto simp: first_pref_snoc)
      then show ?thesis
        using Some False m keys len same fin pref
        by (auto simp: byKey_ok_def port_step_def add_port_def x acc Let_def k[symmetric, unfolded x]
            q[symmetric, unfolded x] first_pref_snoc)
    qed
  qed
qed


lemma byKey_all: "byKey_ok ents (fold port_step ents ([], []))"
proof (induction ents rule: rev_induct)
  case Nil
  show ?case by (simp add: byKey_ok_def firsts_def)
next
  case (snoc x ents)
  then show ?case using byKey_step[OF snoc] by simp
qed

lemma desiredPorts_union:
  "map (\<lambda>d. (dpt_key d, dpt_preferred d)) (fst (desiredPorts agents)) =
     map (\<lambda>k. (k, first_pref (l4_entries agents) k)) (firsts (map entry_key (l4_entries agents))) \<and>
   length (snd (desiredPorts agents)) = length (filter (\<lambda>x. entry_pref x \<noteq> 0 \<and>
     entry_pref x \<noteq> first_pref (l4_entries agents) (entry_key x)) (l4_entries agents))"
proof -
  let ?ents = "l4_entries agents"
  obtain m cs where acc: "fold port_step ?ents ([], []) = (m, cs)" by (cases "fold port_step ?ents ([], [])")
  then have d: "desiredPorts agents = (map snd m, cs)"
    by (simp add: desiredPorts_def desiredPorts_fold)
  have ok: "byKey_ok ?ents (m, cs)" using byKey_all[of ?ents] acc by simp
  then have "map (\<lambda>p. (dpt_key (snd p), dpt_preferred (snd p))) m = map (\<lambda>p. (fst p, dpt_preferred (snd p))) m"
    by (intro map_cong[OF refl]) (auto simp: byKey_ok_def list_all_iff)
  also have "\<dots> = map (\<lambda>k. (k, first_pref ?ents k)) (firsts (map entry_key ?ents))"
    using ok by (simp add: byKey_ok_def)
  finally show ?thesis using ok by (simp add: d byKey_ok_def comp_def)
qed

lemma desired_keys:
  "map dpt_key (fst (desiredPorts agents)) = firsts (map entry_key (l4_entries agents))"
proof -
  have "map fst (map (\<lambda>d. (dpt_key d, dpt_preferred d)) (fst (desiredPorts agents))) =
      firsts (map entry_key (l4_entries agents))"
    using desiredPorts_union[of agents] by (simp add: comp_def)
  then show ?thesis by (simp add: comp_def)
qed

text \<open>\<open>desiredPorts\<close> yields one port per (protocol, name) over all agents, in order of first
  appearance, with the first non-zero preference in \<open>ns/name\<close> order, and reports one conflict for
  each entry whose non-zero preference lost.\<close>

theorem desiredPorts_spec:
  "map (\<lambda>d. (dpt_key d, dpt_preferred d)) (fst (desiredPorts agents)) =
     map (\<lambda>k. (k, first_pref (l4_entries agents) k)) (firsts (map entry_key (l4_entries agents))) \<and>
   length (snd (desiredPorts agents)) = length (filter (\<lambda>x. entry_pref x \<noteq> 0 \<and>
     entry_pref x \<noteq> first_pref (l4_entries agents) (entry_key x)) (l4_entries agents))"
  by (rule desiredPorts_union)


section \<open>Convergence against a hub\<close>

definition port_of :: "port_allocation \<Rightarrow> string \<times> int" where
  "port_of pa = (al_protocol pa, al_listenPort pa)"

lemma map_sort_key: "map f (sort_key f xs) = sort (map f xs)"
  by (rule properties_for_sort[symmetric]) simp_all

lemma observed_map_of:
  "map_of (fold (\<lambda>pa m. AList.update (al_key pa) pa m) pas m) k = Some pa \<Longrightarrow>
   (pa \<in> set pas \<and> al_key pa = k) \<or> map_of m k = Some pa"
proof (induction pas arbitrary: m)
  case (Cons a pas)
  from Cons.IH[of "AList.update (al_key a) a m"] Cons.prems
  show ?case by (auto simp: update_conv' split: if_splits)
qed simp

lemma observed_ports_Some:
  "map_of (observed_ports tt) k = Some pa \<Longrightarrow>
   pa \<in> set (st_portAllocations (tt_status tt)) \<and> al_key pa = k"
  using observed_map_of[of "st_portAllocations (tt_status tt)" "[]" k pa]
  by (auto simp: observed_ports_def)

lemma observed_distinct:
  assumes "distinct (map al_key pas)" and "pa \<in> set pas"
  shows "map_of (fold (\<lambda>pa m. AList.update (al_key pa) pa m) pas m) (al_key pa) = Some pa"
  using assms
proof (induction pas arbitrary: m)
  case (Cons p ps)
  have keep: "k \<notin> al_key ` set qs \<Longrightarrow>
      map_of (fold (\<lambda>pa m. AList.update (al_key pa) pa m) qs m) k = map_of m k" for qs m k
    by (induction qs arbitrary: m) (auto simp: update_conv')
  show ?case
  proof (cases "pa = p")
    case True
    then have "al_key p \<notin> al_key ` set ps" using Cons.prems(1) by auto
    then show ?thesis using True by (simp add: keep update_conv')
  next
    case False
    then show ?thesis using Cons by simp
  qed
qed simp

lemma reserve_desired_grows:
  "reserve_desired r tc tt observed ds cache (allocs, errs) w = ((allocs', errs'), w') \<Longrightarrow>
   set allocs \<subseteq> set allocs'"
proof (induction ds arbitrary: cache allocs errs w)
  case (Cons d ds)
  then show ?case
    by (fastforce simp: Let_def split: option.splits prod.splits sum.splits)
qed simp

context tunnel_hub
begin

lemma listReservations_held:
  assumes "st_tenantID (tt_status tt) = t" and "t \<in> tenants"
    and "listReservations r c tt cache w = (rs, w')"
    and "\<And>ys. cache = Some ys \<Longrightarrow> (\<lambda>x. (rr_protocol x, rr_port x)) ` set ys \<subseteq> held w t"
  shows "held w' = held w \<and> (\<lambda>x. (rr_protocol x, rr_port x)) ` set rs \<subseteq> held w t"
proof (cases cache)
  case (Some ys)
  then show ?thesis using assms by (auto simp: listReservations_def)
next
  case None
  obtain res w1 where call: "ListPorts http c t w = (res, w1)" by (cases "ListPorts http c t w")
  show ?thesis
  proof (cases res)
    case (Inl e)
    then show ?thesis using None assms(1,3) call wired list_frame[OF assms(2) call]
      by (simp add: listReservations_def)
  next
    case (Inr xs)
    then show ?thesis using None assms(1,3) call wired list_frame[OF assms(2) call]
        list_ok[OF assms(2), of w xs w1]
      by (simp add: listReservations_def)
  qed
qed

lemma reserve_desired_held:
  assumes t: "st_tenantID (tt_status tt) = t" "t \<in> tenants"
    and obs: "\<And>k pa. map_of observed k = Some pa \<Longrightarrow> al_key pa = k"
    and "reserve_desired r c tt observed ds cache (allocs, errs) w = ((allocs', errs'), w')"
    and "\<And>ys. cache = Some ys \<Longrightarrow> (\<lambda>x. (rr_protocol x, rr_port x)) ` set ys \<subseteq> held w t"
    and "\<And>k pa. map_of observed k = Some pa \<Longrightarrow> port_of pa \<in> held w t"
    and "port_of ` set allocs \<subseteq> held w t"
  shows "held w' t = held w t \<union> port_of ` set allocs' \<and>
    (\<exists>es. errs' = errs @ es \<and> (es = [] \<longrightarrow> map al_key allocs' = map al_key allocs @ map dpt_key ds))"
  using assms(4-7)
proof (induction ds arbitrary: cache allocs errs w)
  case Nil
  then show ?case by auto
next
  case (Cons d ds)
  show ?case
  proof (cases "map_of observed (dpt_key d)")
    case (Some pa)
    have run: "reserve_desired r c tt observed ds cache (allocs @ [pa], errs) w = ((allocs', errs'), w')"
      using Cons.prems(1) Some by simp
    have "port_of ` set (allocs @ [pa]) \<subseteq> held w t" using Cons.prems(3)[OF Some] Cons.prems(4) by auto
    from Cons.IH[OF run Cons.prems(2) Cons.prems(3) this] obs[OF Some] show ?thesis by auto
  next
    case None
    obtain rs w1 where list: "listReservations r c tt cache w = (rs, w1)"
      by (cases "listReservations r c tt cache w")
    have h1: "held w1 = held w" "(\<lambda>x. (rr_protocol x, rr_port x)) ` set rs \<subseteq> held w t"
      using listReservations_held[OF t list Cons.prems(2)] by auto
    show ?thesis
    proof (cases "find_reservation tt d rs")
      case (Some res)
      have run: "reserve_desired r c tt observed ds (Some rs)
          (allocs @ [allocFromResponse (dpt_name d) res], errs) w1 = ((allocs', errs'), w')"
        using Cons.prems(1) None list Some by simp
      have res: "res \<in> set rs" "rr_protocol res = dpt_protocol d"
        using Some find_in[of _ rs res] by (auto simp: find_reservation_def)
      then have "port_of (allocFromResponse (dpt_name d) res) \<in> held w t"
        using h1(2) by (auto simp: port_of_def allocFromResponse_def)
      then have "port_of ` set (allocs @ [allocFromResponse (dpt_name d) res]) \<subseteq> held w1 t"
        using Cons.prems(4) h1(1) by auto
      from Cons.IH[OF run _ _ this] h1 Cons.prems(3) res(2)
      show ?thesis by (auto simp: al_key_def dpt_key_def allocFromResponse_def)
    next
      case nores: None
      obtain q w2 where call: "ReservePort http c t (reserve_request tt d) w1 = (q, w2)"
        by (cases "ReservePort http c t (reserve_request tt d) w1")
      show ?thesis
      proof (cases q)
        case (Inl e)
        have run: "reserve_desired r c tt observed ds (Some rs)
            (allocs, errs @ [wrapf (''reserve '' @ dpt_key d @ '': '') e]) w2 = ((allocs', errs'), w')"
          using Cons.prems(1) None list nores call Inl t(1) wired by simp
        have "held w2 t = held w t" using reserve_err[OF t(2) call[unfolded Inl]] h1(1) by simp
        with Cons.IH[OF run] h1 Cons.prems(3,4) show ?thesis by auto
      next
        case (Inr resp)
        have run: "reserve_desired r c tt observed ds (Some rs)
            (allocs @ [allocFromResponse (dpt_name d) resp], errs) w2 = ((allocs', errs'), w')"
          using Cons.prems(1) None list nores call Inr t(1) wired by simp
        have ok: "rr_protocol resp = dpt_protocol d"
          "held w2 t = insert (rr_protocol resp, rr_port resp) (held w t)"
          using reserve_ok[OF t(2) call[unfolded Inr]] h1(1) by (simp_all add: reserve_request_def)
        have p: "port_of (allocFromResponse (dpt_name d) resp) = (rr_protocol resp, rr_port resp)"
          by (simp add: port_of_def allocFromResponse_def)
        let ?pa = "allocFromResponse (dpt_name d) resp"
        have a: "\<And>ys. Some rs = Some ys \<Longrightarrow> (\<lambda>x. (rr_protocol x, rr_port x)) ` set ys \<subseteq> held w2 t"
          using h1(2) ok(2) by auto
        have b: "\<And>k pa. map_of observed k = Some pa \<Longrightarrow> port_of pa \<in> held w2 t"
          using Cons.prems(3) ok(2) by auto
        have c: "port_of ` set (allocs @ [?pa]) \<subseteq> held w2 t" using Cons.prems(4) ok p by auto
        have k: "al_key ?pa = dpt_key d" using ok(1) by (simp add: al_key_def dpt_key_def allocFromResponse_def)
        have "?pa \<in> set allocs'" using reserve_desired_grows[OF run] by auto
        then have "(rr_protocol resp, rr_port resp) \<in> port_of ` set allocs'" using p by (metis image_eqI)
        then show ?thesis using Cons.IH[OF run a b c] ok(2) k by auto
      qed
    qed
  qed
qed

lemma prune_held:
  assumes t: "st_tenantID (tt_status tt) = t" "t \<in> tenants"
    and ok: "\<And>k pa. map_of observed k = Some pa \<Longrightarrow> al_protocol pa \<in> protocols \<and> is_int32 (al_listenPort pa)"
    and "prune_ports r c tt observed dk ks (allocs, errs) w = ((allocs', errs'), w')"
  shows "\<exists>es. errs' = errs @ es \<and> (es = [] \<longrightarrow> allocs' = allocs \<and>
    held w' t = held w t - {port_of pa | k pa. k \<in> set ks - set dk \<and> map_of observed k = Some pa})"
  using assms(4)
proof (induction ks arbitrary: allocs errs w)
  case (Cons k ks)
  show ?case
  proof (cases "List.member dk k \<or> map_of observed k = None")
    case True
    then have "prune_ports r c tt observed dk ks (allocs, errs) w = ((allocs', errs'), w')"
      using Cons.prems by (auto split: if_splits)
    from Cons.IH[OF this] True show ?thesis by fastforce
  next
    case False
    then obtain pa where pa: "map_of observed k = Some pa" and new: "k \<notin> set dk" by auto
    have p: "al_protocol pa \<in> protocols" "is_int32 (al_listenPort pa)" using ok[OF pa] by auto
    obtain q w1 where call: "ReleasePort http c t (al_protocol pa) (al_listenPort pa) w = (q, w1)"
      by (cases "ReleasePort http c t (al_protocol pa) (al_listenPort pa) w")
    show ?thesis
    proof (cases "q = None \<or> (\<exists>e. q = Some e \<and> is_hub_status 404 e)")
      case True
      then have run: "prune_ports r c tt observed dk ks (allocs, errs) w1 = ((allocs', errs'), w')"
        using Cons.prems pa new call t(1) wired by auto
      have rel: "held w1 t = held w t - {port_of pa}"
        using True release_ok[OF t(2) p] release_gone[OF t(2) p] call by (auto simp: port_of_def)
      from Cons.IH[OF run] obtain es where es: "errs' = errs @ es" "es = [] \<longrightarrow> allocs' = allocs \<and>
        held w' t = held w1 t - {port_of pa | k pa. k \<in> set ks - set dk \<and> map_of observed k = Some pa}" by blast
      have "{port_of pa | k' pa. k' \<in> set (k # ks) - set dk \<and> map_of observed k' = Some pa} =
          insert (port_of pa) {port_of pa | k pa. k \<in> set ks - set dk \<and> map_of observed k = Some pa}"
        using pa new by auto
      then show ?thesis using es rel by auto
    next
      case False
      then obtain e where e: "q = Some e" "\<not> is_hub_status 404 e" by auto
      then have "prune_ports r c tt observed dk ks
          (allocs @ [pa], errs @ [wrapf (''release '' @ k @ '': '') e]) w1 = ((allocs', errs'), w')"
        using Cons.prems pa new call t(1) wired by auto
      from Cons.IH[OF this] show ?thesis by auto
    qed
  qed
qed auto

lemma convergePorts_held:
  assumes t: "st_tenantID (tt_status tt) = t" "t \<in> tenants" and "range_ok r"
    and dist: "distinct (map al_key (st_portAllocations (tt_status tt)))"
    and typed: "\<And>pa. pa \<in> set (st_portAllocations (tt_status tt)) \<Longrightarrow>
      al_protocol pa \<in> protocols \<and> is_int32 (al_listenPort pa) \<and> port_of pa \<in> held w t"
    and run: "convergePorts r c tt agents w = ((None, tt'), w')"
  shows "map al_key (st_portAllocations (tt_status tt')) = sort (firsts (map entry_key (l4_entries agents))) \<and>
    held w' t = (held w t \<union> port_of ` set (st_portAllocations (tt_status tt'))) -
      port_of ` {pa \<in> set (st_portAllocations (tt_status tt)). al_key pa \<notin> entry_key ` set (l4_entries agents)}"
proof -
  let ?obs = "observed_ports tt" and ?ds = "fst (desiredPorts agents)"
  let ?keys = "map dpt_key ?ds"
  obtain a1 e1 w1 where one: "reserve_desired r c tt ?obs ?ds None ([], []) w = ((a1, e1), w1)"
    by (metis prod.exhaust)
  obtain a2 e2 w2 where two: "prune_ports r c tt ?obs ?keys (tr_range r w1 (map fst ?obs)) (a1, e1) w1 = ((a2, e2), w2)"
    by (metis prod.exhaust)
  let ?tt1 = "publish_ports (sort_key al_key a2) tt"
  have e2: "e2 = []" and tt': "st_portAllocations (tt_status tt') = sort_key al_key a2"
    and w': "held w' = held w2"
    using run one two
    by (auto simp: convergePorts_def Let_def errors_join_def publish_ports_def quiet_held
        split: prod.splits if_splits)
  have obs: "\<And>k pa. map_of ?obs k = Some pa \<Longrightarrow> al_key pa = k"
    using observed_ports_Some by blast
  have held0: "\<And>k pa. map_of ?obs k = Some pa \<Longrightarrow> port_of pa \<in> held w t"
    using observed_ports_Some typed by blast
  have typd: "\<And>k pa. map_of ?obs k = Some pa \<Longrightarrow> al_protocol pa \<in> protocols \<and> is_int32 (al_listenPort pa)"
    using observed_ports_Some typed by blast
  from prune_held[OF t typd two] e2 have e1: "e1 = []" and a2: "a2 = a1"
    and rel: "held w2 t = held w1 t - {port_of pa | k pa. k \<in> set (tr_range r w1 (map fst ?obs)) - set ?keys \<and>
      map_of ?obs k = Some pa}" by auto
  from reserve_desired_held[OF t obs one _ held0] e1
  have res: "held w1 t = held w t \<union> port_of ` set a1" and keys: "map al_key a1 = ?keys" by auto
  have "set (tr_range r w1 (map fst ?obs)) = fst ` set ?obs"
    using \<open>range_ok r\<close> by (metis range_ok_def set_mset_mset set_map)
  then have rng: "map_of ?obs k = Some pa \<Longrightarrow> k \<in> set (tr_range r w1 (map fst ?obs))" for k pa
    by (metis map_of_SomeD fst_conv image_eqI)
  have there: "map_of ?obs (al_key pa) = Some pa" if "pa \<in> set (st_portAllocations (tt_status tt))" for pa
    using observed_distinct[OF dist that, of "[]"] by (simp add: observed_ports_def)
  have "{pa. \<exists>k. k \<in> set (tr_range r w1 (map fst ?obs)) - set ?keys \<and> map_of ?obs k = Some pa} =
      {pa \<in> set (st_portAllocations (tt_status tt)). al_key pa \<notin> set ?keys}" (is "?L = ?R")
  proof
    show "?L \<subseteq> ?R" using observed_ports_Some by blast
    show "?R \<subseteq> ?L" using there rng by blast
  qed
  then have stale: "{port_of pa | k pa. k \<in> set (tr_range r w1 (map fst ?obs)) - set ?keys \<and> map_of ?obs k = Some pa} =
      port_of ` {pa \<in> set (st_portAllocations (tt_status tt)). al_key pa \<notin> set ?keys}"
    by blast
  show ?thesis
    using tt' w' rel res keys a2 stale by (simp add: map_sort_key desired_keys)
qed

end


section \<open>Stability\<close>

lemma reserve_desired_keeps:
  "reserve_desired r tc tt observed ds cache (allocs, errs) w = ((allocs', errs'), w') \<Longrightarrow>
   d \<in> set ds \<Longrightarrow> map_of observed (dpt_key d) = Some pa \<Longrightarrow> pa \<in> set allocs'"
proof (induction ds arbitrary: cache allocs errs w)
  case (Cons e ds)
  show ?case
  proof (cases "d = e")
    case True
    then have "reserve_desired r tc tt observed ds cache (allocs @ [pa], errs) w = ((allocs', errs'), w')"
      using Cons.prems by simp
    then show ?thesis using reserve_desired_grows by fastforce
  next
    case False
    then have "d \<in> set ds" using Cons.prems by simp
    then show ?thesis using Cons.prems(1,3) Cons.IH
      by (auto simp: Let_def split: option.splits prod.splits sum.splits)
  qed
qed simp

lemma prune_grows:
  "prune_ports r tc tt observed dk ks (allocs, errs) w = ((allocs', errs'), w') \<Longrightarrow>
   set allocs \<subseteq> set allocs'"
proof (induction ks arbitrary: allocs errs w)
  case (Cons k ks)
  then show ?case by (fastforce split: option.splits prod.splits if_splits)
qed simp

text \<open>Whatever the hub answers, \<open>convergePorts\<close> keeps every recorded allocation whose
  (protocol, name) is still desired exactly as it was (a changed preference never moves a public
  port), publishes the edges of what it keeps, and reports the failure it returns.\<close>

theorem convergePorts_stable:
  assumes "lib_ok r" and "distinct (map al_key (st_portAllocations (tt_status tt)))"
    and "pa \<in> set (st_portAllocations (tt_status tt))"
    and "al_key pa \<in> entry_key ` set (l4_entries agents)"
    and "convergePorts r tc tt agents w = ((res, tt'), w')"
  shows "pa \<in> set (st_portAllocations (tt_status tt')) \<and>
    st_edges (tt_status tt') = edgesUnion (st_portAllocations (tt_status tt')) \<and>
    map_option c_status (tunnel_cond r tt' CondPortsReserved) =
      Some (if res = None then CTrue else CFalse)"
proof -
  let ?obs = "observed_ports tt" and ?ds = "fst (desiredPorts agents)"
  obtain a1 e1 w1 where one: "reserve_desired r tc tt ?obs ?ds None ([], []) w = ((a1, e1), w1)"
    by (metis prod.exhaust)
  obtain a2 e2 w2 where two: "prune_ports r tc tt ?obs (map dpt_key ?ds)
      (tr_range r w1 (map fst ?obs)) (a1, e1) w1 = ((a2, e2), w2)"
    by (metis prod.exhaust)
  have "al_key pa \<in> set (map dpt_key ?ds)" using assms(4) by (simp add: desired_keys)
  then obtain d where d: "d \<in> set ?ds" "dpt_key d = al_key pa" by auto
  have "map_of ?obs (dpt_key d) = Some pa"
    using observed_distinct[OF assms(2,3), of "[]"] d(2) by (simp add: observed_ports_def)
  then have "pa \<in> set a2"
    using reserve_desired_keeps[OF one d(1)] prune_grows[OF two] by blast
  then show ?thesis
    using assms(1,5) one two
    by (auto simp: convergePorts_def Let_def publish_ports_def setCond_cond
        split: prod.splits if_splits option.splits)
qed


definition ssh_agents :: "towonel_agent list" where
  "ssh_agents = [(new_agent ''ns'' ''a'')\<lparr>ta_spec := zero_agent_spec\<lparr>
     ag_tcp := [\<lparr>l4_name = ''ssh'', l4_origin = ''s:22'', l4_preferredPort = 22, l4_hostname = []\<rparr>]\<rparr>\<rparr>]"

definition ssh_port :: port_allocation where
  "ssh_port = \<lparr>al_name = ''ssh'', al_protocol = ''tcp'', al_listenPort = 31, al_edge = zero_edge\<rparr>"

definition ssh_tunnel :: towonel_tunnel where
  "ssh_tunnel = with_status (\<lambda>st. st\<lparr>st_portAllocations := [ssh_port]\<rparr>) (new_tunnel ''ns'' ''t'')"

theorem convergePorts_stable_witness:
  "\<exists>res tt' w'. convergePorts idle_reconciler (NewClient ''http://hub'' ''k'') ssh_tunnel ssh_agents () =
     ((res, tt'), w') \<and> ssh_port \<in> set (st_portAllocations (tt_status tt'))"
proof -
  obtain res tt' w' where run: "convergePorts idle_reconciler (NewClient ''http://hub'' ''k'') ssh_tunnel
      ssh_agents () = ((res, tt'), w')" by (metis prod.exhaust)
  have a: "st_portAllocations (tt_status ssh_tunnel) = [ssh_port]" by (simp add: ssh_tunnel_def)
  have "l4_entries ssh_agents = [(''tcp'', \<lparr>l4_name = ''ssh'', l4_origin = ''s:22'',
      l4_preferredPort = 22, l4_hostname = []\<rparr>, ''ns/a'')]"
    by (simp add: l4_entries_def ssh_agents_def sort_agents_def new_agent_def zero_defs nn_str_def key_of_def)
  then have k: "al_key ssh_port \<in> entry_key ` set (l4_entries ssh_agents)"
    by (simp add: entry_key_def al_key_def ssh_port_def)
  show ?thesis
    using convergePorts_stable[OF idle_reconciler_lib _ _ k run] run a by auto
qed


section \<open>Nothing left to do\<close>

lemma prune_ports_none:
  "set ks \<subseteq> set dk \<Longrightarrow> prune_ports r tc tt observed dk ks acc w = (acc, w)"
  by (induction ks arbitrary: acc) auto

lemma reserve_desired_recorded:
  assumes "\<And>d. d \<in> set ds \<Longrightarrow> map_of observed (dpt_key d) = Some (pick (dpt_key d))"
  shows "reserve_desired r tc tt observed ds cache (allocs, errs) w = ((allocs @ map (pick \<circ> dpt_key) ds, errs), w)"
  using assms by (induction ds arbitrary: allocs) auto

text \<open>When the recorded allocations are those the agents ask for, in the order they are published
  in, \<open>convergePorts\<close> keeps them as they are and makes no request, whatever hub is behind it.\<close>

lemma convergePorts_quiet:
  assumes keys: "map al_key (st_portAllocations (tt_status tt)) = sort (firsts (map entry_key (l4_entries agents)))"
    and "range_ok r" and ev: "\<And>tt rs m v. obs (tunnel_event r tt rs m v) = obs v"
    and run: "convergePorts r c tt agents w = ((res, tt'), w')"
  shows "res = None \<and> st_portAllocations (tt_status tt') = st_portAllocations (tt_status tt) \<and>
    obs w' = obs w"
proof -
  let ?as = "st_portAllocations (tt_status tt)" and ?obs = "observed_ports tt" and ?ds = "fst (desiredPorts agents)"
  let ?pick = "\<lambda>k. the (map_of ?obs k)"
  have dist: "distinct (map al_key ?as)" unfolding keys by simp
  have mem: "al_key ` set ?as = set (map dpt_key ?ds)"
    unfolding desired_keys using arg_cong[OF keys, of set] by simp
  have rec: "map_of ?obs (al_key pa) = Some pa" if "pa \<in> set ?as" for pa
    using observed_distinct[OF dist that, of "[]"] by (simp add: observed_ports_def)
  have "map_of ?obs (dpt_key d) = Some (?pick (dpt_key d))" if "d \<in> set ?ds" for d
  proof -
    have "dpt_key d \<in> al_key ` set ?as" unfolding mem using that by simp
    then obtain pa where "pa \<in> set ?as" "dpt_key d = al_key pa" by blast
    then show ?thesis using rec by simp
  qed
  from reserve_desired_recorded[OF this, of ?ds r c tt None "[]" "[]" w]
  have one: "reserve_desired r c tt ?obs ?ds None ([], []) w = ((map ?pick (map dpt_key ?ds), []), w)" by simp
  have "set (map fst ?obs) \<subseteq> set (map dpt_key ?ds)"
  proof
    fix k assume "k \<in> set (map fst ?obs)"
    then obtain pa where "map_of ?obs k = Some pa" by (metis list.set_map map_of_eq_None_iff not_Some_eq)
    then show "k \<in> set (map dpt_key ?ds)" using observed_ports_Some mem by (metis image_eqI)
  qed
  then have "set (tr_range r w (map fst ?obs)) \<subseteq> set (map dpt_key ?ds)"
    using \<open>range_ok r\<close> by (metis range_ok_def set_mset_mset)
  from prune_ports_none[OF this]
  have two: "prune_ports r c tt ?obs (map dpt_key ?ds) (tr_range r w (map fst ?obs)) acc w = (acc, w)" for acc .
  have "sort_key al_key (map ?pick (map dpt_key ?ds)) = ?as"
  proof -
    have pick: "map ?pick (map al_key ?as) = ?as" using rec by (simp add: map_idI)
    have "mset (map dpt_key ?ds) = mset (map al_key ?as)" unfolding desired_keys keys by simp
    then have "mset (map ?pick (map dpt_key ?ds)) = mset ?as" using pick by (metis mset_map)
    from sort_key_perm[OF this[symmetric] dist] show ?thesis
      by (simp add: sort_key_id_if_sorted keys)
  qed
  note sorted = this
  obtain ds cs where d: "desiredPorts agents = (ds, cs)" by (metis prod.exhaust)
  note steps = one[unfolded d, simplified] two[unfolded d fst_conv] sorted[unfolded d fst_conv]
  have joined: "errors_join [] = None" by (simp add: errors_join_def)
  have out: "res = None" "st_portAllocations (tt_status tt') = st_portAllocations (tt_status (publish_ports ?as tt))"
      "obs w' = obs w"
    using run steps
    by (auto simp: convergePorts_def d Let_def joined ev simp del: append.simps split: if_split_asm)
  then show ?thesis by (simp add: publish_ports_def)
qed

end
