(* ===== verification/TunnelDns.thy ===== *)
theory TunnelDns
  imports TunnelInvite
begin

text \<open>
  \<open>towoneltunnel_dns.go\<close>, \<open>towoneltunnel_regions.go\<close> and \<open>dns_edge_targets.go\<close>: the tunnel's
  external-dns handoff, the region endpoints of its status, and the resolution of the manager's
  edge-target flags.
\<close>

section \<open>Edge targets (\<open>dns_edge_targets.go\<close>)\<close>

definition publicHubEdgeTargets :: strmap where
  "publicHubEdgeTargets = [(''CA'', ''edge-na.towonel.dev''), (''EU'', ''edge-eu.towonel.dev'')]"

text \<open>\<open>edgeFQDNPattern\<close>: two or more labels of 1 to 63 characters, separated by dots.\<close>

definition edge_char :: "char \<Rightarrow> bool" where
  "edge_char c \<longleftrightarrow> is_lower c \<or> is_digit c"

definition edge_label :: "string \<Rightarrow> bool" where
  "edge_label s \<longleftrightarrow> s \<noteq> [] \<and> length s \<le> 63 \<and> edge_char (hd s) \<and> edge_char (last s) \<and>
     list_all (\<lambda>c. edge_char c \<or> c = CHR ''-'') s"

definition edge_fqdn :: "string \<Rightarrow> bool" where
  "edge_fqdn s \<longleftrightarrow> (let ls = split_on CHR ''.'' s in length ls \<ge> 2 \<and> list_all edge_label ls)"

definition edge_error :: "string \<Rightarrow> string \<Rightarrow> goerr" where
  "edge_error entry msg = PlainError (''dns edge target '' @ quote entry @ '': '' @ msg)"

fun resolve_entries :: "string list \<Rightarrow> strmap \<Rightarrow> goerr + strmap" where
  "resolve_entries [] out = Inr out"
| "resolve_entries (entry # es) out =
     (case cut entry ''='' of
        None \<Rightarrow> Inl (edge_error entry ''want REGION=FQDN'')
      | Some (rgn, fq) \<Rightarrow>
          let region = to_upper (trim_space rgn); fqdn = trim_suffix fq ''.'' in
          if region = [] then Inl (edge_error entry ''empty REGION'')
          else if length fqdn > 253 \<or> \<not> edge_fqdn fqdn then
            Inl (edge_error entry (''invalid FQDN '' @ quote fqdn @
              '' (lowercase DNS name with two or more labels, at most 253 characters)''))
          else if has_key out region then
            Inl (edge_error entry (''region '' @ region @ '' set more than once''))
          else resolve_entries es (AList.update region fqdn out))"

definition ResolveDNSEdgeTargets :: "string \<Rightarrow> string list \<Rightarrow> goerr + strmap" where
  "ResolveDNSEdgeTargets apiURL entries =
     (if entries = [] then
        (if trim_suffix apiURL ''/'' = DefaultTowonelAPIURL then Inr publicHubEdgeTargets else Inr [])
      else resolve_entries entries [])"

section \<open>The desired DNSEndpoint\<close>

definition toProviderSpecific :: "dns_provider_property list \<Rightarrow> (string \<times> string) list" where
  "toProviderSpecific ps = map (\<lambda>p. (dpp_name p, dpp_value p)) ps"

definition dns_target :: "towonel_tunnel \<Rightarrow> inviteView \<Rightarrow> strmap \<Rightarrow> string" where
  "dns_target tt view edgeTargets = (let t = trim_suffix (td_cnameTarget (ts_dns (tt_spec tt))) ''.''
     in if t = [] then mget edgeTargets (vw_region view) else t)"

definition dns_hostnames :: "towonel_tunnel \<Rightarrow> inviteView \<Rightarrow> string list \<Rightarrow> string list" where
  "dns_hostnames tt view optOut =
     (if vw_revoked view then []
      else filter (\<lambda>h. \<not> (has_prefix h ''*.'' \<and> \<not> td_includeWildcards (ts_dns (tt_spec tt))) \<and>
                       \<not> List.member optOut h) (dedupe (vw_confirmed view)))"

definition dns_meta_of :: "towonel_tunnel \<Rightarrow> meta" where
  "dns_meta_of tt = (let dns = ts_dns (tt_spec tt); ns = m_ns (tt_meta tt); name = m_name (tt_meta tt) in
     (new_meta (cmp_or (td_namespace dns) ns) (dnsEndpointName ns name))
       \<lparr>m_labels := AList.update LabelOwnerTunnel (ownerHash ns name)
           (AList.update LabelManagedBy ManagedByValue (td_labels dns)),
        m_annotations := AList.update AnnotationOwnerTunnelRef (ns @ ''/'' @ name) (td_annotations dns)\<rparr>)"

definition desiredDNSEndpoint ::
  "towonel_tunnel \<Rightarrow> inviteView \<Rightarrow> strmap \<Rightarrow> string list \<Rightarrow> goerr + dns_endpoint \<times> dns_record list" where
  "desiredDNSEndpoint tt view edgeTargets optOut =
     (let dns = ts_dns (tt_spec tt); target = dns_target tt view edgeTargets in
      if target = [] then Inl (Sentinel ErrNoEdgeTarget)
      else
        let hs = dns_hostnames tt view optOut in
        Inr (\<lparr>dns_meta = dns_meta_of tt,
              dns_endpoints = map (\<lambda>h. \<lparr>de_dnsName = h, de_recordType = ''CNAME'', de_targets = [target],
                de_ttl = td_defaultTTL dns,
                de_providerSpecific = toProviderSpecific (td_providerSpecific dns)\<rparr>) hs\<rparr>,
             map (\<lambda>h. \<lparr>dr_hostname = h, dr_type = ''CNAME'', dr_target = target, dr_port = 0,
                dr_protocol = []\<rparr>) hs))"

definition dnsOptOutHostnames :: "towonel_agent list \<Rightarrow> string list" where
  "dnsOptOutHostnames agents = concat (map (\<lambda>a.
     map as_hostname (filter (\<lambda>s. as_dnsRecord s = Some False) (ag_services (ta_spec a)))) agents)"

section \<open>Convergence\<close>

definition setDNSCond ::
  "('w, 'b) tunnel_reconciler_scheme \<Rightarrow> cond_status \<Rightarrow> string \<Rightarrow> string \<Rightarrow> towonel_tunnel
     \<Rightarrow> ('w, towonel_tunnel) op" where
  "setDNSCond r status reason msg tt w =
     (let prev = tunnel_cond r tt CondDNSEndpointSynced;
          enter = (case prev of None \<Rightarrow> True | Some c \<Rightarrow> c_status c \<noteq> CFalse \<or> c_reason c \<noteq> reason);
          w1 = (if status = CFalse \<and> enter then tunnel_event r tt reason msg w else w)
      in (setCond r CondDNSEndpointSynced status reason msg tt, w1))"

definition ownedByTunnel :: "dns_endpoint \<Rightarrow> string \<Rightarrow> bool" where
  "ownedByTunnel obj hash \<longleftrightarrow> mget (m_labels (dns_meta obj)) LabelManagedBy = ManagedByValue \<and>
     mget (m_labels (dns_meta obj)) LabelOwnerTunnel = hash"

fun delete_endpoints ::
  "('w, 'b) tunnel_reconciler_scheme \<Rightarrow> nn option \<Rightarrow> dns_endpoint list \<Rightarrow> goerr list
     \<Rightarrow> ('w, goerr list) op" where
  "delete_endpoints r keep [] errs w = (errs, w)"
| "delete_endpoints r keep (item # items) errs w =
     (let key = key_of (dns_meta item) in
      if keep = Some key then delete_endpoints r keep items errs w
      else (case tr_delete_dns r key w of
          (None, w1) \<Rightarrow> delete_endpoints r keep items errs w1
        | (Some e, w1) \<Rightarrow>
            if is_not_found e then delete_endpoints r keep items errs w1
            else delete_endpoints r keep items
              (errs @ [wrapf (''delete DNSEndpoint '' @ nn_str key @ '': '') e]) w1))"

definition owner_selector :: "string \<Rightarrow> strmap" where
  "owner_selector hash = [(LabelManagedBy, ManagedByValue), (LabelOwnerTunnel, hash)]"

definition sweepDNSEndpoints ::
  "('w, 'b) tunnel_reconciler_scheme \<Rightarrow> string \<Rightarrow> nn option \<Rightarrow> ('w, goerr option) op" where
  "sweepDNSEndpoints r hash keep w =
     (case tr_list_dns r (owner_selector hash) w of
        (Inl e, w1) \<Rightarrow> if is_no_match e then (None, w1) else (Some (wrapf ''list DNSEndpoints: '' e), w1)
      | (Inr items, w1) \<Rightarrow>
          let (errs, w2) = delete_endpoints r keep items [] w1 in (errors_join errs, w2))"

definition set_records :: "dns_record list \<Rightarrow> towonel_tunnel \<Rightarrow> towonel_tunnel" where
  "set_records recs = with_status (\<lambda>st. st\<lparr>st_dnsRecords := recs\<rparr>)"

definition tunnel_hash :: "towonel_tunnel \<Rightarrow> string" where
  "tunnel_hash tt = ownerHash (m_ns (tt_meta tt)) (m_name (tt_meta tt))"

text \<open>The closure \<open>withdraw\<close>: sweep everything; on success go on with \<open>k\<close>, else ask for a retry.\<close>

definition withdraw_then ::
  "('w, 'b) tunnel_reconciler_scheme \<Rightarrow> towonel_tunnel
     \<Rightarrow> (towonel_tunnel \<Rightarrow> ('w, bool \<times> towonel_tunnel) op) \<Rightarrow> ('w, bool \<times> towonel_tunnel) op" where
  "withdraw_then r tt k w =
     (case sweepDNSEndpoints r (tunnel_hash tt) None w of
        (Some e, w1) \<Rightarrow>
          let (tt1, w2) = setDNSCond r CFalse ReasonAPIError (err_text e) tt w1 in ((True, tt1), w2)
      | (None, w1) \<Rightarrow> k tt w1)"

definition dns_done ::
  "('w, 'b) tunnel_reconciler_scheme \<Rightarrow> bool \<Rightarrow> cond_status \<Rightarrow> string \<Rightarrow> string \<Rightarrow> towonel_tunnel
     \<Rightarrow> ('w, bool \<times> towonel_tunnel) op" where
  "dns_done r retry status reason msg tt w =
     (let (tt1, w1) = setDNSCond r status reason msg tt w in ((retry, tt1), w1))"

definition apply_endpoint ::
  "('w, 'b) tunnel_reconciler_scheme \<Rightarrow> dns_endpoint \<Rightarrow> towonel_tunnel \<Rightarrow> ('w, bool \<times> towonel_tunnel) op"
  where
  "apply_endpoint r desired tt w =
     (let key = key_of (dns_meta desired) in
      case tr_apply_dns r desired w of
        (Some e, w1) \<Rightarrow>
          if is_invalid e then
            dns_done r False CFalse ReasonInvalidConfig
              (''apply DNSEndpoint '' @ nn_str key @ '': '' @ err_text e) tt w1
          else if is_not_found e then
            dns_done r True CFalse ReasonAPIError (''namespace '' @ fst key @ '' not found'') tt w1
          else dns_done r True CFalse ReasonAPIError
            (''apply DNSEndpoint '' @ nn_str key @ '': '' @ err_text e) tt w1
      | (None, w1) \<Rightarrow>
          dns_done r False CTrue ReasonSynced
            (nat_str (length (dns_endpoints desired)) @ '' record(s) in '' @ nn_str key) tt w1)"

text \<open>The part after the switch: sweep the others, look at our name, apply.\<close>

definition publish_endpoint ::
  "('w, 'b) tunnel_reconciler_scheme \<Rightarrow> dns_endpoint \<Rightarrow> towonel_tunnel \<Rightarrow> ('w, bool \<times> towonel_tunnel) op"
  where
  "publish_endpoint r desired tt w =
     (let key = key_of (dns_meta desired) in
      case sweepDNSEndpoints r (tunnel_hash tt) (Some key) w of
        (Some e, w1) \<Rightarrow> dns_done r True CFalse ReasonAPIError (err_text e) tt w1
      | (None, w1) \<Rightarrow>
          (case tr_get_dns r key w1 of
             (Inr existing, w2) \<Rightarrow>
               if \<not> ownedByTunnel existing (tunnel_hash tt) then
                 dns_done r True CFalse ReasonForeignObject (''DNSEndpoint '' @ nn_str key @
                   '' exists and is not managed by this tunnel; not overwriting'') tt w2
               else apply_endpoint r desired tt w2
           | (Inl e, w2) \<Rightarrow>
               if is_no_match e then
                 dns_done r True CFalse ReasonDNSCRDMissing
                   ''external-dns DNSEndpoint CRD (externaldns.k8s.io/v1alpha1) is not installed'' tt w2
               else if \<not> is_not_found e then
                 dns_done r True CFalse ReasonAPIError
                   (''get DNSEndpoint '' @ nn_str key @ '': '' @ err_text e) tt w2
               else apply_endpoint r desired tt w2))"

text \<open>Result: \<open>retry\<close>.\<close>

definition reconcileDNS ::
  "('w, 'b) tunnel_reconciler_scheme \<Rightarrow> towonel_tunnel \<Rightarrow> inviteView \<Rightarrow> string list
     \<Rightarrow> ('w, bool \<times> towonel_tunnel) op" where
  "reconcileDNS r tt0 view optOut w =
     (let want = desiredDNSEndpoint tt0 view (tr_dnsEdgeTargets r) optOut;
          tt = set_records (case want of Inl _ \<Rightarrow> [] | Inr (_, recs) \<Rightarrow>
                 if vw_revoked view then [] else recs) tt0
      in if td_mode (ts_dns (tt_spec tt)) \<noteq> DNSModeDNSEndpoint then
           withdraw_then r tt (\<lambda>tt w. ((False, with_status (\<lambda>st. st\<lparr>st_conditions :=
             remove_status_condition r (st_conditions st) CondDNSEndpointSynced\<rparr>) tt), w)) w
         else if vw_revoked view then
           withdraw_then r tt (dns_done r False CFalse ReasonInviteRevoked
             (''hub reports invite '' @ st_inviteID (tt_status tt) @ '' revoked; DNS records withdrawn'')) w
         else (case want of
             Inl e \<Rightarrow>
               withdraw_then r tt (dns_done r False CFalse ReasonNoEdgeTarget
                 (''no DNS edge target for region '' @ vw_region view @
                  '': set spec.dns.cnameTarget or --dns-edge-target '' @ vw_region view @ ''=<fqdn>'')) w
           | Inr (desired, _) \<Rightarrow>
               if dns_endpoints desired = [] then
                 withdraw_then r tt
                   (dns_done r False CTrue ReasonSynced ''0 records; DNSEndpoint removed'') w
               else publish_endpoint r desired tt w))"

section \<open>Region endpoints (\<open>towoneltunnel_regions.go\<close>)\<close>

definition mapRole :: "string \<Rightarrow> string" where
  "mapRole hubRole = (if hubRole = ''failover'' then ''secondary'' else hubRole)"

definition region_endpoint_of :: "region_status \<Rightarrow> region_endpoint" where
  "region_endpoint_of rs = \<lparr>re_region = rs_region rs, re_role = mapRole (rs_role rs),
     re_addresses = dedupe (concat (map es_publicIPs (rs_edges rs)))\<rparr>"

definition populateRegionEndpoints ::
  "('w, 'b) tunnel_reconciler_scheme \<Rightarrow> hub_client \<Rightarrow> towonel_tunnel \<Rightarrow> ('w, towonel_tunnel) op" where
  "populateRegionEndpoints r tc tt w =
     (if st_inviteID (tt_status tt) = [] then (tt, w)
      else (case GetInviteStatus (tr_http r) tc (st_inviteID (tt_status tt)) w of
          (Inl e, w1) \<Rightarrow>
            if is_hub_status 404 e then
              (setCond r CondRegionEndpointsAvailable CFalse ReasonUnavailable
                ''hub returned 404 for /v1/invites/{id}/status (hub too old, or invite unknown)'' tt, w1)
            else (setCond r CondRegionEndpointsAvailable CFalse ReasonAPIError (err_text e) tt, w1)
        | (Inr st, w1) \<Rightarrow>
            let eps = map region_endpoint_of (ivs_regions st);
                live = length (filter (\<lambda>ep. re_addresses ep \<noteq> []) eps)
            in (setCond r CondRegionEndpointsAvailable CTrue ReasonSynced
                  (nat_str (length eps) @ '' region(s), '' @ nat_str live @ '' with live edge(s)'')
                  (with_status (\<lambda>s. s\<lparr>st_regionEndpoints := eps\<rparr>) tt), w1)))"


section \<open>The DNSEndpoint objects of the cluster\<close>

definition match_labels :: "strmap \<Rightarrow> strmap \<Rightarrow> bool" where
  "match_labels sel ls = list_all (\<lambda>(k, v). map_of ls k = Some v) sel"

text \<open>
  The documented behaviour of the API server on these objects: \<open>dns w\<close> holds the objects of
  world \<open>w\<close>. Reads change nothing and a list returns what matches its selector; a NoMatch says
  that the kind is not installed, so there is no object; a failed write changes nothing; a forced
  server-side apply sets the endpoints and the labels it names.
\<close>

definition dns_api :: "('w, 'b) tunnel_reconciler_scheme \<Rightarrow> ('w \<Rightarrow> nn \<Rightarrow> dns_endpoint option) \<Rightarrow> bool" where
  "dns_api r dns \<longleftrightarrow>
     (\<forall>w k ep. dns w k = Some ep \<longrightarrow> key_of (dns_meta ep) = k) \<and>
     (\<forall>sel w items w'. tr_list_dns r sel w = (Inr items, w') \<longrightarrow> dns w' = dns w \<and>
        set items = {ep. \<exists>k. dns w k = Some ep \<and> match_labels sel (m_labels (dns_meta ep))}) \<and>
     (\<forall>sel w e w'. tr_list_dns r sel w = (Inl e, w') \<longrightarrow> dns w' = dns w \<and>
        (is_no_match e \<longrightarrow> dns w = Map.empty)) \<and>
     (\<forall>k w ep w'. tr_get_dns r k w = (Inr ep, w') \<longrightarrow> dns w' = dns w \<and> dns w k = Some ep) \<and>
     (\<forall>k w e w'. tr_get_dns r k w = (Inl e, w') \<longrightarrow> dns w' = dns w \<and>
        (is_not_found e \<longrightarrow> dns w k = None)) \<and>
     (\<forall>k w w'. tr_delete_dns r k w = (None, w') \<longrightarrow> dns w' = (dns w)(k := None)) \<and>
     (\<forall>k w e w'. tr_delete_dns r k w = (Some e, w') \<longrightarrow> dns w' = dns w \<and>
        (is_not_found e \<longrightarrow> dns w k = None)) \<and>
     (\<forall>ep w w'. tr_apply_dns r ep w = (None, w') \<longrightarrow>
        (\<exists>ep'. dns w' = (dns w)(key_of (dns_meta ep) \<mapsto> ep') \<and> dns_endpoints ep' = dns_endpoints ep \<and>
          (\<forall>l. has_key (m_labels (dns_meta ep)) l \<longrightarrow>
             map_of (m_labels (dns_meta ep')) l = map_of (m_labels (dns_meta ep)) l))) \<and>
     (\<forall>ep w e w'. tr_apply_dns r ep w = (Some e, w') \<longrightarrow> dns w' = dns w) \<and>
     (\<forall>tt rs m w. dns (tunnel_event r tt rs m w) = dns w)"

lemmas dns_api_parts = dns_api_def[THEN iffD1]

lemmas dns_key = dns_api_parts[THEN conjunct1, rule_format]
lemmas dns_list = dns_api_parts[THEN conjunct2, THEN conjunct1, rule_format]
lemmas dns_list_err = dns_api_parts[THEN conjunct2, THEN conjunct2, THEN conjunct1, rule_format]
lemmas dns_get = dns_api_parts[THEN conjunct2, THEN conjunct2, THEN conjunct2, THEN conjunct1, rule_format]
lemmas dns_get_err = dns_api_parts[THEN conjunct2, THEN conjunct2, THEN conjunct2, THEN conjunct2, THEN conjunct1, rule_format]
lemmas dns_del = dns_api_parts[THEN conjunct2, THEN conjunct2, THEN conjunct2, THEN conjunct2, THEN conjunct2, THEN conjunct1, rule_format]
lemmas dns_del_err = dns_api_parts[THEN conjunct2, THEN conjunct2, THEN conjunct2, THEN conjunct2, THEN conjunct2, THEN conjunct2, THEN conjunct1, rule_format]
lemmas dns_app = dns_api_parts[THEN conjunct2, THEN conjunct2, THEN conjunct2, THEN conjunct2, THEN conjunct2, THEN conjunct2, THEN conjunct2, THEN conjunct1, rule_format]
lemmas dns_app_err = dns_api_parts[THEN conjunct2, THEN conjunct2, THEN conjunct2, THEN conjunct2, THEN conjunct2, THEN conjunct2, THEN conjunct2, THEN conjunct2, THEN conjunct1, rule_format]
lemmas dns_event = dns_api_parts[THEN conjunct2, THEN conjunct2, THEN conjunct2, THEN conjunct2, THEN conjunct2, THEN conjunct2, THEN conjunct2, THEN conjunct2, THEN conjunct2, rule_format]

lemma owned_match: "ownedByTunnel ep (ownerHash ns n) \<longleftrightarrow>
   match_labels (owner_selector (ownerHash ns n)) (m_labels (dns_meta ep))"
proof -
  have "ownerHash ns n \<noteq> []" using length_ownerHash[of ns n] by force
  then show ?thesis
    by (auto simp: ownedByTunnel_def match_labels_def owner_selector_def mget_def ManagedByValue_def
        split: option.splits)
qed

lemma delete_endpoints_dns:
  assumes api: "dns_api r dns"
    and "delete_endpoints r keep items errs w = (errs', w')"
  shows "\<exists>es. errs' = errs @ es \<and>
    (\<forall>k. dns w' k = dns w k \<or> (dns w' k = None \<and> k \<in> (\<lambda>i. key_of (dns_meta i)) ` set items \<and> keep \<noteq> Some k)) \<and>
    (es = [] \<longrightarrow> (\<forall>k \<in> (\<lambda>i. key_of (dns_meta i)) ` set items. keep \<noteq> Some k \<longrightarrow> dns w' k = None))"
  using assms(2)
proof (induction items arbitrary: errs w)
  case (Cons i items)
  let ?k = "key_of (dns_meta i)"
  show ?case
  proof (cases "keep = Some ?k")
    case True
    then have "delete_endpoints r keep items errs w = (errs', w')" using Cons.prems by simp
    from Cons.IH[OF this] True show ?thesis by fastforce
  next
    case False
    obtain q w1 where call: "tr_delete_dns r ?k w = (q, w1)" by (cases "tr_delete_dns r ?k w")
    show ?thesis
    proof (cases "q = None \<or> (\<exists>e. q = Some e \<and> is_not_found e)")
      case True
      then have run: "delete_endpoints r keep items errs w1 = (errs', w')"
        using Cons.prems False call by auto
      have d: "dns w1 = (dns w)(?k := None)"
        using dns_del[OF api, of ?k w w1] dns_del_err[OF api, of ?k w _ w1] call True by (auto simp: fun_upd_idem)
      from Cons.IH[OF run] obtain es where es: "errs' = errs @ es"
        "\<forall>k. dns w' k = dns w1 k \<or> (dns w' k = None \<and> k \<in> (\<lambda>i. key_of (dns_meta i)) ` set items \<and> keep \<noteq> Some k)"
        "es = [] \<longrightarrow> (\<forall>k \<in> (\<lambda>i. key_of (dns_meta i)) ` set items. keep \<noteq> Some k \<longrightarrow> dns w' k = None)"
        by blast
      have gone: "dns w' ?k = None" using es(2)[rule_format, of ?k] d by auto
      have two: "dns w' k = dns w k \<or> (dns w' k = None \<and>
          k \<in> (\<lambda>i. key_of (dns_meta i)) ` set (i # items) \<and> keep \<noteq> Some k)" for k
        using es(2)[rule_format, of k] d gone False by (cases "k = ?k") auto
      have three: "dns w' k = None" if "es = []" "k \<in> (\<lambda>i. key_of (dns_meta i)) ` set (i # items)"
        "keep \<noteq> Some k" for k
        using es(3) gone that by auto
      show ?thesis
      proof (intro exI[of _ es] conjI allI impI ballI)
        show "errs' = errs @ es" by fact
        show "dns w' k = dns w k \<or> (dns w' k = None \<and>
            k \<in> (\<lambda>i. key_of (dns_meta i)) ` set (i # items) \<and> keep \<noteq> Some k)" for k by (rule two)
        show "dns w' k = None" if "es = []" "k \<in> (\<lambda>i. key_of (dns_meta i)) ` set (i # items)"
          "keep \<noteq> Some k" for k using that by (rule three)
      qed
    next
      case no: False
      then obtain e where e: "q = Some e" "\<not> is_not_found e" by auto
      then have run: "delete_endpoints r keep items
          (errs @ [wrapf (''delete DNSEndpoint '' @ nn_str ?k @ '': '') e]) w1 = (errs', w')"
        using Cons.prems False call by simp
      have d: "dns w1 = dns w" using dns_del_err[OF api] call e by auto
      from Cons.IH[OF run] d show ?thesis by auto
    qed
  qed
qed simp

text \<open>What a sweep does to the objects: it deletes owned ones only, and all of them but \<open>keep\<close>
  when it reports no error.\<close>

lemma sweep_dns:
  assumes api: "dns_api r dns" and h: "hash = ownerHash ns n"
    and run: "sweepDNSEndpoints r hash keep w = (res, w')"
  shows "(\<forall>k. dns w' k = dns w k \<or>
      (dns w' k = None \<and> (\<exists>ep. dns w k = Some ep \<and> ownedByTunnel ep hash) \<and> keep \<noteq> Some k)) \<and>
    (res = None \<longrightarrow> (\<forall>k ep. dns w' k = Some ep \<longrightarrow> ownedByTunnel ep hash \<longrightarrow> keep = Some k))"
proof -
  obtain q w1 where list: "tr_list_dns r (owner_selector hash) w = (q, w1)"
    by (cases "tr_list_dns r (owner_selector hash) w")
  show ?thesis
  proof (cases q)
    case (Inl e)
    then have "dns w1 = dns w \<and> (is_no_match e \<longrightarrow> dns w = Map.empty)"
      using dns_list_err[OF api] list by simp
    then show ?thesis using run list Inl by (auto simp: sweepDNSEndpoints_def split: if_splits)
  next
    case (Inr items)
    then have l: "dns w1 = dns w" "set items = {ep. \<exists>k. dns w k = Some ep \<and>
        match_labels (owner_selector hash) (m_labels (dns_meta ep))}"
      using dns_list[OF api, of "owner_selector hash" w items w1] list by simp_all
    note key = dns_key[OF api]
    have keys: "k \<in> (\<lambda>i. key_of (dns_meta i)) ` set items \<longleftrightarrow>
        (\<exists>ep. dns w k = Some ep \<and> ownedByTunnel ep hash)" for k
    proof
      assume "k \<in> (\<lambda>i. key_of (dns_meta i)) ` set items"
      then obtain ep where "ep \<in> set items" "k = key_of (dns_meta ep)" by blast
      then show "\<exists>ep. dns w k = Some ep \<and> ownedByTunnel ep hash"
        unfolding l(2) h owned_match using key[of w _ ep] by blast
    next
      assume "\<exists>ep. dns w k = Some ep \<and> ownedByTunnel ep hash"
      then obtain ep where ep: "dns w k = Some ep" "ownedByTunnel ep hash" by blast
      then have "ep \<in> set items" unfolding l(2) h owned_match by blast
      then show "k \<in> (\<lambda>i. key_of (dns_meta i)) ` set items" using key[OF ep(1)] by blast
    qed
    obtain errs where del: "delete_endpoints r keep items [] w1 = (errs, w')" "res = errors_join errs"
      using run list Inr by (auto simp: sweepDNSEndpoints_def split: prod.splits)
    from delete_endpoints_dns[OF api del(1)] obtain es where es: "errs = es"
      "\<forall>k. dns w' k = dns w1 k \<or> (dns w' k = None \<and> k \<in> (\<lambda>i. key_of (dns_meta i)) ` set items \<and> keep \<noteq> Some k)"
      "es = [] \<longrightarrow> (\<forall>k \<in> (\<lambda>i. key_of (dns_meta i)) ` set items. keep \<noteq> Some k \<longrightarrow> dns w' k = None)"
      by auto
    have "res = None \<longrightarrow> (\<forall>k ep. dns w' k = Some ep \<longrightarrow> ownedByTunnel ep hash \<longrightarrow> keep = Some k)"
    proof (intro impI allI)
      fix k ep assume a: "res = None" "dns w' k = Some ep" "ownedByTunnel ep hash"
      then have "dns w k = Some ep" using es(2) l(1) by (metis option.distinct(1))
      then have "k \<in> (\<lambda>i. key_of (dns_meta i)) ` set items" using keys a(3) by blast
      moreover have "es = []" using a(1) del(2) es(1) by (simp add: errors_join_def split: if_splits)
      ultimately show "keep = Some k" using es(3) a(2) by auto
    qed
    then show ?thesis using es(2) keys l(1) by metis
  qed
qed


section \<open>What \<open>reconcileDNS\<close> does to them\<close>

lemma setDNSCond_dns:
  "dns_api r dns \<Longrightarrow> setDNSCond r s rs m tt w = (tt', w') \<Longrightarrow> dns w' = dns w"
  by (auto simp: setDNSCond_def Let_def dns_event)

lemma dns_done_dns:
  "dns_api r dns \<Longrightarrow> dns_done r b s rs m tt w = ((b', tt'), w') \<Longrightarrow>
   dns w' = dns w \<and> b' = b \<and> tt_spec tt' = tt_spec tt \<and> tt_meta tt' = tt_meta tt"
  by (auto simp: dns_done_def setDNSCond_def Let_def dns_event)

lemma dns_done_cond:
  "lib_ok r \<Longrightarrow> dns_done r b s rs m tt w = ((b', tt'), w') \<Longrightarrow>
   map_option c_status (tunnel_cond r tt' CondDNSEndpointSynced) = Some s"
  by (auto simp: dns_done_def setDNSCond_def Let_def setCond_cond)

definition owned_only :: "('k \<Rightarrow> dns_endpoint option) \<Rightarrow> string \<Rightarrow> 'k option \<Rightarrow> bool" where
  "owned_only d hash keep \<longleftrightarrow> (\<forall>k ep. d k = Some ep \<longrightarrow> ownedByTunnel ep hash \<longrightarrow> keep = Some k)"

definition keeps_foreign :: "('k \<Rightarrow> dns_endpoint option) \<Rightarrow> ('k \<Rightarrow> dns_endpoint option) \<Rightarrow> string \<Rightarrow> bool" where
  "keeps_foreign d d' hash \<longleftrightarrow> (\<forall>k ep. d k = Some ep \<longrightarrow> \<not> ownedByTunnel ep hash \<longrightarrow> d' k = Some ep)"

lemma sweep_effect:
  assumes "dns_api r dns" and "sweepDNSEndpoints r (ownerHash ns n) keep w = (res, w')"
  shows "keeps_foreign (dns w) (dns w') (ownerHash ns n)"
    and "res = None \<Longrightarrow> owned_only (dns w') (ownerHash ns n) keep"
proof -
  have eff: "dns w' k = dns w k \<or> (dns w' k = None \<and>
      (\<exists>ep. dns w k = Some ep \<and> ownedByTunnel ep (ownerHash ns n)) \<and> keep \<noteq> Some k)" for k
    using sweep_dns[OF assms(1) refl assms(2)] by blast
  show "keeps_foreign (dns w) (dns w') (ownerHash ns n)"
    unfolding keeps_foreign_def
  proof (intro allI impI)
    fix k ep assume "dns w k = Some ep" "\<not> ownedByTunnel ep (ownerHash ns n)"
    then show "dns w' k = Some ep" using eff[of k] by auto
  qed
  show "owned_only (dns w') (ownerHash ns n) keep" if "res = None"
    using sweep_dns[OF assms(1) refl assms(2)] that unfolding owned_only_def by blast
qed

lemma withdraw_effect:
  assumes api: "dns_api r dns" and run: "withdraw_then r tt k w = ((b, tt'), w')"
    and k: "\<And>t v b' t' v'. k t v = ((b', t'), v') \<Longrightarrow> dns v' = dns v"
  shows "keeps_foreign (dns w) (dns w') (tunnel_hash tt) \<and> (\<not> b \<longrightarrow> owned_only (dns w') (tunnel_hash tt) None)"
proof -
  obtain res w1 where sweep: "sweepDNSEndpoints r (tunnel_hash tt) None w = (res, w1)"
    by (cases "sweepDNSEndpoints r (tunnel_hash tt) None w")
  note eff = sweep_effect[OF api sweep[unfolded tunnel_hash_def], folded tunnel_hash_def]
  show ?thesis
  proof (cases res)
    case None
    then have "k tt w1 = ((b, tt'), w')" using run sweep by (simp add: withdraw_then_def)
    then show ?thesis using k eff None by simp
  next
    case (Some e)
    then show ?thesis using run sweep eff(1) setDNSCond_dns[OF api]
      by (auto simp: withdraw_then_def Let_def split: prod.splits)
  qed
qed

lemma desired_owned:
  assumes "desiredDNSEndpoint tt view tg oo = Inr (desired, recs)"
    and "\<forall>l. has_key (m_labels (dns_meta desired)) l \<longrightarrow> map_of ls l = map_of (m_labels (dns_meta desired)) l"
    and "m_labels (dns_meta ep) = ls"
  shows "ownedByTunnel ep (tunnel_hash tt)"
proof -
  have d: "dns_meta desired = dns_meta_of tt" using assms(1)
    by (auto simp: desiredDNSEndpoint_def Let_def split: if_splits)
  have ne: "LabelManagedBy \<noteq> LabelOwnerTunnel" by (simp add: LabelManagedBy_def LabelOwnerTunnel_def)
  have "map_of (m_labels (dns_meta desired)) LabelManagedBy = Some ManagedByValue"
    "map_of (m_labels (dns_meta desired)) LabelOwnerTunnel = Some (tunnel_hash tt)"
    unfolding d using ne by (simp_all add: dns_meta_of_def Let_def update_conv' tunnel_hash_def)
  then show ?thesis using assms(2,3)
    by (simp add: ownedByTunnel_def mget_def has_key_map_of)
qed

lemma publish_effect:
  assumes api: "dns_api r dns" and want: "desiredDNSEndpoint tt0 view tg oo = Inr (desired, recs)"
    and tt: "tunnel_hash tt = tunnel_hash tt0"
    and run: "publish_endpoint r desired tt w = ((b, tt'), w')"
  shows "keeps_foreign (dns w) (dns w') (tunnel_hash tt) \<and>
    (lib_ok r \<longrightarrow> \<not> b \<longrightarrow> map_option c_status (tunnel_cond r tt' CondDNSEndpointSynced) = Some CTrue \<longrightarrow>
     owned_only (dns w') (tunnel_hash tt) (Some (key_of (dns_meta desired))) \<and>
     (\<exists>ep. dns w' (key_of (dns_meta desired)) = Some ep \<and> ownedByTunnel ep (tunnel_hash tt) \<and>
        dns_endpoints ep = dns_endpoints desired))"
proof -
  let ?key = "key_of (dns_meta desired)" and ?h = "tunnel_hash tt"
  obtain res w1 where sweep: "sweepDNSEndpoints r ?h (Some ?key) w = (res, w1)"
    by (cases "sweepDNSEndpoints r ?h (Some ?key) w")
  note eff = sweep_effect[OF api sweep[unfolded tunnel_hash_def], folded tunnel_hash_def]
  have stop: "?thesis" if "dns_done r True s rs m tt v = ((b, tt'), w')" "dns v = dns w1" for s rs m v
    using dns_done_dns[OF api that(1)] that(2) eff(1) by simp
  show ?thesis
  proof (cases res)
    case (Some e)
    then have "dns_done r True CFalse ReasonAPIError (err_text e) tt w1 = ((b, tt'), w')"
      using run sweep by (simp add: publish_endpoint_def Let_def)
    then show ?thesis by (rule stop) simp
  next
    case None
    obtain q w2 where get: "tr_get_dns r ?key w1 = (q, w2)" by (cases "tr_get_dns r ?key w1")
    have same: "dns w2 = dns w1" using dns_get[OF api] dns_get_err[OF api] get by (cases q) blast+
    show ?thesis
    proof (cases "(\<exists>ep. q = Inr ep \<and> ownedByTunnel ep ?h) \<or> (\<exists>e. q = Inl e \<and> is_not_found e \<and> \<not> is_no_match e)")
      case False
      then obtain s rs m where "dns_done r True s rs m tt w2 = ((b, tt'), w')"
        using run sweep None get by (auto simp: publish_endpoint_def Let_def split: sum.splits if_splits)
      then show ?thesis using same by (rule stop)
    next
      case True
      then have go: "apply_endpoint r desired tt w2 = ((b, tt'), w')"
        using run sweep None get by (auto simp: publish_endpoint_def Let_def)
      have mine: "dns w1 ?key = None \<or> (\<exists>ep. dns w1 ?key = Some ep \<and> ownedByTunnel ep ?h)"
        using True dns_get[OF api] dns_get_err[OF api] get by blast
      obtain a w3 where app: "tr_apply_dns r desired w2 = (a, w3)" by (cases "tr_apply_dns r desired w2")
      show ?thesis
      proof (cases a)
        case (Some e)
        then have "dns w3 = dns w1" using dns_app_err[OF api, of desired w2 e w3] app same by simp
        moreover have "dns w' = dns w3 \<and>
            (lib_ok r \<longrightarrow> map_option c_status (tunnel_cond r tt' CondDNSEndpointSynced) = Some CFalse)"
          using go app Some dns_done_dns[OF api] dns_done_cond
          by (auto simp: apply_endpoint_def Let_def split: if_splits)
        ultimately show ?thesis using eff(1) by auto
      next
        case None
        then obtain ep where ep: "dns w3 = (dns w2)(?key \<mapsto> ep)" "dns_endpoints ep = dns_endpoints desired"
          "\<forall>l. has_key (m_labels (dns_meta desired)) l \<longrightarrow>
             map_of (m_labels (dns_meta ep)) l = map_of (m_labels (dns_meta desired)) l"
          using dns_app[OF api, of desired w2 w3] app by auto
        have d: "dns w' = dns w3" using go app None dns_done_dns[OF api]
          by (auto simp: apply_endpoint_def Let_def)
        have own: "ownedByTunnel ep ?h" using desired_owned[OF want ep(3) refl] tt by simp
        have "keeps_foreign (dns w) (dns w') ?h"
          unfolding keeps_foreign_def
        proof (intro allI impI)
          fix k x assume x: "dns w k = Some x" "\<not> ownedByTunnel x ?h"
          then have "dns w1 k = Some x" using eff(1) unfolding keeps_foreign_def by blast
          moreover from this x(2) mine have "k \<noteq> ?key" by auto
          ultimately show "dns w' k = Some x" using d ep(1) same by simp
        qed
        moreover have "owned_only (dns w') ?h (Some ?key)"
          using eff(2) \<open>res = None\<close> d ep(1) same by (auto simp: owned_only_def split: if_splits)
        ultimately show ?thesis using d ep own by auto
      qed
    qed
  qed
qed


definition dns_publishes :: "towonel_tunnel \<Rightarrow> inviteView \<Rightarrow> strmap \<Rightarrow> string list \<Rightarrow> bool" where
  "dns_publishes tt view edgeTargets optOut \<longleftrightarrow>
     td_mode (ts_dns (tt_spec tt)) = DNSModeDNSEndpoint \<and> \<not> vw_revoked view \<and>
     dns_target tt view edgeTargets \<noteq> [] \<and> dns_hostnames tt view optOut \<noteq> []"

lemma tunnel_hash_records [simp]: "tunnel_hash (set_records recs tt) = tunnel_hash tt"
  by (simp add: tunnel_hash_def set_records_def)

lemma reconcileDNS_effect:
  assumes api: "dns_api r dns" and run: "reconcileDNS r tt view oo w = ((b, tt'), w')"
  shows "keeps_foreign (dns w) (dns w') (tunnel_hash tt) \<and>
    (\<not> dns_publishes tt view (tr_dnsEdgeTargets r) oo \<longrightarrow> \<not> b \<longrightarrow> owned_only (dns w') (tunnel_hash tt) None) \<and>
    (dns_publishes tt view (tr_dnsEdgeTargets r) oo \<longrightarrow> lib_ok r \<longrightarrow> \<not> b \<longrightarrow>
     map_option c_status (tunnel_cond r tt' CondDNSEndpointSynced) = Some CTrue \<longrightarrow>
     owned_only (dns w') (tunnel_hash tt) (Some (key_of (dns_meta_of tt))) \<and>
     (\<exists>ep. dns w' (key_of (dns_meta_of tt)) = Some ep \<and> ownedByTunnel ep (tunnel_hash tt) \<and>
        map (\<lambda>e. (de_dnsName e, de_targets e)) (dns_endpoints ep) =
          map (\<lambda>h. (h, [dns_target tt view (tr_dnsEdgeTargets r)])) (dns_hostnames tt view oo)))"
proof -
  let ?tg = "tr_dnsEdgeTargets r" and ?want = "desiredDNSEndpoint tt view (tr_dnsEdgeTargets r) oo"
  let ?tt = "set_records (case ?want of Inl _ \<Rightarrow> [] | Inr (_, recs) \<Rightarrow>
                 if vw_revoked view then [] else recs) tt"
  have spec: "tt_spec ?tt = tt_spec tt" by (simp add: set_records_def)
  show ?thesis
  proof (cases "dns_publishes tt view ?tg oo")
    case True
    then obtain desired recs where want: "?want = Inr (desired, recs)"
      by (simp add: desiredDNSEndpoint_def dns_publishes_def Let_def)
    have meta: "dns_meta desired = dns_meta_of tt" and ne: "dns_endpoints desired \<noteq> []"
      and eps: "map (\<lambda>e. (de_dnsName e, de_targets e)) (dns_endpoints desired) =
          map (\<lambda>h. (h, [dns_target tt view ?tg])) (dns_hostnames tt view oo)"
      using want True
      by (auto simp: desiredDNSEndpoint_def dns_publishes_def Let_def comp_def split: if_splits)
    have "publish_endpoint r desired ?tt w = ((b, tt'), w')"
      using run True want ne spec by (simp add: reconcileDNS_def dns_publishes_def Let_def)
    from publish_effect[OF api want _ this] True eps show ?thesis by (auto simp: meta)
  next
    case False
    have "\<exists>k. withdraw_then r ?tt k w = ((b, tt'), w') \<and>
        (\<forall>t v b' t' v'. k t v = ((b', t'), v') \<longrightarrow> dns v' = dns v)"
    proof (cases "td_mode (ts_dns (tt_spec tt)) \<noteq> DNSModeDNSEndpoint")
      case True
      then show ?thesis using run spec by (auto simp: reconcileDNS_def Let_def)
    next
      case on: False
      have d: "\<forall>t v b' t' v'. dns_done r c s rs m t v = ((b', t'), v') \<longrightarrow> dns v' = dns v" for c s rs m
        using dns_done_dns[OF api] by blast
      have "?want = Inl (Sentinel ErrNoEdgeTarget) \<or> (\<exists>dr. ?want = Inr dr \<and> dns_endpoints (fst dr) = []) \<or>
          vw_revoked view"
        using False on by (auto simp: dns_publishes_def desiredDNSEndpoint_def Let_def)
      then have "\<exists>c s rs m. withdraw_then r ?tt (dns_done r c s rs m) w = ((b, tt'), w')"
        using run on spec by (auto simp: reconcileDNS_def Let_def split: if_splits; blast)
      then show ?thesis using d by blast
    qed
    then show ?thesis using withdraw_effect[OF api, of ?tt _ w b tt' w'] False by auto
  qed
qed

text \<open>C16: \<open>reconcileDNS\<close> never touches a DNSEndpoint that does not carry this tunnel's ownership
  labels, whatever its name and whatever the API server answers.\<close>

theorem reconcileDNS_keeps_foreign:
  assumes "dns_api r dns" and "reconcileDNS r tt view optOut w = ((retry, tt'), w')"
    and "dns w k = Some ep" and "\<not> ownedByTunnel ep (tunnel_hash tt)"
  shows "dns w' k = Some ep"
  using reconcileDNS_effect[OF assms(1,2)] assms(3,4) unfolding keeps_foreign_def by blast

text \<open>C23: When the tunnel has nothing to publish (mode off, invite revoked, no edge target, or no
  eligible host name), a \<open>reconcileDNS\<close> that asks for no retry has withdrawn every record of the
  tunnel: no object in any namespace carries its ownership labels any more.\<close>

theorem reconcileDNS_withdraws:
  assumes "dns_api r dns" and "reconcileDNS r tt view optOut w = ((False, tt'), w')"
    and "\<not> dns_publishes tt view (tr_dnsEdgeTargets r) optOut"
  shows "\<not> (\<exists>k ep. dns w' k = Some ep \<and> ownedByTunnel ep (tunnel_hash tt))"
  using reconcileDNS_effect[OF assms(1,2)] assms(3) unfolding owned_only_def by blast

text \<open>When \<open>reconcileDNS\<close> reports the DNSEndpoint synced, the tunnel owns exactly one object,
  under its own name, and its endpoints are exactly one CNAME to the tunnel's target for each
  confirmed host name that is not opted out and not an excluded wildcard.\<close>

theorem reconcileDNS_publishes:
  assumes "dns_api r dns" and "lib_ok r" and "reconcileDNS r tt view optOut w = ((False, tt'), w')"
    and "dns_publishes tt view (tr_dnsEdgeTargets r) optOut"
    and "map_option c_status (tunnel_cond r tt' CondDNSEndpointSynced) = Some CTrue"
  shows "(\<forall>k ep. dns w' k = Some ep \<and> ownedByTunnel ep (tunnel_hash tt) \<longrightarrow> k = key_of (dns_meta_of tt)) \<and>
    (\<exists>ep. dns w' (key_of (dns_meta_of tt)) = Some ep \<and> ownedByTunnel ep (tunnel_hash tt) \<and>
      map (\<lambda>e. (de_dnsName e, de_targets e)) (dns_endpoints ep) =
        map (\<lambda>h. (h, [dns_target tt view (tr_dnsEdgeTargets r)])) (dns_hostnames tt view optOut))"
  using reconcileDNS_effect[OF assms(1,3)] assms(2,4,5) unfolding owned_only_def by blast


section \<open>Edge-target flags\<close>

text \<open>One entry on its own, and the reference: all entries parse and no region repeats.\<close>

definition parse_entry :: "string \<Rightarrow> (string \<times> string) option" where
  "parse_entry entry = (case cut entry ''='' of
     None \<Rightarrow> None
   | Some (rgn, fq) \<Rightarrow> let region = to_upper (trim_space rgn); fqdn = trim_suffix fq ''.'' in
       if region \<noteq> [] \<and> length fqdn \<le> 253 \<and> edge_fqdn fqdn then Some (region, fqdn) else None)"

definition ok_of :: "'e + 'a \<Rightarrow> 'a option" where
  "ok_of r = (case r of Inl _ \<Rightarrow> None | Inr a \<Rightarrow> Some a)"

lemma update_new: "\<not> has_key m k \<Longrightarrow> AList.update k v m = m @ [(k, v)]"
  by (induction m) auto

lemma resolve_entries_ref:
  "distinct (map fst out) \<Longrightarrow> ok_of (resolve_entries es out) =
     (case those (map parse_entry es) of None \<Rightarrow> None
      | Some ps \<Rightarrow> if distinct (map fst (out @ ps)) then Some (out @ ps) else None)"
proof (induction es arbitrary: out)
  case (Cons e es)
  show ?case
  proof (cases "parse_entry e")
    case None
    then show ?thesis
      by (cases "cut e ''=''") (auto simp: parse_entry_def ok_of_def Let_def not_less simp del: cut_char_None
        split: if_splits)
  next
    case (Some p)
    then have step: "resolve_entries (e # es) out =
        (if has_key out (fst p) then Inl (edge_error e (''region '' @ fst p @ '' set more than once''))
         else resolve_entries es (AList.update (fst p) (snd p) out))"
      by (auto simp: parse_entry_def Let_def simp del: cut_char_None split: option.splits if_splits)
    show ?thesis
    proof (cases "has_key out (fst p)")
      case True
      then have "\<not> distinct (map fst (out @ p # ps))" for ps by (auto simp: has_key_def)
      then show ?thesis unfolding step using True Some by (auto simp: ok_of_def split: option.split)
    next
      case False
      then have d: "distinct (map fst (out @ [p]))" using Cons.prems by (auto simp: has_key_def)
      have u: "AList.update (fst p) (snd p) out = out @ [p]" using False by (simp add: update_new)
      show ?thesis unfolding step u using Cons.IH[OF d] False Some
        by (simp split: option.split)
    qed
  qed
qed (simp add: ok_of_def)

text \<open>\<open>ResolveDNSEdgeTargets\<close> succeeds exactly when every entry is a REGION=FQDN with a
  non-empty region and a valid name and no region repeats, and then yields the parsed entries in
  order; without entries only the public hub has default targets.\<close>

theorem ResolveDNSEdgeTargets_ref:
  "ok_of (ResolveDNSEdgeTargets apiURL entries) =
     (if entries = [] then
        Some (if trim_suffix apiURL ''/'' = DefaultTowonelAPIURL then publicHubEdgeTargets else [])
      else (case those (map parse_entry entries) of
          None \<Rightarrow> None | Some ps \<Rightarrow> if distinct (map fst ps) then Some ps else None))"
  using resolve_entries_ref[of "[]" entries]
  by (cases "those (map parse_entry entries)") (auto simp: ResolveDNSEdgeTargets_def ok_of_def)

section \<open>Witnesses\<close>

text \<open>An API server that stores DNSEndpoints in a list.\<close>

definition stored :: "dns_endpoint list \<Rightarrow> nn \<Rightarrow> dns_endpoint option" where
  "stored w k = find (\<lambda>ep. key_of (dns_meta ep) = k) w"

definition dns_reconciler :: "dns_endpoint list tunnel_reconciler" where
  "dns_reconciler = idle_reconciler\<lparr>
     tr_list_dns := (\<lambda>sel w. (Inr (filter (\<lambda>ep. stored w (key_of (dns_meta ep)) = Some ep \<and>
       match_labels sel (m_labels (dns_meta ep))) w), w)),
     tr_get_dns := (\<lambda>k w. case stored w k of
       None \<Rightarrow> (Inl (KubeError RNotFound ''not found''), w) | Some ep \<Rightarrow> (Inr ep, w)),
     tr_delete_dns := (\<lambda>k w. (None, filter (\<lambda>ep. key_of (dns_meta ep) \<noteq> k) w)),
     tr_apply_dns := (\<lambda>ep w. (None, ep # filter (\<lambda>x. key_of (dns_meta x) \<noteq> key_of (dns_meta ep)) w))\<rparr>"

lemma stored_filter: "stored (filter (\<lambda>ep. key_of (dns_meta ep) \<noteq> k) w) = (stored w)(k := None)"
proof
  fix j show "stored (filter (\<lambda>ep. key_of (dns_meta ep) \<noteq> k) w) j = ((stored w)(k := None)) j"
    by (induction w) (auto simp: stored_def)
qed

lemma stored_Cons: "stored (ep # w) = (stored w)(key_of (dns_meta ep) \<mapsto> ep)"
  by (auto simp: stored_def fun_eq_iff)

lemma stored_Some: "stored w k = Some ep \<Longrightarrow> ep \<in> set w \<and> key_of (dns_meta ep) = k"
  by (auto simp: stored_def dest: find_in)

lemma dns_reconciler_api: "dns_api dns_reconciler stored"
  unfolding dns_api_def
proof (intro conjI allI impI)
  fix sel w items w' assume "tr_list_dns dns_reconciler sel w = (Inr items, w')"
  then have i: "items = filter (\<lambda>ep. stored w (key_of (dns_meta ep)) = Some ep \<and>
      match_labels sel (m_labels (dns_meta ep))) w" "w' = w" by (auto simp: dns_reconciler_def)
  show "set items = {ep. \<exists>k. stored w k = Some ep \<and> match_labels sel (m_labels (dns_meta ep))}"
    unfolding i(1) using stored_Some by fastforce
  show "stored w' = stored w" using i by simp
qed (auto simp: dns_reconciler_def stored_filter stored_Cons tunnel_event_def idle_reconciler_def
    fun_eq_iff dest: stored_Some split: option.splits)

lemma dns_reconciler_lib: "lib_ok dns_reconciler"
  using std_lib_ok by (simp add: lib_ok_def dns_reconciler_def idle_reconciler_def)


definition dns_tunnel :: towonel_tunnel where
  "dns_tunnel = (new_tunnel ''ns'' ''t'')\<lparr>tt_spec := zero_tunnel_spec\<lparr>ts_dns := zero_dns\<lparr>
     td_mode := DNSModeDNSEndpoint, td_cnameTarget := ''edge.example.''\<rparr>\<rparr>\<rparr>"

definition dns_view :: inviteView where
  "dns_view = \<lparr>vw_confirmed = [''b.example'', ''*.example'', ''a.example''], vw_region = ''EU'',
     vw_revoked = False\<rparr>"

definition foreign_endpoint :: dns_endpoint where
  "foreign_endpoint = \<lparr>dns_meta = new_meta ''ns'' ''other'', dns_endpoints = []\<rparr>"

lemma foreign_not_owned: "\<not> ownedByTunnel foreign_endpoint h"
  by (simp add: ownedByTunnel_def foreign_endpoint_def new_meta_def ManagedByValue_def)

theorem reconcileDNS_keeps_foreign_witness:
  "stored (snd (reconcileDNS dns_reconciler dns_tunnel dns_view [] [foreign_endpoint]))
     (''ns'', ''other'') = Some foreign_endpoint"
proof -
  obtain b tt' w' where run: "reconcileDNS dns_reconciler dns_tunnel dns_view [] [foreign_endpoint] =
      ((b, tt'), w')" by (metis prod.exhaust)
  have s: "stored [foreign_endpoint] (''ns'', ''other'') = Some foreign_endpoint"
    by (simp add: stored_def foreign_endpoint_def new_meta_def key_of_def)
  have "stored w' (''ns'', ''other'') = Some foreign_endpoint"
    by (rule reconcileDNS_keeps_foreign[where dns = stored and k = "(''ns'', ''other'')" and
        tt = dns_tunnel, OF dns_reconciler_api run s]) (rule foreign_not_owned)
  then show ?thesis unfolding run by simp
qed

definition own_endpoint :: dns_endpoint where
  "own_endpoint = \<lparr>dns_meta = dns_meta_of dns_tunnel, dns_endpoints = []\<rparr>"

lemma withdraw_run:
  "\<not> fst (fst (reconcileDNS dns_reconciler dns_tunnel (dns_view\<lparr>vw_revoked := True\<rparr>) [] [foreign_endpoint]))"
  by (simp add: reconcileDNS_def withdraw_then_def sweepDNSEndpoints_def dns_reconciler_def
      match_labels_def owner_selector_def foreign_endpoint_def new_meta_def errors_join_def
      dns_done_def dns_tunnel_def Let_def split: sum.split prod.split)

theorem reconcileDNS_withdraws_witness:
  "\<not> (\<exists>k ep. stored (snd (reconcileDNS dns_reconciler dns_tunnel (dns_view\<lparr>vw_revoked := True\<rparr>) []
     [foreign_endpoint])) k = Some ep \<and> ownedByTunnel ep (tunnel_hash dns_tunnel))"
proof -
  let ?run = "reconcileDNS dns_reconciler dns_tunnel (dns_view\<lparr>vw_revoked := True\<rparr>) [] [foreign_endpoint]"
  obtain tt' w' where run: "?run = ((False, tt'), w')"
    using withdraw_run by (metis prod.collapse)
  have "\<not> dns_publishes dns_tunnel (dns_view\<lparr>vw_revoked := True\<rparr>) (tr_dnsEdgeTargets dns_reconciler) []"
    by (simp add: dns_publishes_def)
  from reconcileDNS_withdraws[OF dns_reconciler_api run this] run show ?thesis by simp
qed

lemma publish_run:
  assumes "''b.example'' \<notin> set oo"
  shows "fst (fst (reconcileDNS dns_reconciler dns_tunnel dns_view oo [])) = False \<and>
   map_option c_status (tunnel_cond dns_reconciler (snd (fst (reconcileDNS dns_reconciler dns_tunnel dns_view oo [])))
     CondDNSEndpointSynced) = Some CTrue"
proof -
  have w: "desiredDNSEndpoint dns_tunnel dns_view tg oo = Inr (d, recs) \<Longrightarrow> dns_endpoints d \<noteq> []" for tg d recs
    using assms by (auto simp: desiredDNSEndpoint_def dns_hostnames_def dns_tunnel_def dns_view_def zero_defs
        dedupe_def has_prefix_def Let_def split: if_splits)
  have "\<exists>d recs. desiredDNSEndpoint dns_tunnel dns_view tg oo = Inr (d, recs)" for tg
    by (simp add: desiredDNSEndpoint_def dns_target_def dns_tunnel_def trim_suffix_def cut_suffix_def Let_def)
  then obtain d recs where d: "desiredDNSEndpoint dns_tunnel dns_view (tr_dnsEdgeTargets dns_reconciler) oo =
      Inr (d, recs)" by blast
  have ops: "tr_list_dns dns_reconciler sel [] = (Inr [], [])"
    "tr_get_dns dns_reconciler k [] = (Inl (KubeError RNotFound ''not found''), [])"
    "tr_apply_dns dns_reconciler ep [] = (None, [ep])" for sel k ep
    by (simp_all add: dns_reconciler_def stored_def)
  have mode: "td_mode (ts_dns (tt_spec dns_tunnel)) = DNSModeDNSEndpoint" "\<not> vw_revoked dns_view"
    by (simp_all add: dns_tunnel_def dns_view_def)
  show ?thesis
    using w[OF d] d mode
    by (simp add: reconcileDNS_def publish_endpoint_def sweepDNSEndpoints_def ops errors_join_def
        dns_done_def setDNSCond_def apply_endpoint_def Let_def set_records_def
        setCond_cond[OF dns_reconciler_lib])
qed

theorem reconcileDNS_publishes_witness:
  "\<exists>w' ep. snd (reconcileDNS dns_reconciler dns_tunnel dns_view [] []) = w' \<and>
     stored w' (key_of (dns_meta_of dns_tunnel)) = Some ep \<and>
     map (\<lambda>e. (de_dnsName e, de_targets e)) (dns_endpoints ep) =
       [(''a.example'', [''edge.example'']), (''b.example'', [''edge.example''])]"
proof -
  have opt_in: "''b.example'' \<notin> set []" by simp
  obtain tt' w' where run: "reconcileDNS dns_reconciler dns_tunnel dns_view [] [] = ((False, tt'), w')"
    using publish_run[OF opt_in] by (metis prod.collapse)
  have t: "dns_target dns_tunnel dns_view tg = ''edge.example''" for tg
    by (simp add: dns_target_def dns_tunnel_def trim_suffix_def cut_suffix_def)
  have h: "dns_hostnames dns_tunnel dns_view [] = [''a.example'', ''b.example'']"
    by (simp add: dns_hostnames_def dns_tunnel_def dns_view_def zero_defs dedupe_def has_prefix_def)
  have p: "dns_publishes dns_tunnel dns_view (tr_dnsEdgeTargets dns_reconciler) []"
    using t h by (simp add: dns_publishes_def dns_view_def) (simp add: dns_tunnel_def)
  show ?thesis
    using reconcileDNS_publishes[OF dns_reconciler_api dns_reconciler_lib run p] publish_run[OF opt_in] run t h by auto
qed

end
