(* ===== verification/TunnelController.thy ===== *)
theory TunnelController
  imports TunnelPorts TunnelDns
begin

text \<open>
  \<open>towoneltunnel_secret.go\<close>, \<open>towoneltunnel_status.go\<close>, \<open>towoneltunnel_delete.go\<close> and
  \<open>towoneltunnel_controller.go\<close>: the token Secret, the status roll-up, the deletion path and the
  reconcile loop that composes every step. The outcome of a reconcile is an error or the delay to
  requeue after, in nanoseconds, zero for none.
\<close>

type_synonym reconcile_result = "goerr + int"

section \<open>The token Secret (\<open>towoneltunnel_secret.go\<close>)\<close>

definition buildTokenSecret :: "string \<Rightarrow> string \<Rightarrow> string \<Rightarrow> string \<Rightarrow> secret_obj" where
  "buildTokenSecret name ns token inviteID =
     \<lparr>sec_meta = (new_meta ns (tokenSecretName name))\<lparr>m_labels := [(LabelPartOf, PartOfValue)],
        m_annotations := [(AnnotationInviteID, inviteID)]\<rparr>,
      sec_data = [(tokenDataKey, token)]\<rparr>"

definition tokenSecretNeedsWrite :: "secret_obj option \<Rightarrow> string \<Rightarrow> bool" where
  "tokenSecretNeedsWrite current inviteID =
     (case current of
        None \<Rightarrow> True
      | Some s \<Rightarrow> mget (sec_data s) tokenDataKey = [] \<or>
                  mget (m_annotations (sec_meta s)) AnnotationInviteID \<noteq> inviteID)"

definition set_token_ref :: "nn \<Rightarrow> towonel_tunnel \<Rightarrow> towonel_tunnel" where
  "set_token_ref key = with_status (\<lambda>st. st\<lparr>st_tokenSecretRef :=
     Some \<lparr>sr_name = snd key, sr_namespace = fst key\<rparr>\<rparr>)"

text \<open>The part of \<open>ensureTokenSecret\<close> that writes: without a token there is nothing to write.\<close>

definition write_token ::
  "('w, 'b) tunnel_reconciler_scheme \<Rightarrow> towonel_tunnel \<Rightarrow> string \<Rightarrow> nn \<Rightarrow> ('w, goerr option \<times> towonel_tunnel) op"
  where
  "write_token r tt token key w =
     (if token = [] then ((Some (Sentinel ErrAdoptedNoToken), tt), w)
      else
        let desired = buildTokenSecret (m_name (tt_meta tt)) (m_ns (tt_meta tt)) token
              (st_inviteID (tt_status tt))
        in (case set_controller_reference r (tt_meta tt) (sec_meta desired) of
              Inl e \<Rightarrow> ((Some (wrapf ''set owner ref: '' e), tt), w)
            | Inr m \<Rightarrow>
                (case tr_apply_secret r (desired\<lparr>sec_meta := m\<rparr>) w of
                   (Some e, w1) \<Rightarrow>
                     ((Some (wrapf (''apply token secret '' @ nn_str key @ '': '') e), tt), w1)
                 | (None, w1) \<Rightarrow> ((None, set_token_ref (m_ns m, m_name m) tt), w1))))"

definition ensureTokenSecret ::
  "('w, 'b) tunnel_reconciler_scheme \<Rightarrow> towonel_tunnel \<Rightarrow> string \<Rightarrow> ('w, goerr option \<times> towonel_tunnel) op"
  where
  "ensureTokenSecret r tt token w =
     (let key = (m_ns (tt_meta tt), tokenSecretName (m_name (tt_meta tt)));
          (got, w1) = tr_get_secret r key w
      in case got of
           Inl e \<Rightarrow>
             if is_not_found e then write_token r tt token key w1
             else ((Some (wrapf (''get token secret '' @ nn_str key @ '': '') e), tt), w1)
         | Inr s \<Rightarrow>
             if \<not> tokenSecretNeedsWrite (Some s) (st_inviteID (tt_status tt))
             then ((None, set_token_ref key tt), w1)
             else write_token r tt token key w1)"


section \<open>Status (\<open>towoneltunnel_status.go\<close>)\<close>

text \<open>\<open>time.UnixMilli(ms).Sub(now)\<close>: in nanoseconds, saturating at the ends of \<open>Duration\<close>.\<close>

definition sub_until :: "int \<Rightarrow> int \<Rightarrow> int" where
  "sub_until ms now = max min_int64 (min max_int64 (ms * 1000000 - now))"

definition expiringSoon :: "towonel_tunnel \<Rightarrow> int \<Rightarrow> bool" where
  "expiringSoon tt now \<longleftrightarrow> ts_tokenExpiry (tt_spec tt) \<noteq> 0 \<and> st_expiresAt (tt_status tt) \<noteq> 0 \<and>
     sub_until (st_expiresAt (tt_status tt)) now \<le> renewWindow"

definition set_phase :: "string \<Rightarrow> towonel_tunnel \<Rightarrow> towonel_tunnel" where
  "set_phase p = with_status (\<lambda>st. st\<lparr>st_phase := p\<rparr>)"

definition rollupStatus :: "('a) k8s_lib_scheme \<Rightarrow> towonel_tunnel \<Rightarrow> int \<Rightarrow> towonel_tunnel" where
  "rollupStatus L tt now =
     (let tt1 = (if st_inviteID (tt_status tt) \<noteq> []
                 then setCond L CondInviteIssued CTrue ReasonSynced ''invite issued'' tt else tt);
          tt2 = (if expiringSoon tt now
                 then setCond L CondTokenExpiringSoon CTrue ReasonExpiringSoon ''token nearing expiry'' tt1
                 else setCond L CondTokenExpiringSoon CFalse ReasonNotExpiring ''token not nearing expiry'' tt1)
      in if st_inviteID (tt_status tt) \<noteq> []
         then set_phase ''Ready'' (setCond L CondReady CTrue ReasonReady ''tunnel reconciled'' tt2)
         else set_phase ''Pending'' (setCond L CondReady CFalse ReasonReconciling ''invite not yet issued'' tt2))"

text \<open>\<open>writeStatus\<close> compares with the snapshot taken at the start of the reconcile.\<close>

definition observe :: "towonel_tunnel \<Rightarrow> towonel_tunnel" where
  "observe tt = with_status (\<lambda>st. st\<lparr>st_observedGeneration := m_generation (tt_meta tt)\<rparr>) tt"

definition writeStatus ::
  "('w, 'b) tunnel_reconciler_scheme \<Rightarrow> towonel_tunnel \<Rightarrow> tunnel_status \<Rightarrow> ('w, goerr option) op" where
  "writeStatus r tt orig w =
     (if tt_status (observe tt) = orig then (None, w) else tr_status_update r (observe tt) w)"

definition fail ::
  "('w, 'b) tunnel_reconciler_scheme \<Rightarrow> towonel_tunnel \<Rightarrow> tunnel_status \<Rightarrow> goerr
     \<Rightarrow> ('w, reconcile_result) op" where
  "fail r tt orig err w =
     (case writeStatus r (set_phase ''Error'' (setCond r CondReady CFalse ReasonAPIError (err_text err) tt))
             orig w of
        (Some werr, w1) \<Rightarrow> (Inl (Joined [err, werr]), w1)
      | (None, w1) \<Rightarrow> (case rateLimitRequeue err of Some d \<Rightarrow> (Inr d, w1) | None \<Rightarrow> (Inl err, w1)))"

section \<open>Deletion (\<open>towoneltunnel_delete.go\<close>)\<close>

text \<open>The closure \<open>release\<close>: a 404 means that the reservation is gone already.\<close>

definition release_port ::
  "('w, 'b) tunnel_reconciler_scheme \<Rightarrow> hub_client \<Rightarrow> towonel_tunnel \<Rightarrow> string \<Rightarrow> int \<Rightarrow> ('w, goerr option) op"
  where
  "release_port r tc tt protocol port w =
     (case ReleasePort (tr_http r) tc (st_tenantID (tt_status tt)) protocol port w of
        (Some e, w1) \<Rightarrow> (if is_hub_status 404 e then None else Some e, w1)
      | (None, w1) \<Rightarrow> (None, w1))"

definition proto_port :: "string \<Rightarrow> int \<Rightarrow> string" where
  "proto_port protocol port = protocol @ ''/'' @ itoa port"

fun release_recorded ::
  "('w, 'b) tunnel_reconciler_scheme \<Rightarrow> hub_client \<Rightarrow> towonel_tunnel \<Rightarrow> port_allocation list
     \<Rightarrow> ('w, goerr option) op" where
  "release_recorded r tc tt [] w = (None, w)"
| "release_recorded r tc tt (pa # pas) w =
     (case release_port r tc tt (al_protocol pa) (al_listenPort pa) w of
        (Some e, w1) \<Rightarrow> (Some (wrapf (''release port '' @ al_protocol pa @ ''/'' @ al_name pa @ '': '') e), w1)
      | (None, w1) \<Rightarrow> release_recorded r tc tt pas w1)"

fun release_leaked ::
  "('w, 'b) tunnel_reconciler_scheme \<Rightarrow> hub_client \<Rightarrow> towonel_tunnel \<Rightarrow> string list
     \<Rightarrow> reserve_port_response list \<Rightarrow> ('w, goerr option) op" where
  "release_leaked r tc tt released [] w = (None, w)"
| "release_leaked r tc tt released (res # rs) w =
     (if (case rr_label res of None \<Rightarrow> False
          | Some l \<Rightarrow> has_prefix l (portLabelPrefix (m_ns (tt_meta tt)) (m_name (tt_meta tt)))) \<and>
         \<not> List.member released (proto_port (rr_protocol res) (rr_port res))
      then (case release_port r tc tt (rr_protocol res) (rr_port res) w of
          (Some e, w1) \<Rightarrow>
            (Some (wrapf (''sweep release '' @ proto_port (rr_protocol res) (rr_port res) @ '': '') e), w1)
        | (None, w1) \<Rightarrow> release_leaked r tc tt released rs w1)
      else release_leaked r tc tt released rs w)"

definition releasePorts ::
  "('w, 'b) tunnel_reconciler_scheme \<Rightarrow> hub_client \<Rightarrow> towonel_tunnel \<Rightarrow> ('w, goerr option) op" where
  "releasePorts r tc tt w =
     (let pas = st_portAllocations (tt_status tt) in
      case release_recorded r tc tt pas w of
        (Some e, w1) \<Rightarrow> (Some e, w1)
      | (None, w1) \<Rightarrow>
          (case ListPorts (tr_http r) tc (st_tenantID (tt_status tt)) w1 of
             (Inl _, w2) \<Rightarrow> (None, w2)
           | (Inr listed, w2) \<Rightarrow>
               release_leaked r tc tt (map (\<lambda>pa. proto_port (al_protocol pa) (al_listenPort pa)) pas)
                 listed w2))"

definition drop_finalizer ::
  "('w, 'b) tunnel_reconciler_scheme \<Rightarrow> towonel_tunnel \<Rightarrow> ('w, reconcile_result) op" where
  "drop_finalizer r tt w =
     (case tr_update r (tt\<lparr>tt_meta := (tt_meta tt)\<lparr>m_finalizers :=
              remove_finalizer r (m_finalizers (tt_meta tt)) FinalizerName\<rparr>\<rparr>) w of
        (Some e, w1) \<Rightarrow> (Inl e, w1) | (None, w1) \<Rightarrow> (Inr 0, w1))"

text \<open>The hub side of the deletion: ports, then the invite, then the finalizer.\<close>

definition delete_on_hub ::
  "('w, 'b) tunnel_reconciler_scheme \<Rightarrow> towonel_tunnel \<Rightarrow> ('w, reconcile_result) op" where
  "delete_on_hub r tt w =
     (case resolveAPIKey r tt w of
        (Inl e, w1) \<Rightarrow> (Inl e, w1)
      | (Inr None, w1) \<Rightarrow> (Inr (30 * second), w1)
      | (Inr (Some apiKey), w1) \<Rightarrow>
          let tc = NewClient (tr_baseURL r) apiKey;
              (rel, w2) = (if st_tenantID (tt_status tt) \<noteq> [] then releasePorts r tc tt w1 else (None, w1))
          in (case rel of
                Some e \<Rightarrow> (Inl e, w2)
              | None \<Rightarrow>
                  (case DeleteInvite (tr_http r) tc (st_inviteID (tt_status tt)) w2 of
                     (Some e, w3) \<Rightarrow>
                       if is_hub_status 404 e then drop_finalizer r tt w3 else (Inl e, w3)
                   | (None, w3) \<Rightarrow> drop_finalizer r tt w3)))"

definition reconcileDelete ::
  "('w, 'b) tunnel_reconciler_scheme \<Rightarrow> towonel_tunnel \<Rightarrow> ('w, reconcile_result) op" where
  "reconcileDelete r tt w =
     (if \<not> contains_finalizer r (m_finalizers (tt_meta tt)) FinalizerName then (Inr 0, w)
      else if ts_deletionPolicy (tt_spec tt) = DeletionPolicyRetain then drop_finalizer r tt w
      else
        (case sweepDNSEndpoints r (tunnel_hash tt) None w of
           (Some e, w1) \<Rightarrow>
             (Inl e, tunnel_event r tt ReasonAPIError (''withdraw DNSEndpoints before delete: '' @ err_text e) w1)
         | (None, w1) \<Rightarrow>
             if st_inviteID (tt_status tt) \<noteq> [] then delete_on_hub r tt w1 else drop_finalizer r tt w1))"

section \<open>Reconcile (\<open>towoneltunnel_controller.go\<close>)\<close>

definition listReferencingAgents ::
  "('w, 'b) tunnel_reconciler_scheme \<Rightarrow> towonel_tunnel \<Rightarrow> ('w, goerr + towonel_agent list) op" where
  "listReferencingAgents r tt w =
     (case tr_list_agents r w of
        (Inl e, w1) \<Rightarrow> (Inl (wrapf ''list referencing agents: '' e), w1)
      | (Inr items, w1) \<Rightarrow>
          (Inr (sort_agents (filter (\<lambda>a. tr_name (ag_tunnelRef (ta_spec a)) \<noteq> [] \<and>
             resolvedTunnelRef a = key_of (tt_meta tt)) items)), w1))"

text \<open>The watch on agents: the tunnel an agent event enqueues.\<close>

definition agent_requests :: "towonel_agent \<Rightarrow> nn list" where
  "agent_requests ta = (if tr_name (ag_tunnelRef (ta_spec ta)) = [] then [] else [resolvedTunnelRef ta])"

text \<open>Leaving early: status, then the delay.\<close>

definition park ::
  "('w, 'b) tunnel_reconciler_scheme \<Rightarrow> towonel_tunnel \<Rightarrow> tunnel_status \<Rightarrow> int \<Rightarrow> ('w, reconcile_result) op"
  where
  "park r tt orig delay w = (case writeStatus r tt orig w of
     (Some e, w1) \<Rightarrow> (Inl e, w1) | (None, w1) \<Rightarrow> (Inr delay, w1))"

text \<open>From the confirmed host names to the end.\<close>

definition finish_reconcile ::
  "('w, 'b) tunnel_reconciler_scheme \<Rightarrow> hub_client \<Rightarrow> towonel_tunnel \<Rightarrow> tunnel_status \<Rightarrow> inviteView
     \<Rightarrow> towonel_agent list \<Rightarrow> ('w, reconcile_result) op" where
  "finish_reconcile r tc tt orig view agents w =
     (let tt1 = (if vw_revoked view
            then setCond r CondHostnamesSynced CFalse ReasonInviteRevoked
              (''hub reports invite '' @ st_inviteID (tt_status tt) @ '' revoked; hostnames not converged'') tt
            else setCond r CondHostnamesSynced CTrue ReasonSynced ''authorized hostnames converged'' tt);
          ((dnsRetry, tt2), w1) = reconcileDNS r tt1 view (dnsOptOutHostnames agents) w;
          (tt3, w2) = populateRegionEndpoints r tc tt2 w1;
          ((perr, tt4), w3) = convergePorts r tc tt3 agents w2
      in case perr of
           Some e \<Rightarrow> fail r tt4 orig e w3
         | None \<Rightarrow>
             let (now, w4) = tr_now r w3
             in park r (rollupStatus r tt4 now) orig (if dnsRetry then dnsRetryRequeue else 30 * minute) w4)"

text \<open>From the invite on.\<close>

definition reconcile_invite ::
  "('w, 'b) tunnel_reconciler_scheme \<Rightarrow> hub_client \<Rightarrow> towonel_tunnel \<Rightarrow> tunnel_status \<Rightarrow> towonel_agent list
     \<Rightarrow> string list \<Rightarrow> ('w, reconcile_result) op" where
  "reconcile_invite r tc tt orig agents desired w =
     (let ((inv_res, tt1), w1) = ensureInvite r tc tt desired w
      in case inv_res of
           Inl e \<Rightarrow> fail r tt1 orig e w1
         | Inr token \<Rightarrow>
             let ((serr, tt2), w2) = ensureTokenSecret r tt1 token w1
             in (case serr of
                   Some e \<Rightarrow>
                     if errors_is e ErrAdoptedNoToken
                     then park r (set_phase ''Pending'' (setCond r CondReady CFalse ReasonReconciling (err_text e) tt2))
                            orig minute w2
                     else fail r tt2 orig e w2
                 | None \<Rightarrow>
                     let ((hres, tt3), w3) = convergeHostnames r tc tt2 desired w2
                     in (case hres of
                           Inr view \<Rightarrow> finish_reconcile r tc tt3 orig view agents w3
                         | Inl e \<Rightarrow>
                             let tt4 = setCond r CondHostnamesSynced CFalse ReasonAPIError (err_text e) tt3;
                                 ((_, tt5), w4) = (if errors_is e ErrInviteNotFound
                                   then reconcileDNS r tt4 \<lparr>vw_confirmed = [], vw_region = [],
                                          vw_revoked = True\<rparr> [] w3
                                   else ((False, tt4), w3))
                             in fail r tt5 orig e w4)))"

definition reconcile_live ::
  "('w, 'b) tunnel_reconciler_scheme \<Rightarrow> towonel_tunnel \<Rightarrow> ('w, reconcile_result) op" where
  "reconcile_live r tt w =
     (let orig = tt_status tt in
      case resolveAPIKey r tt w of
        (Inl e, w1) \<Rightarrow> (Inl e, w1)
      | (Inr None, w1) \<Rightarrow>
          park r (set_phase ''Error'' (setCond r CondReady CFalse ReasonInvalidConfig
              ''no Towonel API key (spec.apiKeySecretRef or TOWONEL_API_KEY)'' tt)) orig (30 * second)
            (tunnel_event r tt ReasonInvalidConfig ''no Towonel API key configured'' w1)
      | (Inr (Some apiKey), w1) \<Rightarrow>
          let tc = NewClient (tr_baseURL r) apiKey in
          (case listReferencingAgents r tt w1 of
             (Inl e, w2) \<Rightarrow> fail r tt orig e w2
           | (Inr agents, w2) \<Rightarrow>
               let desired = desiredHostnames tt agents in
               if desired = [] \<and> st_inviteID (tt_status tt) = [] then
                 park r (set_phase ''Pending'' (setCond r CondReady CFalse ReasonPending
                   (''no authorized hostnames yet '' @ [CHR 0xE2, CHR 0x80, CHR 0x94] @
                    '' a TowonelTunnel needs at least one HTTPS hostname (spec.extraHostnames or an agent HTTPS service) to create its invite, even for TCP/UDP-only routing'')
                   tt)) orig minute w2
               else reconcile_invite r tc tt orig agents desired w2))"

definition Reconcile ::
  "('w, 'b) tunnel_reconciler_scheme \<Rightarrow> nn \<Rightarrow> ('w, reconcile_result) op" where
  "Reconcile r req w =
     (case tr_get_tunnel r req w of
        (Inl e, w1) \<Rightarrow> (case ignore_not_found e of Some e' \<Rightarrow> (Inl e', w1) | None \<Rightarrow> (Inr 0, w1))
      | (Inr tt, w1) \<Rightarrow>
          if m_deleting (tt_meta tt) then reconcileDelete r tt w1
          else
            let (fs, added) = add_finalizer r (m_finalizers (tt_meta tt)) FinalizerName in
            if added then
              (case tr_update r (tt\<lparr>tt_meta := (tt_meta tt)\<lparr>m_finalizers := fs\<rparr>\<rparr>) w1 of
                 (Some e, w2) \<Rightarrow> (Inl e, w2) | (None, w2) \<Rightarrow> (Inr 0, w2))
            else reconcile_live r tt w1)"

section \<open>Properties\<close>

text \<open>\<open>rollupStatus\<close> reports Ready exactly when the tunnel has an invite, sets the phase to
  match, and reports the token as expiring soon exactly when an expiry was asked for, the hub set
  one, and it is at most seven days away.\<close>

theorem rollupStatus_spec:
  assumes "lib_ok L"
  shows "(\<exists>c. tunnel_cond L (rollupStatus L tt now) CondReady = Some c \<and>
      (c_status c = CTrue \<longleftrightarrow> st_inviteID (tt_status tt) \<noteq> [])) \<and>
    st_phase (tt_status (rollupStatus L tt now)) =
      (if st_inviteID (tt_status tt) \<noteq> [] then ''Ready'' else ''Pending'') \<and>
    (\<exists>c. tunnel_cond L (rollupStatus L tt now) CondTokenExpiringSoon = Some c \<and>
      (c_status c = CTrue \<longleftrightarrow> ts_tokenExpiry (tt_spec tt) \<noteq> 0 \<and> st_expiresAt (tt_status tt) \<noteq> 0 \<and>
         st_expiresAt (tt_status tt) * 1000000 - now \<le> 7 * 24 * 3600 * second))"
proof -
  have phase: "tunnel_cond L (set_phase p t) c = tunnel_cond L t c" for p t c
    by (simp add: tunnel_cond_def set_phase_def)
  have phase_status: "st_phase (tt_status (set_phase p t)) = p" for p t
    by (simp add: set_phase_def)
  have ne: "CondReady \<noteq> CondTokenExpiringSoon" by (simp add: cond_names)
  have win: "sub_until ms now \<le> renewWindow \<longleftrightarrow> ms * 1000000 - now \<le> 7 * 24 * 3600 * second" for ms
    by (auto simp: sub_until_def renewWindow_def minute_def second_def min_int64_def max_int64_def)
  show ?thesis
    using ne by (auto simp: rollupStatus_def Let_def phase setCond_cond[OF assms] expiringSoon_def win
        phase_status)
qed

theorem rollupStatus_spec_witness:
  "st_phase (tt_status (rollupStatus (idle_reconciler :: unit tunnel_reconciler) (new_tunnel ''ns'' ''t'') 0)) = ''Pending''"
proof -
  have "st_inviteID (tt_status (new_tunnel ''ns'' ''t'')) = []"
    by (simp add: new_tunnel_def zero_tunnel_status_def)
  then show ?thesis using rollupStatus_spec[where L = "idle_reconciler :: unit tunnel_reconciler", OF idle_reconciler_lib, of "new_tunnel ''ns'' ''t''" 0] by simp
qed



text \<open>The documented behaviour of the API server on Secrets: \<open>secs w\<close> holds their data and
  annotations.\<close>

definition secret_api :: "('w, 'b) tunnel_reconciler_scheme \<Rightarrow> ('w \<Rightarrow> nn \<Rightarrow> secret_obj option) \<Rightarrow> bool" where
  "secret_api r secs \<longleftrightarrow>
     (\<forall>k w s w'. tr_get_secret r k w = (Inr s, w') \<longrightarrow> secs w' = secs w \<and> secs w k = Some s) \<and>
     (\<forall>k w e w'. tr_get_secret r k w = (Inl e, w') \<longrightarrow> secs w' = secs w) \<and>
     (\<forall>s w w'. tr_apply_secret r s w = (None, w') \<longrightarrow>
        (\<exists>s'. secs w' = (secs w)(key_of (sec_meta s) \<mapsto> s') \<and>
           (\<forall>x. has_key (sec_data s) x \<longrightarrow> mget (sec_data s') x = mget (sec_data s) x) \<and>
           (\<forall>x. has_key (m_annotations (sec_meta s)) x \<longrightarrow>
              mget (m_annotations (sec_meta s')) x = mget (m_annotations (sec_meta s)) x)))"

lemmas secret_get = secret_api_def[THEN iffD1, THEN conjunct1, rule_format]
lemmas secret_get_err = secret_api_def[THEN iffD1, THEN conjunct2, THEN conjunct1, rule_format]
lemmas secret_app = secret_api_def[THEN iffD1, THEN conjunct2, THEN conjunct2, rule_format]

lemma write_token_secret:
  assumes api: "secret_api r secs" and lib: "lib_ok r" and key: "key = (m_ns (tt_meta tt), tokenSecretName (m_name (tt_meta tt)))"
    and run: "write_token r tt token key w = ((None, tt'), w')"
  shows "(\<exists>s. secs w' key = Some s \<and> mget (sec_data s) tokenDataKey = token \<and> token \<noteq> [] \<and>
      mget (m_annotations (sec_meta s)) AnnotationInviteID = st_inviteID (tt_status tt)) \<and>
    st_tokenSecretRef (tt_status tt') = Some \<lparr>sr_name = snd key, sr_namespace = fst key\<rparr>"
proof -
  let ?d = "buildTokenSecret (m_name (tt_meta tt)) (m_ns (tt_meta tt)) token (st_inviteID (tt_status tt))"
  obtain m where tok: "token \<noteq> []" and m: "set_controller_reference r (tt_meta tt) (sec_meta ?d) = Inr m"
    and app: "tr_apply_secret r (?d\<lparr>sec_meta := m\<rparr>) w = (None, w')"
    and tt': "tt' = set_token_ref (m_ns m, m_name m) tt"
    using run by (auto simp: write_token_def Let_def split: if_splits sum.splits option.splits prod.splits)
  have m': "m = (sec_meta ?d)\<lparr>m_controller := Some (m_uid (tt_meta tt))\<rparr>" by (rule lib_owner[OF lib m])
  then have k: "key_of m = key" by (simp add: key key_of_def buildTokenSecret_def new_meta_def)
  obtain s' where s': "secs w' = (secs w)(key_of (sec_meta (?d\<lparr>sec_meta := m\<rparr>)) \<mapsto> s')"
    "\<forall>x. has_key (sec_data (?d\<lparr>sec_meta := m\<rparr>)) x \<longrightarrow> mget (sec_data s') x = mget (sec_data (?d\<lparr>sec_meta := m\<rparr>)) x"
    "\<forall>x. has_key (m_annotations (sec_meta (?d\<lparr>sec_meta := m\<rparr>))) x \<longrightarrow>
       mget (m_annotations (sec_meta s')) x = mget (m_annotations (sec_meta (?d\<lparr>sec_meta := m\<rparr>))) x"
    using secret_app[OF api app] by blast
  have "mget (sec_data s') tokenDataKey = token"
    using s'(2) by (simp add: buildTokenSecret_def)
  moreover have "mget (m_annotations (sec_meta s')) AnnotationInviteID = st_inviteID (tt_status tt)"
    using s'(3) by (simp add: m' buildTokenSecret_def)
  ultimately show ?thesis using s'(1) k tok tt' by (auto simp: set_token_ref_def key_of_def)
qed

text \<open>When \<open>ensureTokenSecret\<close> succeeds, the tunnel's token Secret exists, carries a token and
  names the invite of the status, and the status refers to it; a current Secret is left as it is,
  so a token is never overwritten for the invite it belongs to.\<close>

theorem ensureTokenSecret_sound:
  assumes "secret_api r secs" and "lib_ok r"
    and "ensureTokenSecret r tt token w = ((None, tt'), w')"
  shows "\<exists>s. secs w' (m_ns (tt_meta tt), tokenSecretName (m_name (tt_meta tt))) = Some s \<and>
    mget (sec_data s) tokenDataKey \<noteq> [] \<and>
    mget (m_annotations (sec_meta s)) AnnotationInviteID = st_inviteID (tt_status tt) \<and>
    st_tokenSecretRef (tt_status tt') = Some \<lparr>sr_name = tokenSecretName (m_name (tt_meta tt)),
      sr_namespace = m_ns (tt_meta tt)\<rparr> \<and>
    (secs w' \<noteq> secs w \<longrightarrow> mget (sec_data s) tokenDataKey = token)"
proof -
  let ?key = "(m_ns (tt_meta tt), tokenSecretName (m_name (tt_meta tt)))"
  obtain got w1 where get: "tr_get_secret r ?key w = (got, w1)" by (metis prod.exhaust)
  have w1: "secs w1 = secs w"
    using get secret_get[OF assms(1), where k = ?key and w = w]
      secret_get_err[OF assms(1), where k = ?key and w = w] by (cases got) auto
  show ?thesis
  proof (cases "\<exists>s. got = Inr s \<and> \<not> tokenSecretNeedsWrite (Some s) (st_inviteID (tt_status tt))")
    case True
    then obtain s where s: "got = Inr s" "\<not> tokenSecretNeedsWrite (Some s) (st_inviteID (tt_status tt))" by blast
    then have "secs w ?key = Some s"
      using get secret_get[OF assms(1), where k = ?key and w = w] by simp
    moreover have "tt' = set_token_ref ?key tt" "w' = w1"
      using assms(3) get s by (simp_all add: ensureTokenSecret_def Let_def)
    ultimately show ?thesis using s(2) w1 by (auto simp: tokenSecretNeedsWrite_def set_token_ref_def)
  next
    case False
    then have "write_token r tt token ?key w1 = ((None, tt'), w')"
      using assms(3) get by (auto simp: ensureTokenSecret_def Let_def split: sum.splits if_splits)
    from write_token_secret[OF assms(1,2) refl this] show ?thesis by auto
  qed
qed


definition secret_reconciler :: "(nn \<Rightarrow> secret_obj option) tunnel_reconciler" where
  "secret_reconciler = idle_reconciler\<lparr>
     tr_get_secret := (\<lambda>k w. (case w k of None \<Rightarrow> Inl (KubeError RNotFound ''not found'') | Some s \<Rightarrow> Inr s, w)),
     tr_apply_secret := (\<lambda>s w. (None, w(key_of (sec_meta s) \<mapsto> s)))\<rparr>"

lemma secret_reconciler_api: "secret_api secret_reconciler (\<lambda>w. w)"
  by (auto simp: secret_api_def secret_reconciler_def split: option.splits)

lemma secret_reconciler_lib: "lib_ok secret_reconciler"
  using std_lib_ok by (simp add: lib_ok_def secret_reconciler_def idle_reconciler_def)

theorem ensureTokenSecret_sound_witness:
  "\<exists>tt' w' s. ensureTokenSecret secret_reconciler (new_tunnel ''ns'' ''t'') ''tok'' Map.empty = ((None, tt'), w') \<and>
     w' (''ns'', ''t-token'') = Some s \<and> mget (sec_data s) tokenDataKey = ''tok''"
proof -
  obtain tt' w' where run: "ensureTokenSecret secret_reconciler (new_tunnel ''ns'' ''t'') ''tok'' Map.empty =
      ((None, tt'), w')"
    by (simp add: ensureTokenSecret_def write_token_def secret_reconciler_def idle_reconciler_def
        std_lib_def Let_def)
  have m: "m_ns (tt_meta (new_tunnel ''ns'' ''t'')) = ''ns''"
    "tokenSecretName (m_name (tt_meta (new_tunnel ''ns'' ''t''))) = ''t-token''"
    by (simp_all add: new_tunnel_def new_meta_def tokenSecretName_def)
  show ?thesis
    using ensureTokenSecret_sound[OF secret_reconciler_api secret_reconciler_lib run] run
    unfolding m by auto
qed

section \<open>Waiting for a host name\<close>

text \<open>Until the tunnel or one of its agents asks for a host name, a tunnel without invite makes
  no request to the hub: whatever the transport, the outcome is the same with any other one.\<close>

theorem reconcile_live_waits:
  assumes "listReferencingAgents r tt (snd (resolveAPIKey r tt w)) = (Inr agents, w2)"
    and "desiredHostnames tt agents = []" and "st_inviteID (tt_status tt) = []"
  shows "reconcile_live r tt w = reconcile_live (r\<lparr>tr_http := http\<rparr>) tt w"
proof -
  let ?r = "r\<lparr>tr_http := http\<rparr>"
  have k: "resolveAPIKey ?r tt v = resolveAPIKey r tt v" for v
    by (simp add: resolveAPIKey_def split: option.split)
  have l: "listReferencingAgents ?r tt v = listReferencingAgents r tt v" for v
    by (simp add: listReferencingAgents_def)
  have c: "setCond ?r t s rs m x = setCond r t s rs m x" for t s rs m x by (simp add: setCond_def)
  have p: "park ?r x orig d v = park r x orig d v" for x orig d v
    by (simp add: park_def writeStatus_def)
  have e: "tunnel_event ?r x rs m v = tunnel_event r x rs m v" for x rs m v
    by (simp add: tunnel_event_def)
  obtain key w1 where key: "resolveAPIKey r tt w = (key, w1)" by (metis prod.exhaust)
  show ?thesis
    using assms key
    by (cases key) (auto simp: reconcile_live_def Let_def k l c p e split: option.split)
qed

text \<open>A reconciler that finds an API key in its environment.\<close>

definition keyed_reconciler :: "unit tunnel_reconciler" where
  "keyed_reconciler = idle_reconciler\<lparr>tr_getenv := \<lambda>k. ''key''\<rparr>"

theorem reconcile_live_waits_witness:
  "reconcile_live keyed_reconciler (new_tunnel ''ns'' ''t'') () = reconcile_live
     (keyed_reconciler\<lparr>tr_http := \<lambda>q w. (DoError (PlainError ''refused''), w)\<rparr>) (new_tunnel ''ns'' ''t'') ()"
proof (rule reconcile_live_waits)
  show "listReferencingAgents keyed_reconciler (new_tunnel ''ns'' ''t'')
      (snd (resolveAPIKey keyed_reconciler (new_tunnel ''ns'' ''t'') ())) = (Inr [], ())"
    by (simp add: listReferencingAgents_def keyed_reconciler_def idle_reconciler_def sort_agents_def)
  show "desiredHostnames (new_tunnel ''ns'' ''t'') [] = []" "st_inviteID (tt_status (new_tunnel ''ns'' ''t'')) = []"
    by (simp_all add: desiredHostnames_def new_tunnel_def zero_defs)
qed

end
