(* ===== verification/FakeHub.thy ===== *)
theory FakeHub
  imports HubClient
begin

text \<open>
  \<open>internal/towonel/towoneltest/hub.go\<close>: the in-memory hub the repository tests its operator
  against. It is the executable description of the hub contract the operator relies on, and the
  development interprets its hub locales on it. One definition per case of the handler's
  switch; the Go maps are association lists, and \<open>ListInvites\<close> answers in list order.

  The client encodes every request body with the codecs of \<open>HubClient\<close>; a body that does not
  decode is the zero request here. The HTTP server has decoded the path before the handler
  sees it.
\<close>

section \<open>State\<close>

record hub =
  hub_invites :: "(string \<times> invite) list"
  hub_tokens :: strmap
  hub_nextID :: int
  hub_created :: int
  hub_ports :: "(string \<times> reserve_port_response list) list"
  hub_taken :: "string list"
  hub_nextPort :: int
  hub_reservedHosts :: strmap
  hub_statuses :: "(string \<times> invite_status) list"
  hub_statusUnavailable :: bool
  hub_idPrefix :: string
  hub_hostnameDeleteNotFound :: "(string \<times> string) list"

definition NewHub :: "int \<Rightarrow> hub" where
  "NewHub seq = \<lparr>hub_invites = [], hub_tokens = [], hub_nextID = 0, hub_created = 0, hub_ports = [],
     hub_taken = [], hub_nextPort = 30000, hub_reservedHosts = [], hub_statuses = [],
     hub_statusUnavailable = False, hub_idPrefix = ''h'' @ itoa seq @ ''-'',
     hub_hostnameDeleteNotFound = []\<rparr>"

definition Seed :: "invite \<Rightarrow> hub \<Rightarrow> hub" where
  "Seed iv h = h\<lparr>hub_invites := AList.update (iv_inviteID iv) iv (hub_invites h),
     hub_reservedHosts :=
       fold (\<lambda>hn m. AList.update hn (iv_inviteID iv) m) (iv_hostnames iv) (hub_reservedHosts h)\<rparr>"

definition SeedInviteStatus :: "invite_status \<Rightarrow> hub \<Rightarrow> hub" where
  "SeedInviteStatus st h = h\<lparr>hub_statuses := AList.update (ivs_inviteID st) st (hub_statuses h)\<rparr>"

definition SetStatusUnavailable :: "bool \<Rightarrow> hub \<Rightarrow> hub" where
  "SetStatusUnavailable v h = h\<lparr>hub_statusUnavailable := v\<rparr>"

definition SetHostnameDeleteNotFound :: "string \<Rightarrow> string \<Rightarrow> bool \<Rightarrow> hub \<Rightarrow> hub" where
  "SetHostnameDeleteNotFound inviteID host v h = h\<lparr>hub_hostnameDeleteNotFound :=
     (if v then (inviteID, host) # hub_hostnameDeleteNotFound h
      else removeAll (inviteID, host) (hub_hostnameDeleteNotFound h))\<rparr>"

definition Revoke :: "string \<Rightarrow> hub \<Rightarrow> hub" where
  "Revoke inviteID h = (case map_of (hub_invites h) inviteID of
     None \<Rightarrow> h
   | Some iv \<Rightarrow>
       h\<lparr>hub_invites := AList.update inviteID (iv\<lparr>iv_status := ''revoked''\<rparr>) (hub_invites h)\<rparr>)"

definition Has :: "hub \<Rightarrow> string \<Rightarrow> bool" where
  "Has h i = (map_of (hub_invites h) i \<noteq> None)"

definition CreatedCount :: "hub \<Rightarrow> int" where
  "CreatedCount h = hub_created h"

definition HasHostname :: "hub \<Rightarrow> string \<Rightarrow> string \<Rightarrow> bool" where
  "HasHostname h inviteID host = (case map_of (hub_invites h) inviteID of
     None \<Rightarrow> False | Some iv \<Rightarrow> List.member (iv_hostnames iv) host)"

definition portKey :: "string \<Rightarrow> int \<Rightarrow> string" where
  "portKey protocol port = protocol @ ''/'' @ itoa port"

definition tenant_ports :: "hub \<Rightarrow> string \<Rightarrow> reserve_port_response list" where
  "tenant_ports h tenantID = (case map_of (hub_ports h) tenantID of None \<Rightarrow> [] | Some rs \<Rightarrow> rs)"

definition ReservationCount :: "hub \<Rightarrow> string \<Rightarrow> nat" where
  "ReservationCount h tenantID = length (tenant_ports h tenantID)"

definition SeedTakenPort :: "string \<Rightarrow> int \<Rightarrow> hub \<Rightarrow> hub" where
  "SeedTakenPort protocol port h = h\<lparr>hub_taken := List.insert (portKey protocol port) (hub_taken h)\<rparr>"

definition SeedReservation :: "string \<Rightarrow> reserve_port_response \<Rightarrow> hub \<Rightarrow> hub" where
  "SeedReservation tenantID r h =
     h\<lparr>hub_ports := AList.update tenantID (tenant_ports h tenantID @ [r]) (hub_ports h),
       hub_taken := List.insert (portKey (rr_protocol r) (rr_port r)) (hub_taken h)\<rparr>"

definition HasReservation :: "hub \<Rightarrow> string \<Rightarrow> string \<Rightarrow> int \<Rightarrow> bool" where
  "HasReservation h tenantID protocol port =
     list_ex (\<lambda>r. rr_protocol r = protocol \<and> rr_port r = port) (tenant_ports h tenantID)"

section \<open>The handler\<close>

definition resp_json :: "json \<Rightarrow> http_response" where
  "resp_json j = \<lparr>hs_status = 200, hs_retryAfter = [], hs_body = JsonBody j\<rparr>"

definition resp_status :: "int \<Rightarrow> http_response" where
  "resp_status n = \<lparr>hs_status = n, hs_retryAfter = [], hs_body = NoBody\<rparr>"

definition resp_text :: "int \<Rightarrow> string \<Rightarrow> http_response" where
  "resp_text n s = \<lparr>hs_status = n, hs_retryAfter = [], hs_body = TextBody s\<rparr>"

definition decode_body :: "(json \<Rightarrow> 'a option) \<Rightarrow> 'a \<Rightarrow> json option \<Rightarrow> 'a" where
  "decode_body dec zero b = (case b of None \<Rightarrow> zero | Some j \<Rightarrow> (case dec j of None \<Rightarrow> zero | Some a \<Rightarrow> a))"

definition opt_str :: "string option \<Rightarrow> string" where
  "opt_str s = (case s of None \<Rightarrow> [] | Some t \<Rightarrow> t)"

definition zero_create_invite_request :: create_invite_request where
  "zero_create_invite_request = \<lparr>cr_hostnames = [], cr_name = None, cr_region = None,
     cr_failoverRegions = [], cr_expiresInSecs = None, cr_ownerEmail = None\<rparr>"

definition zero_reserve_port_request :: reserve_port_request where
  "zero_reserve_port_request = \<lparr>rp_protocol = [], rp_preferred = None, rp_ip = None, rp_label = None\<rparr>"

definition handle_create_invite :: "create_invite_request \<Rightarrow> hub \<Rightarrow> http_response \<times> hub" where
  "handle_create_invite body h =
     (let n = hub_nextID h + 1;
          iid = ''inv-'' @ hub_idPrefix h @ itoa n;
          name = opt_str (cr_name body);
          iv = \<lparr>iv_inviteID = iid, iv_tenantID = ''ten-'' @ iid, iv_name = name,
                 iv_hostnames = cr_hostnames body, iv_region = opt_str (cr_region body),
                 iv_status = ''pending'', iv_expiresAtMs = None\<rparr>
      in (resp_json (enc_create_invite_response \<lparr>co_status = ''ok'', co_token = ''tok-'' @ iid,
            co_inviteID = iid, co_tenantID = ''ten-'' @ iid, co_name = name, co_expiresAtMs = None\<rparr>),
          h\<lparr>hub_nextID := n, hub_created := hub_created h + 1,
            hub_invites := AList.update iid iv (hub_invites h),
            hub_tokens := AList.update iid (''tok-'' @ iid) (hub_tokens h),
            hub_reservedHosts :=
              fold (\<lambda>hn m. AList.update hn iid m) (cr_hostnames body) (hub_reservedHosts h)\<rparr>))"

definition handle_list_invites :: "hub \<Rightarrow> http_response \<times> hub" where
  "handle_list_invites h = (resp_json (JArr (map (\<lambda>p. enc_invite (snd p)) (hub_invites h))), h)"

definition handle_invite_status :: "string \<Rightarrow> hub \<Rightarrow> http_response \<times> hub" where
  "handle_invite_status iid h =
     (case map_of (hub_invites h) iid of
        None \<Rightarrow> (resp_status 404, h)
      | Some iv \<Rightarrow>
          if hub_statusUnavailable h then (resp_status 404, h)
          else (case map_of (hub_statuses h) iid of
              Some st \<Rightarrow> (resp_json (enc_invite_status st), h)
            | None \<Rightarrow> (resp_json (enc_invite_status \<lparr>ivs_inviteID = iid, ivs_tenantID = iv_tenantID iv,
                ivs_regions = [\<lparr>rs_region = cmp_or (iv_region iv) ''EU'', rs_role = ''primary'',
                                rs_edges = []\<rparr>]\<rparr>), h)))"

definition handle_get_invite :: "string \<Rightarrow> hub \<Rightarrow> http_response \<times> hub" where
  "handle_get_invite iid h =
     (case map_of (hub_invites h) iid of
        None \<Rightarrow> (resp_status 404, h)
      | Some iv \<Rightarrow> (resp_json (enc_invite iv), h))"

definition conflict_body :: "string \<Rightarrow> string" where
  "conflict_body hn =
     ''{\"error\":{\"code\":\"hostname_conflict\",\"message\":\"hostname '' @ hn @
     '' is already reserved by an active invite\"}}''"

definition handle_add_hostnames :: "string \<Rightarrow> string list \<Rightarrow> hub \<Rightarrow> http_response \<times> hub" where
  "handle_add_hostnames iid hns h =
     (case map_of (hub_invites h) iid of
        None \<Rightarrow> (resp_status 404, h)
      | Some iv \<Rightarrow>
          (case find (\<lambda>hn. has_key (hub_reservedHosts h) hn) hns of
             Some hn \<Rightarrow> (resp_text 409 (conflict_body hn), h)
           | None \<Rightarrow>
               (resp_json (enc_add_hostnames_response \<lparr>ah_status = ''ok'', ah_hostnames = hns\<rparr>),
                h\<lparr>hub_reservedHosts :=
                    fold (\<lambda>hn m. AList.update hn iid m) hns (hub_reservedHosts h),
                  hub_invites := AList.update iid (iv\<lparr>iv_hostnames := iv_hostnames iv @ hns\<rparr>)
                    (hub_invites h)\<rparr>)))"

definition handle_remove_hostname :: "string \<Rightarrow> string \<Rightarrow> hub \<Rightarrow> http_response \<times> hub" where
  "handle_remove_hostname iid host h =
     (if List.member (hub_hostnameDeleteNotFound h) (iid, host)
      then (resp_text 404 ''{\"error\":\"hostname not found on invite\"}'', h)
      else (case map_of (hub_invites h) iid of
              None \<Rightarrow> (resp_status 404, h)
            | Some iv \<Rightarrow>
                let rest = filter (\<lambda>hn. hn \<noteq> host) (iv_hostnames iv)
                in (resp_json (enc_remove_hostname_response
                      \<lparr>rh_status = ''ok'', rh_hostname = host, rh_remaining = rest\<rparr>),
                    h\<lparr>hub_invites := AList.update iid (iv\<lparr>iv_hostnames := rest\<rparr>) (hub_invites h),
                      hub_reservedHosts := AList.delete host (hub_reservedHosts h)\<rparr>)))"

definition handle_delete_invite :: "string \<Rightarrow> hub \<Rightarrow> http_response \<times> hub" where
  "handle_delete_invite iid h =
     (case map_of (hub_invites h) iid of
        None \<Rightarrow> (resp_status 404, h)
      | Some iv \<Rightarrow>
          (resp_status 200,
           h\<lparr>hub_reservedHosts := fold AList.delete (iv_hostnames iv) (hub_reservedHosts h),
             hub_invites := AList.delete iid (hub_invites h)\<rparr>))"

text \<open>\<open>nextPort\<close> is an \<open>int32\<close>, and a port of the path is parsed into one.\<close>

definition parse_int32 :: "string \<Rightarrow> int" where
  "parse_int32 s =
     (let (neg, ds) = (case s of [] \<Rightarrow> (False, [])
                       | c # t \<Rightarrow> if c = CHR ''-'' then (True, t)
                                 else if c = CHR ''+'' then (False, t) else (False, s))
      in if ds = [] \<or> \<not> list_all is_digit ds then 0
         else max (- 2147483648) (min 2147483647 (if neg then - digits_val ds else digits_val ds)))"

definition handle_reserve_port ::
  "string \<Rightarrow> reserve_port_request \<Rightarrow> hub \<Rightarrow> http_response \<times> hub" where
  "handle_reserve_port tenant body h =
     (let grant = (\<lambda>port h.
        (let resp = \<lparr>rr_status = ''ok'', rr_port = port, rr_protocol = rp_protocol body,
               rr_claimedAtMs = 1, rr_ip = None, rr_label = rp_label body,
               rr_edge = Some \<lparr>ei_nodeID = ''edge-1'', ei_addresses = [''203.0.113.10'']\<rparr>\<rparr>
         in (resp_json (enc_reserve_port_response resp),
             h\<lparr>hub_taken := List.insert (portKey (rp_protocol body) port) (hub_taken h),
               hub_ports := AList.update tenant (tenant_ports h tenant @ [resp]) (hub_ports h)\<rparr>)))
      in (case rp_preferred body of
            Some p \<Rightarrow>
              if List.member (hub_taken h) (portKey (rp_protocol body) p)
              then (resp_text 409 ''{\"error\":\"port taken\"}'', h)
              else grant p h
          | None \<Rightarrow> grant (hub_nextPort h) (h\<lparr>hub_nextPort := wrap32 (hub_nextPort h + 1)\<rparr>)))"

definition handle_list_ports :: "string \<Rightarrow> hub \<Rightarrow> http_response \<times> hub" where
  "handle_list_ports tenant h =
     (resp_json (JArr (map enc_reserve_port_response (tenant_ports h tenant))), h)"

definition handle_release_port :: "string \<Rightarrow> hub \<Rightarrow> http_response \<times> hub" where
  "handle_release_port rest h =
     (case cut rest ''/ports/'' of
        None \<Rightarrow> (resp_status 400, h)
      | Some (tenant, protoPort) \<Rightarrow>
          (case cut protoPort ''/'' of
             None \<Rightarrow> (resp_status 400, h)
           | Some (proto, portStr) \<Rightarrow>
               let port = parse_int32 portStr;
                   kept = filter (\<lambda>r. \<not> (rr_protocol r = proto \<and> rr_port r = port)) (tenant_ports h tenant);
                   h' = h\<lparr>hub_ports := AList.update tenant kept (hub_ports h)\<rparr>
               in if length kept = length (tenant_ports h tenant) then (resp_status 404, h')
                  else (resp_status 200, h'\<lparr>hub_taken := removeAll (portKey proto port) (hub_taken h)\<rparr>)))"

text \<open>The switch. \<open>p\<close> is the decoded path, without the query.\<close>

definition hub_handler :: "string \<Rightarrow> string \<Rightarrow> json option \<Rightarrow> hub \<Rightarrow> http_response \<times> hub" where
  "hub_handler mthd p body h =
     (let iv = ''/v1/invites/''; ten = ''/v1/tenants/'' in
      if mthd = ''POST'' \<and> p = ''/v1/invites'' then
        handle_create_invite (decode_body dec_create_invite_request zero_create_invite_request body) h
      else if mthd = ''GET'' \<and> p = ''/v1/invites'' then handle_list_invites h
      else if mthd = ''GET'' \<and> has_prefix p iv \<and> has_suffix p ''/status'' then
        handle_invite_status (trim_suffix (trim_prefix p iv) ''/status'') h
      else if mthd = ''GET'' \<and> has_prefix p iv then handle_get_invite (trim_prefix p iv) h
      else if mthd = ''POST'' \<and> has_suffix p ''/hostnames'' then
        handle_add_hostnames (trim_suffix (trim_prefix p iv) ''/hostnames'')
          (decode_body dec_add_hostnames_request [] body) h
      else if mthd = ''DELETE'' \<and> str_contains p ''/hostnames/'' then
        (case cut (trim_prefix p iv) ''/hostnames/'' of
           Some (iid, host) \<Rightarrow> handle_remove_hostname iid host h
         | None \<Rightarrow> handle_remove_hostname (trim_prefix p iv) [] h)
      else if mthd = ''DELETE'' \<and> has_prefix p iv then handle_delete_invite (trim_prefix p iv) h
      else if mthd = ''POST'' \<and> has_prefix p ten \<and> has_suffix p ''/ports'' then
        handle_reserve_port (trim_suffix (trim_prefix p ten) ''/ports'')
          (decode_body dec_reserve_port_request zero_reserve_port_request body) h
      else if mthd = ''GET'' \<and> has_prefix p ten \<and> has_suffix p ''/ports'' then
        handle_list_ports (trim_suffix (trim_prefix p ten) ''/ports'') h
      else if mthd = ''DELETE'' \<and> has_prefix p ten \<and> str_contains p ''/ports/'' then
        handle_release_port (trim_prefix p ten) h
      else (resp_status 404, h))"

end
