(* ===== verification/FakeHubClient.thy ===== *)
theory FakeHubClient
  imports FakeHub HubContract
begin

text \<open>
  The client of \<open>HubClient\<close> talking to the hub of \<open>FakeHub\<close>: what each operation returns and
  how it changes the hub, for identifiers that survive the routing of the handler.
\<close>

section \<open>The wire between them\<close>

text \<open>The world of a test: the hub, and everything else.\<close>

record 'k fake_world =
  fw_hub :: hub
  fw_rest :: 'k

definition url_path :: "string \<Rightarrow> string" where
  "url_path p = path_unescape (takeWhile (\<lambda>c. c \<noteq> CHR ''?'') p)"

definition fake_http :: "'k fake_world http" where
  "fake_http q w =
     (let (resp, h) = hub_handler (hq_method q) (url_path (hq_path q)) (hq_body q) (fw_hub w)
      in (Response resp, w\<lparr>fw_hub := h\<rparr>))"

lemma hex_val_upper: "d < 16 \<Longrightarrow> hex_val (upper_hex_digit d) = d"
  by (auto simp: hex_val_def upper_hex_digit_def Let_def)

lemma path_unescape_hex:
  "path_unescape (CHR ''%'' # upper_hex_digit (of_char c div 16) # upper_hex_digit (of_char c mod 16) # s) =
     c # path_unescape s"
proof -
  have "(of_char c :: nat) div 16 < 16"
    using nat_of_char_less_256[of c] by (simp add: less_mult_imp_div_less)
  then show ?thesis by (simp add: hex_val_upper mult.commute[of _ 16] del: nat_of_char_less_256)
qed

lemma path_unescape_Cons: "c \<noteq> CHR ''%'' \<Longrightarrow> path_unescape (c # s) = c # path_unescape s"
  by (cases "c # s" rule: path_unescape.cases) auto

declare path_unescape.simps [simp del]

lemma path_unescape_Nil [simp]: "path_unescape [] = []"
  by (simp add: path_unescape.simps)

lemma path_unescape_literal: "CHR ''%'' \<notin> set p \<Longrightarrow> path_unescape (p @ s) = p @ path_unescape s"
  by (induction p) (auto simp: path_unescape_Cons)

lemma path_unescape_escape: "path_unescape (path_escape s @ t) = s @ path_unescape t"
proof (induction s)
  case (Cons c s)
  have "\<not> path_safe (CHR ''%'')"
    by (simp add: path_safe_def is_lower_def is_upper_def is_digit_def Let_def)
  then have "path_safe c \<Longrightarrow> c \<noteq> CHR ''%''" by auto
  with Cons show ?case
    by (auto simp: path_escape_def path_unescape_Cons path_unescape_hex)
qed (simp add: path_escape_def)

lemma path_escape_no_query: "CHR ''?'' \<notin> set (path_escape s)"
proof -
  have u: "CHR ''?'' \<noteq> upper_hex_digit d" if "d < 16" for d
  proof
    assume h: "CHR ''?'' = upper_hex_digit d"
    then have "of_char (CHR ''?'') = (of_char (upper_hex_digit d) :: nat)" by (rule arg_cong)
    then show False using that by (simp add: upper_hex_digit_def split: if_splits)
  qed
  have d: "(of_char c :: nat) div 16 < 16" for c :: char
    using nat_of_char_less_256[of c] by (simp add: less_mult_imp_div_less)
  have "\<not> path_safe (CHR ''?'')"
    by (simp add: path_safe_def is_lower_def is_upper_def is_digit_def Let_def)
  then show ?thesis by (auto simp: path_escape_def u d split: if_splits)
qed


lemma url_path_eq: "CHR ''?'' \<notin> set p \<Longrightarrow> url_path p = path_unescape p"
proof -
  assume "CHR ''?'' \<notin> set p"
  then have "takeWhile (\<lambda>c. c \<noteq> CHR ''?'') p = p" by (auto simp: takeWhile_eq_all_conv)
  then show ?thesis by (simp only: url_path_def)
qed

lemma url_paths:
  "url_path ''/v1/invites'' = ''/v1/invites''"
  "url_path (invite_path i) = ''/v1/invites/'' @ i"
  "url_path (invite_path i @ ''/hostnames'') = ''/v1/invites/'' @ i @ ''/hostnames''"
  "url_path (invite_path i @ ''/status'') = ''/v1/invites/'' @ i @ ''/status''"
  "url_path (invite_path i @ ''/hostnames/'' @ path_escape h) = ''/v1/invites/'' @ i @ ''/hostnames/'' @ h"
  "url_path (tenant_path t) = ''/v1/tenants/'' @ t @ ''/ports''"
  "url_path (tenant_path t @ ''/'' @ path_escape q @ ''/'' @ itoa n) =
     ''/v1/tenants/'' @ t @ ''/ports/'' @ q @ ''/'' @ itoa n"
proof -
  have esc0: "path_unescape (path_escape s) = s" for s
    using path_unescape_escape[of s "[]"] by simp
  have num: "path_unescape (itoa n) = itoa n" "CHR ''?'' \<notin> set (itoa n)" for n
  proof -
    have d: "c \<in> set (itoa n) \<Longrightarrow> c = CHR ''-'' \<or> is_digit c" for c
      using nat_str_digits by (auto simp: itoa_def list_all_iff split: if_splits)
    have nd: "\<not> is_digit (CHR ''%'')" "\<not> is_digit (CHR ''?'')" by (simp_all add: is_digit_def)
    show "CHR ''?'' \<notin> set (itoa n)" using d nd by fastforce
    have "CHR ''%'' \<notin> set (itoa n)" using d nd by fastforce
    then show "path_unescape (itoa n) = itoa n"
      using path_unescape_literal[of "itoa n" "[]"] by simp
  qed
  show "url_path ''/v1/invites'' = ''/v1/invites''"
    by (subst url_path_eq) (simp_all add: path_unescape_Cons)
  show "url_path (invite_path i) = ''/v1/invites/'' @ i"
    unfolding invite_path_def
    by (subst url_path_eq) (auto simp: path_escape_no_query path_unescape_Cons esc0)
  show "url_path (invite_path i @ ''/hostnames'') = ''/v1/invites/'' @ i @ ''/hostnames''"
    unfolding invite_path_def
    by (subst url_path_eq) (auto simp: path_escape_no_query path_unescape_Cons path_unescape_escape)
  show "url_path (invite_path i @ ''/status'') = ''/v1/invites/'' @ i @ ''/status''"
    unfolding invite_path_def
    by (subst url_path_eq) (auto simp: path_escape_no_query path_unescape_Cons path_unescape_escape)
  show "url_path (invite_path i @ ''/hostnames/'' @ path_escape h) =
      ''/v1/invites/'' @ i @ ''/hostnames/'' @ h"
    unfolding invite_path_def
    by (subst url_path_eq) (auto simp: path_escape_no_query path_unescape_Cons path_unescape_escape esc0)
  show "url_path (tenant_path t) = ''/v1/tenants/'' @ t @ ''/ports''"
    unfolding tenant_path_def
    by (subst url_path_eq) (auto simp: path_escape_no_query path_unescape_Cons path_unescape_escape)
  show "url_path (tenant_path t @ ''/'' @ path_escape q @ ''/'' @ itoa n) =
     ''/v1/tenants/'' @ t @ ''/ports/'' @ q @ ''/'' @ itoa n"
    unfolding tenant_path_def
    by (subst url_path_eq)
      (auto simp: path_escape_no_query path_unescape_Cons path_unescape_escape num)
qed


section \<open>Routing of the requests\<close>

text \<open>Identifiers the hub's routing keeps apart from its literal path segments.\<close>

definition id_ok :: "string \<Rightarrow> bool" where
  "id_ok i \<longleftrightarrow> CHR ''/'' \<notin> set i \<and> i \<noteq> ''status''"

lemma has_suffix_segment:
  assumes "CHR ''/'' \<notin> set t"
  shows "has_suffix s (CHR ''/'' # t) \<longleftrightarrow> (\<exists>b. cut_last s (CHR ''/'') = Some (b, t))"
  using assms by (auto simp: has_suffix_iff cut_last_Some)

lemma cut_last_invite:
  assumes "CHR ''/'' \<notin> set i"
  shows "cut_last (''/v1/invites/'' @ i) (CHR ''/'') = Some (''/v1/invites'', i)"
  using cut_last_append[OF assms, of "''/v1/invites''"] by simp

lemma cut_segment:
  assumes "CHR ''/'' \<notin> set i"
  shows "cut (i @ CHR ''/'' # t @ r) (CHR ''/'' # t) = Some (i, r)"
  using assms by (induction i) auto

lemma cut_no_sep:
  assumes "CHR ''/'' \<notin> set s"
  shows "cut s (CHR ''/'' # t) = None"
  using assms by (induction s) auto

lemma str_contains_Cons:
  "str_contains (c # s) p \<longleftrightarrow> has_prefix (c # s) p \<or> str_contains s p"
  by (auto simp: str_contains_def has_prefix_def split: option.splits)

lemma str_contains_infix: "str_contains (a @ sub @ b) sub"
proof (induction a)
  case Nil
  show ?case
  proof (cases "sub @ b")
    case Nil
    then show ?thesis by (simp add: str_contains_def)
  next
    case (Cons c s)
    have "has_prefix (sub @ b) sub" by (rule has_prefix_append)
    then show ?thesis by (simp add: str_contains_Cons Cons)
  qed
next
  case (Cons c a)
  then show ?case by (simp add: str_contains_Cons)
qed

lemma str_contains_segment:
  assumes "CHR ''/'' \<notin> set t"
  shows "str_contains (t @ CHR ''/'' # r) (CHR ''/'' # u) \<longleftrightarrow>
    has_prefix r u \<or> str_contains r (CHR ''/'' # u)"
  using assms by (induction t) (auto simp: str_contains_Cons has_prefix_def)

lemma str_contains_no_sep: "CHR ''/'' \<notin> set s \<Longrightarrow> \<not> str_contains s (CHR ''/'' # u)"
  by (simp add: str_contains_def cut_no_sep)

lemma has_prefix_segment:
  assumes "CHR ''/'' \<notin> set q" and "CHR ''/'' \<notin> set u"
  shows "has_prefix (q @ CHR ''/'' # r) (u @ [CHR ''/'']) \<longleftrightarrow> q = u"
proof
  assume "has_prefix (q @ CHR ''/'' # r) (u @ [CHR ''/''])"
  then obtain v where v: "q @ CHR ''/'' # r = u @ CHR ''/'' # v" by (auto simp: has_prefix_iff)
  then have "cut (u @ CHR ''/'' # v) [CHR ''/''] = Some (q, r)"
    using assms(1) by (metis cut_char_append)
  then show "q = u" using cut_char_append[OF assms(2), of v] by simp
next
  assume "q = u"
  then show "has_prefix (q @ CHR ''/'' # r) (u @ [CHR ''/''])" by (auto simp: has_prefix_iff)
qed

lemma cut_prefix_no_sep: "c \<in> set p \<Longrightarrow> c \<notin> set s \<Longrightarrow> cut_prefix s p = None"
  by (induction s p rule: cut_prefix.induct) auto

lemma route_invite:
  assumes "id_ok i"
  shows "hub_handler ''GET'' (''/v1/invites/'' @ i) b h = handle_get_invite i h"
    and "hub_handler ''DELETE'' (''/v1/invites/'' @ i) b h = handle_delete_invite i h"
proof -
  let ?p = "''/v1/invites/'' @ i"
  have i: "CHR ''/'' \<notin> set i" "i \<noteq> ''status''" using assms by (auto simp: id_ok_def)
  have "\<not> has_suffix ?p ''/status''"
    using i has_suffix_segment[of "''status''" ?p] cut_last_invite[OF i(1)] by auto
  moreover have "has_prefix ?p ''/v1/invites/''" by (rule has_prefix_append)
  moreover have t: "trim_prefix ?p ''/v1/invites/'' = i" by (rule trim_prefix_append)
  moreover have n: "?p \<noteq> ''/v1/invites''" by simp
  ultimately show "hub_handler ''GET'' ?p b h = handle_get_invite i h"
    by (simp only: hub_handler_def Let_def) simp
  have "\<not> str_contains ?p ''/hostnames/''"
    using cut_no_sep[OF i(1), of "''hostnames/''"]
      cut_prefix_no_sep[of "CHR ''/''" "''hostnames/''" i] i(1)
    by (simp add: str_contains_def)
  moreover have "has_prefix ?p ''/v1/invites/''" by (rule has_prefix_append)
  ultimately show "hub_handler ''DELETE'' ?p b h = handle_delete_invite i h"
    using t by (simp only: hub_handler_def Let_def) simp
qed

lemma route_hostnames:
  assumes "id_ok i"
  shows "hub_handler ''POST'' (''/v1/invites/'' @ i @ ''/hostnames'') b h =
      handle_add_hostnames i (decode_body dec_add_hostnames_request [] b) h"
    and "hub_handler ''DELETE'' (''/v1/invites/'' @ i @ ''/hostnames/'' @ hn) b h =
      handle_remove_hostname i hn h"
proof -
  let ?p = "''/v1/invites/'' @ i @ ''/hostnames''" and ?q = "''/v1/invites/'' @ i @ ''/hostnames/'' @ hn"
  have i: "CHR ''/'' \<notin> set i" using assms by (auto simp: id_ok_def)
  have "has_suffix ?p ''/hostnames''"
    using has_suffix_append[of "''/v1/invites/'' @ i" "''/hostnames''"] by simp
  moreover have "trim_prefix ?p ''/v1/invites/'' = i @ ''/hostnames''" by (rule trim_prefix_append)
  moreover have "trim_suffix (i @ ''/hostnames'') ''/hostnames'' = i" by (rule trim_suffix_append)
  moreover have n: "?p \<noteq> ''/v1/invites''" by simp
  ultimately show "hub_handler ''POST'' ?p b h =
      handle_add_hostnames i (decode_body dec_add_hostnames_request [] b) h"
    by (simp only: hub_handler_def Let_def) simp
  have c: "cut (i @ ''/hostnames/'' @ hn) ''/hostnames/'' = Some (i, hn)"
    using cut_segment[OF i, of "''hostnames/''" hn] by simp
  moreover have "str_contains ?q ''/hostnames/''"
    using str_contains_infix[of "''/v1/invites/'' @ i" "''/hostnames/''" hn] by simp
  moreover have "trim_prefix ?q ''/v1/invites/'' = i @ ''/hostnames/'' @ hn" by (rule trim_prefix_append)
  ultimately show "hub_handler ''DELETE'' ?q b h = handle_remove_hostname i hn h"
    by (simp only: hub_handler_def Let_def) simp
qed


lemma route_invites:
  "hub_handler ''POST'' ''/v1/invites'' b h =
     handle_create_invite (decode_body dec_create_invite_request zero_create_invite_request b) h"
  "hub_handler ''GET'' ''/v1/invites'' b h = handle_list_invites h"
  by (simp_all add: hub_handler_def)

lemma route_ports:
  assumes "CHR ''/'' \<notin> set t"
  shows "hub_handler ''POST'' (''/v1/tenants/'' @ t @ ''/ports'') b h =
      handle_reserve_port t (decode_body dec_reserve_port_request zero_reserve_port_request b) h"
    and "hub_handler ''GET'' (''/v1/tenants/'' @ t @ ''/ports'') b h = handle_list_ports t h"
proof -
  let ?p = "''/v1/tenants/'' @ t @ ''/ports''"
  have l: "cut_last ?p (CHR ''/'') = Some (''/v1/tenants/'' @ t, ''ports'')"
    using cut_last_append[of "CHR ''/''" "''ports''" "''/v1/tenants/'' @ t"] by simp
  have s: "\<not> has_suffix ?p ''/hostnames''" "\<not> has_suffix ?p ''/status''"
    using has_suffix_segment[of "''hostnames''" ?p] has_suffix_segment[of "''status''" ?p] l by auto
  have q: "has_suffix ?p ''/ports''"
    using has_suffix_append[of "''/v1/tenants/'' @ t" "''/ports''"] by simp
  have x: "has_prefix ?p ''/v1/tenants/''" "trim_prefix ?p ''/v1/tenants/'' = t @ ''/ports''"
    by (rule has_prefix_append, rule trim_prefix_append)
  have y: "trim_suffix (t @ ''/ports'') ''/ports'' = t" by (rule trim_suffix_append)
  have n: "?p \<noteq> ''/v1/invites''" "\<not> has_prefix ?p ''/v1/invites/''"
    by (simp_all add: has_prefix_def)
  show "hub_handler ''POST'' ?p b h =
      handle_reserve_port t (decode_body dec_reserve_port_request zero_reserve_port_request b) h"
    using s q x y n by (simp only: hub_handler_def Let_def) simp
  show "hub_handler ''GET'' ?p b h = handle_list_ports t h"
    using s q x y n by (simp only: hub_handler_def Let_def) simp
qed

lemma route_release:
  assumes "CHR ''/'' \<notin> set t" "CHR ''/'' \<notin> set q" and "t \<noteq> ''hostnames''" "q \<noteq> ''hostnames''"
  shows "hub_handler ''DELETE'' (''/v1/tenants/'' @ t @ ''/ports/'' @ q @ ''/'' @ itoa n) b h =
    handle_release_port (t @ ''/ports/'' @ q @ ''/'' @ itoa n) h"
proof -
  let ?p = "''/v1/tenants/'' @ t @ ''/ports/'' @ q @ ''/'' @ itoa n"
  have x: "has_prefix ?p ''/v1/tenants/''" "trim_prefix ?p ''/v1/tenants/'' = t @ ''/ports/'' @ q @ ''/'' @ itoa n"
    by (rule has_prefix_append, rule trim_prefix_append)
  have n: "\<not> has_prefix ?p ''/v1/invites/''" by (simp add: has_prefix_def)
  have c: "str_contains ?p ''/ports/''"
    using cut_segment[OF assms(1), of "''ports/''" "q @ ''/'' @ itoa n"]
    by (simp add: str_contains_def split: option.split)
  have hq: "\<not> has_prefix (q @ CHR ''/'' # itoa n) ''hostnames/''"
    using has_prefix_segment[OF assms(2), of "''hostnames''"] assms(4) by simp
  have ht: "\<not> has_prefix (t @ CHR ''/'' # ''ports/'' @ q @ CHR ''/'' # itoa n) ''hostnames/''"
    using has_prefix_segment[OF assms(1), of "''hostnames''"] assms(3) by simp
  have hn: "\<not> has_prefix (itoa n) ''hostnames/''"
    using cut_prefix_no_sep[OF _ itoa_no_slash, of "''hostnames/''"] by (simp add: has_prefix_def)
  have d: "\<not> str_contains ?p ''/hostnames/''"
    using assms hq ht hn str_contains_no_sep[OF itoa_no_slash, of n "''hostnames/''"]
    by (simp add: str_contains_Cons str_contains_segment has_prefix_def)
  show ?thesis
    using x n c d by (simp only: hub_handler_def Let_def) simp
qed


section \<open>The client's operations on the fake hub\<close>

lemma client_do_fake:
  "client_do fake_http c m p b dec zero w =
     (let (resp, h) = hub_handler m (url_path p) b (fw_hub w)
      in (read_response dec zero (Response resp), w\<lparr>fw_hub := h\<rparr>))"
  by (simp add: client_do_def fake_http_def split: prod.splits)

lemma client_do_nil_fake:
  "client_do_nil fake_http c m p w =
     (let (resp, h) = hub_handler m (url_path p) None (fw_hub w)
      in (if hs_status resp < 200 \<or> hs_status resp \<ge> 300
          then Some (APIError (hs_status resp) (body_text (hs_body resp))
            (if hs_status resp = 429 then parseRetryAfter (hs_retryAfter resp) (body_text (hs_body resp))
             else 0))
          else None, w\<lparr>fw_hub := h\<rparr>))"
  by (simp add: client_do_nil_def fake_http_def read_response_def split: prod.splits)

lemma read_simps [simp]:
  "read_response dec zero (Response (resp_json j)) =
     (case dec j of Some a \<Rightarrow> Inr a | None \<Rightarrow> Inl decode_error)"
  "n \<ge> 300 \<Longrightarrow> n \<noteq> 429 \<Longrightarrow> read_response dec zero (Response (resp_status n)) = Inl (APIError n [] 0)"
  "n \<ge> 300 \<Longrightarrow> n \<noteq> 429 \<Longrightarrow> read_response dec zero (Response (resp_text n t)) = Inl (APIError n t 0)"
  by (simp_all add: read_response_def resp_json_def resp_status_def resp_text_def)

lemma decode_body_simps [simp]: "dec j = Some a \<Longrightarrow> decode_body dec zero (Some j) = a"
  by (simp add: decode_body_def)

lemma fake_GetInvite:
  assumes "id_ok i"
  shows "GetInvite fake_http c i w =
    ((case map_of (hub_invites (fw_hub w)) i of
        None \<Rightarrow> Inl (APIError 404 [] 0) | Some iv \<Rightarrow> Inr iv), w)"
  by (simp add: GetInvite_def client_do_fake url_paths[simplified] route_invite(1)[OF assms, simplified]
      handle_get_invite_def split: option.split)

lemma fake_AddHostnames:
  assumes "id_ok i"
  shows "AddHostnames fake_http c i hns w =
    (case map_of (hub_invites (fw_hub w)) i of
       None \<Rightarrow> (Inl (APIError 404 [] 0), w)
     | Some iv \<Rightarrow>
         (case find (\<lambda>hn. has_key (hub_reservedHosts (fw_hub w)) hn) hns of
            Some hn \<Rightarrow> (Inl (APIError 409 (conflict_body hn) 0), w)
          | None \<Rightarrow> (Inr \<lparr>ah_status = ''ok'', ah_hostnames = hns\<rparr>,
              w\<lparr>fw_hub := fw_hub w\<lparr>
                hub_reservedHosts :=
                  fold (\<lambda>hn m. AList.update hn i m) hns (hub_reservedHosts (fw_hub w)),
                hub_invites := AList.update i (iv\<lparr>iv_hostnames := iv_hostnames iv @ hns\<rparr>)
                  (hub_invites (fw_hub w))\<rparr>\<rparr>)))"
  by (simp add: AddHostnames_def client_do_fake url_paths[simplified] route_hostnames(1)[OF assms, simplified]
      handle_add_hostnames_def split: option.split)

lemma fake_RemoveHostname:
  assumes "id_ok i"
  shows "RemoveHostname fake_http c i host w =
    (if List.member (hub_hostnameDeleteNotFound (fw_hub w)) (i, host)
     then (Inl (APIError 404 ''{\"error\":\"hostname not found on invite\"}'' 0), w)
     else (case map_of (hub_invites (fw_hub w)) i of
       None \<Rightarrow> (Inl (APIError 404 [] 0), w)
     | Some iv \<Rightarrow>
         let rest = filter (\<lambda>hn. hn \<noteq> host) (iv_hostnames iv)
         in (Inr \<lparr>rh_status = ''ok'', rh_hostname = host, rh_remaining = rest\<rparr>,
             w\<lparr>fw_hub := fw_hub w\<lparr>
               hub_invites := AList.update i (iv\<lparr>iv_hostnames := rest\<rparr>) (hub_invites (fw_hub w)),
               hub_reservedHosts := AList.delete host (hub_reservedHosts (fw_hub w))\<rparr>\<rparr>)))"
  by (simp add: RemoveHostname_def client_do_fake url_paths[simplified] route_hostnames(2)[OF assms, simplified]
      handle_remove_hostname_def Let_def split: option.split)

lemma fake_DeleteInvite:
  assumes "id_ok i"
  shows "DeleteInvite fake_http c i w =
    (case map_of (hub_invites (fw_hub w)) i of
       None \<Rightarrow> (Some (APIError 404 [] 0), w)
     | Some iv \<Rightarrow> (None, w\<lparr>fw_hub := fw_hub w\<lparr>
         hub_reservedHosts := fold AList.delete (iv_hostnames iv) (hub_reservedHosts (fw_hub w)),
         hub_invites := AList.delete i (hub_invites (fw_hub w))\<rparr>\<rparr>))"
  by (simp add: DeleteInvite_def client_do_nil_fake url_paths[simplified] route_invite(2)[OF assms, simplified]
      handle_delete_invite_def resp_status_def split: option.split)

lemma fake_CreateInvite:
  "CreateInvite fake_http c req w =
    (let (resp, h) = handle_create_invite req (fw_hub w);
         n = hub_nextID (fw_hub w) + 1; iid = ''inv-'' @ hub_idPrefix (fw_hub w) @ itoa n
     in (Inr \<lparr>co_status = ''ok'', co_token = ''tok-'' @ iid, co_inviteID = iid,
              co_tenantID = ''ten-'' @ iid, co_name = opt_str (cr_name req), co_expiresAtMs = None\<rparr>,
         w\<lparr>fw_hub := h\<rparr>))"
  by (simp add: CreateInvite_def client_do_fake url_paths[simplified] route_invites[simplified]
      handle_create_invite_def Let_def)

lemma fake_ListInvites:
  "ListInvites fake_http c w = (Inr (map snd (hub_invites (fw_hub w))), w)"
proof -
  have "dec_all dec_invite (map (\<lambda>p. enc_invite (snd p)) xs) = Some (map snd xs)"
    for xs :: "(string \<times> invite) list" by (induction xs) auto
  then show ?thesis
    by (simp add: ListInvites_def client_do_fake url_paths[simplified] route_invites[simplified]
        handle_list_invites_def)
qed

lemma fake_ListPorts:
  assumes "CHR ''/'' \<notin> set t"
  shows "ListPorts fake_http c t w = (Inr (tenant_ports (fw_hub w) t), w)"
  by (simp add: ListPorts_def client_do_fake url_paths[simplified] route_ports(2)[OF assms, simplified]
      handle_list_ports_def dec_all_map)

lemma fake_ReservePort:
  assumes "CHR ''/'' \<notin> set t"
  shows "ReservePort fake_http c t req w =
    (let (resp, h) = handle_reserve_port t req (fw_hub w)
     in (read_response dec_reserve_port_response zero_reserve_port_response (Response resp),
         w\<lparr>fw_hub := h\<rparr>))"
  by (simp add: ReservePort_def client_do_fake url_paths[simplified] route_ports(1)[OF assms, simplified])

lemma fake_ReleasePort:
  assumes "CHR ''/'' \<notin> set t" "CHR ''/'' \<notin> set q" and "t \<noteq> ''hostnames''" "q \<noteq> ''hostnames''"
  shows "ReleasePort fake_http c t q n w =
    (let (resp, h) = handle_release_port (t @ ''/ports/'' @ q @ ''/'' @ itoa n) (fw_hub w)
     in (if hs_status resp < 200 \<or> hs_status resp \<ge> 300
         then Some (APIError (hs_status resp) (body_text (hs_body resp))
            (if hs_status resp = 429 then parseRetryAfter (hs_retryAfter resp) (body_text (hs_body resp))
             else 0))
         else None, w\<lparr>fw_hub := h\<rparr>))"
  by (simp add: ReleasePort_def client_do_nil_fake url_paths[simplified] route_release[OF assms, simplified])


section \<open>The hub contracts, discharged\<close>

definition fake_hosts :: "'k fake_world \<Rightarrow> string \<Rightarrow> string set option" where
  "fake_hosts w i = map_option (\<lambda>iv. set (iv_hostnames iv)) (map_of (hub_invites (fw_hub w)) i)"

interpretation fake_hosts: hostname_hub "fake_http :: 'k fake_world http" c "{i. id_ok i}" fake_hosts
  for c :: hub_client
proof (unfold_locales, goal_cases)
  case (1 i w res w')
  then show ?case by (simp add: fake_GetInvite)
next
  case (2 i w iv w')
  then show ?case by (auto simp: fake_GetInvite fake_hosts_def split: option.splits)
next
  case (3 i hns w a w')
  then show ?case
    by (auto simp: fake_AddHostnames fake_hosts_def update_conv' split: option.splits)
next
  case (4 i hns w e w')
  then show ?case by (auto simp: fake_AddHostnames split: option.splits)
next
  case (5 i h w b w')
  then show ?case
    by (auto simp: fake_RemoveHostname fake_hosts_def update_conv' Let_def split: option.splits if_splits)
next
  case (6 i h w e w')
  then show ?case by (auto simp: fake_RemoveHostname Let_def split: option.splits if_splits)
qed

definition fake_held :: "'k fake_world \<Rightarrow> string \<Rightarrow> (string \<times> int) set" where
  "fake_held w t = (\<lambda>r. (rr_protocol r, rr_port r)) ` set (tenant_ports (fw_hub w) t)"

definition segment_ok :: "string \<Rightarrow> bool" where
  "segment_ok t \<longleftrightarrow> CHR ''/'' \<notin> set t \<and> t \<noteq> ''hostnames''"

lemma tenant_ports_update [simp]:
  "tenant_ports (h\<lparr>hub_ports := AList.update t rs ps\<rparr>) t' =
     (if t' = t then rs else tenant_ports (h\<lparr>hub_ports := ps\<rparr>) t')"
  by (simp add: tenant_ports_def update_conv')

lemma tenant_ports_frame [simp]:
  "tenant_ports (h\<lparr>hub_taken := x\<rparr>) t = tenant_ports h t"
  "tenant_ports (h\<lparr>hub_nextPort := y\<rparr>) t = tenant_ports h t"
  by (simp_all add: tenant_ports_def)

lemma parse_int32_itoa: "is_int32 n \<Longrightarrow> parse_int32 (itoa n) = n"
proof (cases "n < 0")
  case True
  then show "is_int32 n \<Longrightarrow> ?thesis"
    using nat_str_digits[of "nat (- n)"] by (simp add: itoa_def parse_int32_def is_int32_def)
next
  case False
  obtain c t where ct: "nat_str (nat n) = c # t" by (cases "nat_str (nat n)") auto
  then have "is_digit c" using nat_str_digits[of "nat n"] by simp
  then have "c \<noteq> CHR ''-''" "c \<noteq> CHR ''+''" using digit_not_sign by auto
  with False ct show "is_int32 n \<Longrightarrow> ?thesis"
    using nat_str_digits[of "nat n"] digits_val_nat_str[of "nat n"]
    by (simp add: itoa_def parse_int32_def is_int32_def)
qed

lemma fake_release:
  assumes "segment_ok t" and "segment_ok q" and "is_int32 n"
  shows "ReleasePort fake_http c t q n w =
    (let kept = filter (\<lambda>r. \<not> (rr_protocol r = q \<and> rr_port r = n)) (tenant_ports (fw_hub w) t);
         h = (fw_hub w)\<lparr>hub_ports := AList.update t kept (hub_ports (fw_hub w))\<rparr>
     in if length kept = length (tenant_ports (fw_hub w) t)
        then (Some (APIError 404 [] 0), w\<lparr>fw_hub := h\<rparr>)
        else (None, w\<lparr>fw_hub := h\<lparr>hub_taken := removeAll (portKey q n) (hub_taken (fw_hub w))\<rparr>\<rparr>))"
proof -
  have c1: "cut (t @ ''/ports/'' @ q @ ''/'' @ itoa n) ''/ports/'' = Some (t, q @ ''/'' @ itoa n)"
    using cut_segment[of t "''ports/''" "q @ ''/'' @ itoa n"] assms(1) by (simp add: segment_ok_def)
  have c2: "cut (q @ ''/'' @ itoa n) ''/'' = Some (q, itoa n)"
    using cut_char_append[of "CHR ''/''" q "itoa n"] assms(2) by (simp add: segment_ok_def)
  show ?thesis using assms(1,2) c1 c2
    by (simp add: fake_ReleasePort segment_ok_def handle_release_port_def parse_int32_itoa[OF assms(3)]
        Let_def resp_status_def)
qed

interpretation fake_ports: port_hub "fake_http :: 'k fake_world http" c "{t. segment_ok t}"
  "{q. segment_ok q}" fake_held for c :: hub_client
proof (unfold_locales, goal_cases)
  case (1 t w res w')
  then show ?case by (simp add: fake_ListPorts segment_ok_def)
next
  case (2 t w rs w')
  then show ?case by (auto simp: fake_ListPorts segment_ok_def fake_held_def)
next
  case (3 t req w r w')
  then show ?case
    by (auto simp: fake_ReservePort segment_ok_def fake_held_def handle_reserve_port_def Let_def
        split: option.splits if_splits)
next
  case (4 t req w e w')
  then show ?case
    by (auto simp: fake_ReservePort segment_ok_def fake_held_def handle_reserve_port_def Let_def
        split: option.splits if_splits)
next
  case (5 t q n w w')
  then show ?case by (auto simp: fake_release fake_held_def Let_def split: if_splits)
next
  case (6 t q n w e w')
  then show ?case by (auto simp: fake_release fake_held_def Let_def split: if_splits)
next
  case (7 t q n w e w')
  let ?rs = "tenant_ports (fw_hub w) t"
  from 7 have "length (filter (\<lambda>r. \<not> (rr_protocol r = q \<and> rr_port r = n)) ?rs) = length ?rs"
    by (auto simp: fake_release Let_def split: if_splits)
  then have "filter (\<lambda>r. \<not> (rr_protocol r = q \<and> rr_port r = n)) ?rs = ?rs"
    by (metis length_filter_less less_irrefl filter_True)
  with 7 show ?case by (auto simp: fake_release fake_held_def Let_def split: if_splits)
qed

end
