(* ===== verification/TunnelHub.thy ===== *)
theory TunnelHub
  imports TunnelPorts FakeHubClient
begin

text \<open>
  The tunnel's hub-facing steps run against the hub of \<open>FakeHub\<close>: end-to-end statements on the
  invite, its host names and the ports, through the client, the wire and the handler.
\<close>

text \<open>A reconciler whose hub is the fake one and whose events go elsewhere.\<close>

definition on_fake_hub ::
  "('k fake_world, 'b) tunnel_reconciler_scheme \<Rightarrow> (event \<Rightarrow> 'k \<Rightarrow> 'k) option
     \<Rightarrow> ('k fake_world, 'b) tunnel_reconciler_scheme" where
  "on_fake_hub r rec = r\<lparr>tr_http := fake_http,
     tr_recorder := map_option (\<lambda>f e w. w\<lparr>fw_rest := f e (fw_rest w)\<rparr>) rec\<rparr>"

lemma on_fake_hub_http [simp]: "tr_http (on_fake_hub r rec) = fake_http"
  by (simp add: on_fake_hub_def)

lemma fw_hub_event [simp]: "fw_hub (tunnel_event (on_fake_hub r rec) tt rs m w) = fw_hub w"
  by (simp add: tunnel_event_def on_fake_hub_def split: option.split)

lemma fw_hub_conflict [simp]: "fw_hub (conflict_event (on_fake_hub r rec) tt h w) = fw_hub w"
  by (simp add: conflict_event_def)

interpretation fake_tunnel: tunnel_hub "fake_http :: 'k fake_world http" c "{i. id_ok i}" fake_hosts
  "{t. segment_ok t}" "{q. segment_ok q}" fake_held "on_fake_hub r rec"
  for c :: hub_client and r :: "('k fake_world, 'b) tunnel_reconciler_scheme"
    and rec :: "(event \<Rightarrow> 'k \<Rightarrow> 'k) option"
  by unfold_locales (simp_all add: fake_hosts_def fake_held_def fun_eq_iff)

lemma conflict_is_absorbed: "is_hostname_conflict (APIError 409 (conflict_body h) 0)"
  by (simp add: is_hostname_conflict_def conflict_body_def str_contains_def)

lemma add_missing_fake:
  assumes "id_ok i" and "st_inviteID (tt_status tt) = i"
    and "map_of (hub_invites (fw_hub w)) i = Some iv"
  shows "\<exists>A' C' w' iv'. add_missing (on_fake_hub r rec) c tt hubSet hs (A, C) w = (Inr (A', C'), w') \<and>
    map_of (hub_invites (fw_hub w')) i = Some iv' \<and>
    set (iv_hostnames iv') = set (iv_hostnames iv) \<union>
      {h \<in> set hs - set hubSet. \<not> has_key (hub_reservedHosts (fw_hub w)) h} \<and>
    hub_hostnameDeleteNotFound (fw_hub w') = hub_hostnameDeleteNotFound (fw_hub w)"
  using assms(3)
proof (induction hs arbitrary: A C w iv)
  case (Cons h hs)
  let ?r = "on_fake_hub r rec"
  show ?case
  proof (cases "List.member hubSet h")
    case True
    then show ?thesis using Cons.IH[OF Cons.prems, of A C] by auto
  next
    case new: False
    show ?thesis
    proof (cases "has_key (hub_reservedHosts (fw_hub w)) h")
      case True
      have call: "AddHostnames fake_http c i [h] w = (Inl (APIError 409 (conflict_body h) 0), w)"
        using True by (simp add: fake_AddHostnames[OF assms(1)] Cons.prems)
      then have step: "add_missing ?r c tt hubSet (h # hs) (A, C) w =
          add_missing ?r c tt hubSet hs (append_new A h, C) (conflict_event ?r tt h w)"
        using new assms(2) by (simp add: conflict_is_absorbed)
      have "map_of (hub_invites (fw_hub (conflict_event ?r tt h w))) i = Some iv"
        using Cons.prems by simp
      from Cons.IH[OF this, of "append_new A h" C] show ?thesis
        unfolding step using True by auto
    next
      case False
      let ?w = "w\<lparr>fw_hub := fw_hub w\<lparr>
        hub_reservedHosts := AList.update h i (hub_reservedHosts (fw_hub w)),
        hub_invites := AList.update i (iv\<lparr>iv_hostnames := iv_hostnames iv @ [h]\<rparr>) (hub_invites (fw_hub w))\<rparr>\<rparr>"
      have call: "AddHostnames fake_http c i [h] w = (Inr \<lparr>ah_status = ''ok'', ah_hostnames = [h]\<rparr>, ?w)"
        using False by (simp add: fake_AddHostnames[OF assms(1)] Cons.prems)
      then have step: "add_missing ?r c tt hubSet (h # hs) (A, C) w =
          add_missing ?r c tt hubSet hs (append_new A h, append_new C h) ?w"
        using new assms(2) by simp
      have "map_of (hub_invites (fw_hub ?w)) i = Some (iv\<lparr>iv_hostnames := iv_hostnames iv @ [h]\<rparr>)"
        by (simp add: update_conv')
      from Cons.IH[OF this, of "append_new A h" "append_new C h"] show ?thesis
        unfolding step using False new
        by (fastforce simp: has_key_def dom_update)
    qed
  qed
qed auto


lemma remove_stale_fake:
  assumes "id_ok i" and "st_inviteID (tt_status tt) = i"
    and "map_of (hub_invites (fw_hub w)) i = Some iv"
    and "\<forall>h \<in> set hs - set desired. (i, h) \<notin> set (hub_hostnameDeleteNotFound (fw_hub w))"
  shows "\<exists>A' C' w' iv'. remove_stale (on_fake_hub r rec) c tt desired hs (A, C) w = (Inr (A', C'), w') \<and>
    map_of (hub_invites (fw_hub w')) i = Some iv' \<and>
    set (iv_hostnames iv') = set (iv_hostnames iv) - (set hs - set desired)"
  using assms(3,4)
proof (induction hs arbitrary: A C w iv)
  case (Cons h hs)
  let ?r = "on_fake_hub r rec"
  show ?case
  proof (cases "List.member desired h")
    case True
    then show ?thesis using Cons.IH[OF Cons.prems(1), of A C] Cons.prems(2) by auto
  next
    case False
    let ?rest = "filter (\<lambda>hn. hn \<noteq> h) (iv_hostnames iv)"
    let ?w = "w\<lparr>fw_hub := fw_hub w\<lparr>
      hub_invites := AList.update i (iv\<lparr>iv_hostnames := ?rest\<rparr>) (hub_invites (fw_hub w)),
      hub_reservedHosts := AList.delete h (hub_reservedHosts (fw_hub w))\<rparr>\<rparr>"
    have ok: "(i, h) \<notin> set (hub_hostnameDeleteNotFound (fw_hub w))" using Cons.prems(2) False by simp
    have step: "remove_stale ?r c tt desired (h # hs) (A, C) w =
        remove_stale ?r c tt desired hs (removeAll h A, removeAll h C) ?w"
      using False ok assms(2) by (simp add: fake_RemoveHostname[OF assms(1)] Cons.prems(1) Let_def)
    have "map_of (hub_invites (fw_hub ?w)) i = Some (iv\<lparr>iv_hostnames := ?rest\<rparr>)"
      by (simp add: update_conv')
    moreover have "\<forall>h \<in> set hs - set desired. (i, h) \<notin> set (hub_hostnameDeleteNotFound (fw_hub ?w))"
      using Cons.prems(2) by simp
    ultimately show ?thesis
      using Cons.IH[of ?w "iv\<lparr>iv_hostnames := ?rest\<rparr>" "removeAll h A" "removeAll h C"] False
      unfolding step by auto
  qed
qed auto



section \<open>The invite\<close>

lemma find_update_fresh:
  assumes "find P (map snd xs) = None" and "P v"
  shows "find P (map snd (AList.update k v xs)) = Some v"
  using assms by (induction xs) (auto split: if_splits)



section \<open>The ports\<close>

lemma on_fake_hub_range [simp]: "range_ok (on_fake_hub r rec) = range_ok r"
  by (simp add: range_ok_def on_fake_hub_def)


text \<open>C20: convergence of the ports ends. Once a \<open>convergePorts\<close> on the repository's hub has reported
  no error, the next run with the same agents finds nothing to do: it keeps every allocation, sends
  no request (it does the same behind any transport), and leaves the hub as it is.\<close>

theorem convergePorts_settles:
  assumes "segment_ok (st_tenantID (tt_status tt))" and "range_ok r"
    and "distinct (map al_key (st_portAllocations (tt_status tt)))"
    and "\<And>pa. pa \<in> set (st_portAllocations (tt_status tt)) \<Longrightarrow>
      segment_ok (al_protocol pa) \<and> is_int32 (al_listenPort pa) \<and>
      port_of pa \<in> fake_held w (st_tenantID (tt_status tt))"
    and "convergePorts (on_fake_hub r rec) c tt agents w = ((None, tt'), w')"
    and "convergePorts ((on_fake_hub r rec)\<lparr>tr_http := http\<rparr>) c tt' agents w' = ((res, tt''), w'')"
  shows "res = None \<and> st_portAllocations (tt_status tt'') = st_portAllocations (tt_status tt') \<and>
    fw_hub w'' = fw_hub w'"
proof -
  have keys: "map al_key (st_portAllocations (tt_status tt')) = sort (firsts (map entry_key (l4_entries agents)))"
    using assms fake_tunnel.convergePorts_held[OF refl _ _ assms(3) _ assms(5)] by simp
  have "range_ok ((on_fake_hub r rec)\<lparr>tr_http := http\<rparr>)" using assms(2) by (simp add: range_ok_def on_fake_hub_def)
  moreover have "fw_hub (tunnel_event ((on_fake_hub r rec)\<lparr>tr_http := http\<rparr>) t rs m v) = fw_hub v" for t rs m v
    by (simp add: tunnel_event_def on_fake_hub_def split: option.split)
  ultimately show ?thesis using convergePorts_quiet[OF keys _ _ assms(6), where obs = fw_hub] by blast
qed

section \<open>Witnesses\<close>

definition test_world :: "unit fake_world" where
  "test_world = \<lparr>fw_hub = Seed \<lparr>iv_inviteID = ''inv-1'', iv_tenantID = ''ten-1'', iv_name = ''ns/t'',
       iv_hostnames = [''a.example'', ''old.example''], iv_region = [], iv_status = ''pending'',
       iv_expiresAtMs = None\<rparr> (SeedReservation ''ten-1'' \<lparr>rr_status = ''ok'', rr_port = 31,
       rr_protocol = ''tcp'', rr_claimedAtMs = 1, rr_ip = None, rr_label = Some ''ns/t/old'',
       rr_edge = None\<rparr> (NewHub 1)), fw_rest = ()\<rparr>"

definition test_tunnel :: towonel_tunnel where
  "test_tunnel = with_status (\<lambda>st. st\<lparr>st_inviteID := ''inv-1'', st_tenantID := ''ten-1'',
     st_portAllocations := [\<lparr>al_name = ''old'', al_protocol = ''tcp'', al_listenPort = 31,
       al_edge = zero_edge\<rparr>]\<rparr>) (new_tunnel ''ns'' ''t'')"

definition test_agents :: "towonel_agent list" where
  "test_agents = [(new_agent ''ns'' ''a'')\<lparr>ta_spec := zero_agent_spec\<lparr>
     ag_tcp := [\<lparr>l4_name = ''ssh'', l4_origin = ''s:22'', l4_preferredPort = 22, l4_hostname = []\<rparr>]\<rparr>\<rparr>]"

lemma test_segments: "segment_ok ''ten-1''" "segment_ok ''tcp''" "id_ok ''inv-1''"
  by (simp_all add: segment_ok_def id_ok_def)



lemma test_issue:
  "\<not> isl (fst (fst (ensureInvite (on_fake_hub idle_reconciler None) (NewClient ''http://hub'' ''k'')
     (new_tunnel ''ns'' ''u'') [''u.example''] test_world)))"
  by (simp add: ensureInvite_def fake_ListInvites fake_CreateInvite new_tunnel_def zero_tunnel_status_def
      Let_def split: prod.split option.split)


lemma test_run:
  "fst (fst (convergePorts (on_fake_hub idle_reconciler None) (NewClient ''http://hub'' ''k'')
     test_tunnel test_agents test_world)) = None"
  by code_simp


theorem convergePorts_settles_witness:
  "\<exists>tt' w' tt'' w''. convergePorts (on_fake_hub idle_reconciler None) (NewClient ''http://hub'' ''k'')
     test_tunnel test_agents test_world = ((None, tt'), w') \<and>
   convergePorts ((on_fake_hub idle_reconciler None)\<lparr>tr_http := \<lambda>q w. (DoError (PlainError ''down''), w)\<rparr>)
     (NewClient ''http://hub'' ''k'') tt' test_agents w' = ((None, tt''), w'') \<and>
   st_portAllocations (tt_status tt'') = st_portAllocations (tt_status tt') \<and> fw_hub w'' = fw_hub w'"
proof -
  obtain tt' w' where run: "convergePorts (on_fake_hub idle_reconciler None)
      (NewClient ''http://hub'' ''k'') test_tunnel test_agents test_world = ((None, tt'), w')"
    by (rule run_None[OF test_run])
  obtain res tt'' w'' where again: "convergePorts ((on_fake_hub idle_reconciler None)
      \<lparr>tr_http := \<lambda>q w. (DoError (PlainError ''down''), w)\<rparr>) (NewClient ''http://hub'' ''k'') tt' test_agents w' =
      ((res, tt''), w'')" by (metis prod.exhaust)
  have s: "st_portAllocations (tt_status test_tunnel) = [\<lparr>al_name = ''old'', al_protocol = ''tcp'',
      al_listenPort = 31, al_edge = zero_edge\<rparr>]" "st_tenantID (tt_status test_tunnel) = ''ten-1''"
    by (simp_all add: test_tunnel_def)
  have "(''tcp'', 31) \<in> fake_held test_world ''ten-1''"
    by (simp add: fake_held_def test_world_def Seed_def SeedReservation_def NewHub_def tenant_ports_def)
  then show ?thesis
    using convergePorts_settles[OF _ idle_reconciler_range _ _ run again] run again s test_segments
    by (simp add: is_int32_def port_of_def)
qed

end
