(* ===== verification/TunnelDeletion.thy ===== *)
theory TunnelDeletion
  imports TunnelController TunnelHub
begin

text \<open>
  The deletion path end to end: a cluster and the hub of \<open>FakeHub\<close> side by side, and what a
  finished or interrupted \<open>reconcileDelete\<close> leaves behind on each.
\<close>

section \<open>A cluster beside the hub\<close>

definition on_rest :: "('k, 'a) op \<Rightarrow> ('k fake_world, 'a) op" where
  "on_rest f w = (let (x, k) = f (fw_rest w) in (x, w\<lparr>fw_rest := k\<rparr>))"

text \<open>The reconciler of a cluster, with the fake hub as its hub.\<close>

definition with_hub :: "'k tunnel_reconciler \<Rightarrow> 'k fake_world tunnel_reconciler" where
  "with_hub r = \<lparr>set_status_condition = set_status_condition r,
     remove_status_condition = remove_status_condition r,
     find_status_condition = find_status_condition r, add_finalizer = add_finalizer r,
     contains_finalizer = contains_finalizer r, remove_finalizer = remove_finalizer r,
     set_controller_reference = set_controller_reference r,
     tr_get_tunnel = (\<lambda>k. on_rest (tr_get_tunnel r k)), tr_update = (\<lambda>tt. on_rest (tr_update r tt)),
     tr_status_update = (\<lambda>tt. on_rest (tr_status_update r tt)),
     tr_get_secret = (\<lambda>k. on_rest (tr_get_secret r k)),
     tr_apply_secret = (\<lambda>s. on_rest (tr_apply_secret r s)), tr_list_agents = on_rest (tr_list_agents r),
     tr_list_dns = (\<lambda>m. on_rest (tr_list_dns r m)), tr_get_dns = (\<lambda>k. on_rest (tr_get_dns r k)),
     tr_apply_dns = (\<lambda>d. on_rest (tr_apply_dns r d)), tr_delete_dns = (\<lambda>k. on_rest (tr_delete_dns r k)),
     tr_recorder = map_option (\<lambda>f e w. w\<lparr>fw_rest := f e (fw_rest w)\<rparr>) (tr_recorder r),
     tr_now = on_rest (tr_now r), tr_getenv = tr_getenv r, tr_range = (\<lambda>w. tr_range r (fw_rest w)),
     tr_http = fake_http, tr_baseURL = tr_baseURL r, tr_dnsEdgeTargets = tr_dnsEdgeTargets r\<rparr>"

lemma on_rest_hub [simp]: "fw_hub (snd (on_rest f w)) = fw_hub w"
  by (simp add: on_rest_def split: prod.split)

lemma on_rest_run: "on_rest f w = (x, w') \<longleftrightarrow> f (fw_rest w) = (x, fw_rest w') \<and> fw_hub w' = fw_hub w"
proof -
  have "w\<lparr>fw_rest := k\<rparr> = w' \<longleftrightarrow> k = fw_rest w' \<and> fw_hub w' = fw_hub w" for k
    by (cases w; cases w') auto
  then show ?thesis by (auto simp: on_rest_def split: prod.splits)
qed

lemma with_hub_event:
  "fw_rest (tunnel_event (with_hub r) tt rs m w) = tunnel_event r tt rs m (fw_rest w)"
  "fw_hub (tunnel_event (with_hub r) tt rs m w) = fw_hub w"
  by (simp_all add: tunnel_event_def with_hub_def split: option.split)

lemma with_hub_simps [simp]:
  "tr_http (with_hub r) = fake_http"
  "tr_update (with_hub r) tt = on_rest (tr_update r tt)"
  "tr_get_secret (with_hub r) k = on_rest (tr_get_secret r k)"
  "tr_list_dns (with_hub r) m = on_rest (tr_list_dns r m)"
  "tr_delete_dns (with_hub r) k = on_rest (tr_delete_dns r k)"
  "tr_get_dns (with_hub r) k = on_rest (tr_get_dns r k)"
  "tr_apply_dns (with_hub r) d = on_rest (tr_apply_dns r d)"
  "contains_finalizer (with_hub r) = contains_finalizer r"
  "tr_getenv (with_hub r) = tr_getenv r"
  by (simp_all add: with_hub_def)

lemma with_hub_dns_api:
  assumes api: "dns_api r dns"
  shows "dns_api (with_hub r) (\<lambda>w. dns (fw_rest w))"
  unfolding dns_api_def
proof (intro conjI, goal_cases)
  case 1 then show ?case using dns_key[OF api] by blast
next
  case 2 then show ?case using dns_list[OF api] by (simp only: with_hub_simps on_rest_run) blast
next
  case 3 then show ?case using dns_list_err[OF api] by (simp only: with_hub_simps on_rest_run) blast
next
  case 4 then show ?case using dns_get[OF api] by (simp only: with_hub_simps on_rest_run) blast
next
  case 5 then show ?case using dns_get_err[OF api] by (simp only: with_hub_simps on_rest_run) blast
next
  case 6 then show ?case using dns_del[OF api] by (simp only: with_hub_simps on_rest_run) blast
next
  case 7 then show ?case using dns_del_err[OF api] by (simp only: with_hub_simps on_rest_run) blast
next
  case 8 then show ?case using dns_app[OF api] by (simp only: with_hub_simps on_rest_run) blast
next
  case 9 then show ?case using dns_app_err[OF api] by (simp only: with_hub_simps on_rest_run) blast
next
  case 10 then show ?case using dns_event[OF api] by (simp add: with_hub_event)
qed

section \<open>Releasing ports\<close>

text \<open>Reservations of the tenant whose protocol and number fit in a request path.\<close>

definition ports_typed :: "hub \<Rightarrow> string \<Rightarrow> bool" where
  "ports_typed h t \<longleftrightarrow> (\<forall>x \<in> set (tenant_ports h t). segment_ok (rr_protocol x) \<and> is_int32 (rr_port x))"

definition res_port :: "reserve_port_response \<Rightarrow> string \<times> int" where
  "res_port x = (rr_protocol x, rr_port x)"

lemma release_port_fake:
  assumes "segment_ok (st_tenantID (tt_status tt))" and "segment_ok q" and "is_int32 n"
  shows "\<exists>w'. release_port (with_hub r) tc tt q n w = (None, w') \<and> fw_rest w' = fw_rest w \<and>
    hub_invites (fw_hub w') = hub_invites (fw_hub w) \<and>
    tenant_ports (fw_hub w') (st_tenantID (tt_status tt)) =
      filter (\<lambda>x. res_port x \<noteq> (q, n)) (tenant_ports (fw_hub w) (st_tenantID (tt_status tt)))"
proof -
  have f: "(\<lambda>x. res_port x \<noteq> (q, n)) = (\<lambda>x. \<not> (rr_protocol x = q \<and> rr_port x = n))"
    by (auto simp: res_port_def)
  show ?thesis unfolding f
    by (simp add: release_port_def fake_release[OF assms] Let_def split: prod.split)
qed

lemma release_recorded_fake:
  assumes "segment_ok (st_tenantID (tt_status tt))"
    and "\<forall>pa \<in> set pas. segment_ok (al_protocol pa) \<and> is_int32 (al_listenPort pa)"
  shows "\<exists>w'. release_recorded (with_hub r) tc tt pas w = (None, w') \<and> fw_rest w' = fw_rest w \<and>
    hub_invites (fw_hub w') = hub_invites (fw_hub w) \<and>
    tenant_ports (fw_hub w') (st_tenantID (tt_status tt)) =
      filter (\<lambda>x. res_port x \<notin> port_of ` set pas) (tenant_ports (fw_hub w) (st_tenantID (tt_status tt)))"
  using assms(2)
proof (induction pas arbitrary: w)
  case (Cons pa pas)
  then obtain w1 where one: "release_port (with_hub r) tc tt (al_protocol pa) (al_listenPort pa) w = (None, w1)"
    "fw_rest w1 = fw_rest w" "hub_invites (fw_hub w1) = hub_invites (fw_hub w)"
    "tenant_ports (fw_hub w1) (st_tenantID (tt_status tt)) =
      filter (\<lambda>x. res_port x \<noteq> port_of pa) (tenant_ports (fw_hub w) (st_tenantID (tt_status tt)))"
    using release_port_fake[OF assms(1), of "al_protocol pa" "al_listenPort pa" r tc w]
    by (auto simp: port_of_def)
  obtain w' where rest: "release_recorded (with_hub r) tc tt pas w1 = (None, w')"
    "fw_rest w' = fw_rest w1" "hub_invites (fw_hub w') = hub_invites (fw_hub w1)"
    "tenant_ports (fw_hub w') (st_tenantID (tt_status tt)) =
      filter (\<lambda>x. res_port x \<notin> port_of ` set pas) (tenant_ports (fw_hub w1) (st_tenantID (tt_status tt)))"
    using Cons by fastforce
  have "release_recorded (with_hub r) tc tt (pa # pas) w = (None, w')" using one(1) rest(1) by simp
  then show ?case using one rest by (auto intro!: filter_cong)
qed simp

definition labelled :: "towonel_tunnel \<Rightarrow> reserve_port_response \<Rightarrow> bool" where
  "labelled tt x = (case rr_label x of None \<Rightarrow> False
     | Some l \<Rightarrow> has_prefix l (portLabelPrefix (m_ns (tt_meta tt)) (m_name (tt_meta tt))))"

lemma release_leaked_fake:
  assumes "segment_ok (st_tenantID (tt_status tt))"
    and "\<forall>x \<in> set rs. segment_ok (rr_protocol x) \<and> is_int32 (rr_port x)"
    and "\<forall>x \<in> set rs. proto_port (rr_protocol x) (rr_port x) \<notin> set released"
  shows "\<exists>w'. release_leaked (with_hub r) tc tt released rs w = (None, w') \<and> fw_rest w' = fw_rest w \<and>
    hub_invites (fw_hub w') = hub_invites (fw_hub w) \<and>
    tenant_ports (fw_hub w') (st_tenantID (tt_status tt)) =
      filter (\<lambda>x. res_port x \<notin> res_port ` {y \<in> set rs. labelled tt y})
        (tenant_ports (fw_hub w) (st_tenantID (tt_status tt)))"
  using assms(2,3)
proof (induction rs arbitrary: w)
  case (Cons y rs)
  show ?case
  proof (cases "labelled tt y")
    case False
    then have "release_leaked (with_hub r) tc tt released (y # rs) w =
        release_leaked (with_hub r) tc tt released rs w" by (simp add: labelled_def)
    then show ?thesis using Cons.IH[of w] Cons.prems False by (auto intro!: filter_cong)
  next
    case True
    obtain w1 where one: "release_port (with_hub r) tc tt (rr_protocol y) (rr_port y) w = (None, w1)"
      "fw_rest w1 = fw_rest w" "hub_invites (fw_hub w1) = hub_invites (fw_hub w)"
      "tenant_ports (fw_hub w1) (st_tenantID (tt_status tt)) =
        filter (\<lambda>x. res_port x \<noteq> res_port y) (tenant_ports (fw_hub w) (st_tenantID (tt_status tt)))"
      using release_port_fake[OF assms(1), of "rr_protocol y" "rr_port y" r tc w] Cons.prems(1)
      by (auto simp: res_port_def)
    obtain w' where rest: "release_leaked (with_hub r) tc tt released rs w1 = (None, w')"
      "fw_rest w' = fw_rest w1" "hub_invites (fw_hub w') = hub_invites (fw_hub w1)"
      "tenant_ports (fw_hub w') (st_tenantID (tt_status tt)) =
        filter (\<lambda>x. res_port x \<notin> res_port ` {y \<in> set rs. labelled tt y})
          (tenant_ports (fw_hub w1) (st_tenantID (tt_status tt)))"
      using Cons by fastforce
    have "release_leaked (with_hub r) tc tt released (y # rs) w = (None, w')"
      using one(1) rest(1) True Cons.prems(2) by (simp add: labelled_def)
    then show ?thesis using one rest True by (auto intro!: filter_cong)
  qed
qed simp


lemma proto_port_inject:
  "CHR ''/'' \<notin> set q \<Longrightarrow> CHR ''/'' \<notin> set q' \<Longrightarrow> proto_port q n = proto_port q' n' \<longleftrightarrow> q = q' \<and> n = n'"
proof
  assume ns: "CHR ''/'' \<notin> set q" "CHR ''/'' \<notin> set q'" and "proto_port q n = proto_port q' n'"
  then have "cut (q @ CHR ''/'' # itoa n) [CHR ''/''] = cut (q' @ CHR ''/'' # itoa n') [CHR ''/'']"
    by (simp add: proto_port_def)
  then show "q = q' \<and> n = n'" using ns by simp
qed simp

lemma releasePorts_fake:
  assumes t: "segment_ok (st_tenantID (tt_status tt))"
    and pas: "\<forall>pa \<in> set (st_portAllocations (tt_status tt)). segment_ok (al_protocol pa) \<and> is_int32 (al_listenPort pa)"
    and typed: "ports_typed (fw_hub w) (st_tenantID (tt_status tt))"
  shows "\<exists>w'. releasePorts (with_hub r) tc tt w = (None, w') \<and> fw_rest w' = fw_rest w \<and>
    hub_invites (fw_hub w') = hub_invites (fw_hub w) \<and>
    tenant_ports (fw_hub w') (st_tenantID (tt_status tt)) =
      filter (\<lambda>x. res_port x \<notin> port_of ` set (st_portAllocations (tt_status tt)) \<union>
                    res_port ` {y \<in> set (tenant_ports (fw_hub w) (st_tenantID (tt_status tt))). labelled tt y})
        (tenant_ports (fw_hub w) (st_tenantID (tt_status tt)))"
proof -
  let ?t = "st_tenantID (tt_status tt)" and ?pas = "st_portAllocations (tt_status tt)"
  obtain w1 where one: "release_recorded (with_hub r) tc tt ?pas w = (None, w1)" "fw_rest w1 = fw_rest w"
    "hub_invites (fw_hub w1) = hub_invites (fw_hub w)"
    "tenant_ports (fw_hub w1) ?t = filter (\<lambda>x. res_port x \<notin> port_of ` set ?pas) (tenant_ports (fw_hub w) ?t)"
    using release_recorded_fake[OF t pas] by blast
  let ?listed = "tenant_ports (fw_hub w1) ?t"
  have typ1: "\<forall>x \<in> set ?listed. segment_ok (rr_protocol x) \<and> is_int32 (rr_port x)"
    using typed one(4) by (auto simp: ports_typed_def)
  have fresh: "\<forall>x \<in> set ?listed. proto_port (rr_protocol x) (rr_port x) \<notin>
      set (map (\<lambda>pa. proto_port (al_protocol pa) (al_listenPort pa)) ?pas)"
  proof
    fix x assume x: "x \<in> set ?listed"
    then have "res_port x \<notin> port_of ` set ?pas" using one(4) by simp
    moreover have "CHR ''/'' \<notin> set (rr_protocol x)" using typ1 x by (auto simp: segment_ok_def)
    moreover have "pa \<in> set ?pas \<Longrightarrow> CHR ''/'' \<notin> set (al_protocol pa)" for pa
      using pas by (auto simp: segment_ok_def)
    ultimately show "proto_port (rr_protocol x) (rr_port x) \<notin>
        set (map (\<lambda>pa. proto_port (al_protocol pa) (al_listenPort pa)) ?pas)"
      by (auto simp: proto_port_inject res_port_def port_of_def)
  qed
  obtain w' where two: "release_leaked (with_hub r) tc tt
      (map (\<lambda>pa. proto_port (al_protocol pa) (al_listenPort pa)) ?pas) ?listed w1 = (None, w')"
    "fw_rest w' = fw_rest w1" "hub_invites (fw_hub w') = hub_invites (fw_hub w1)"
    "tenant_ports (fw_hub w') ?t = filter (\<lambda>x. res_port x \<notin> res_port ` {y \<in> set ?listed. labelled tt y}) ?listed"
    using release_leaked_fake[OF t typ1 fresh] by blast
  have "CHR ''/'' \<notin> set ?t" using t by (simp add: segment_ok_def)
  then have "releasePorts (with_hub r) tc tt w = (None, w')"
    using one(1) two(1) by (simp add: releasePorts_def fake_ListPorts Let_def)
  moreover have "tenant_ports (fw_hub w') ?t = filter (\<lambda>x. res_port x \<notin> port_of ` set ?pas \<union>
      res_port ` {y \<in> set (tenant_ports (fw_hub w) ?t). labelled tt y}) (tenant_ports (fw_hub w) ?t)"
    unfolding two(4) one(4) by (auto intro!: filter_cong)
  ultimately show ?thesis using one two by auto
qed

section \<open>The deletion\<close>

text \<open>Frame: reading Secrets and updating the tunnel leave the DNSEndpoints alone.\<close>

definition dns_frame :: "('w, 'b) tunnel_reconciler_scheme \<Rightarrow> ('w \<Rightarrow> nn \<Rightarrow> dns_endpoint option) \<Rightarrow> bool" where
  "dns_frame r dns \<longleftrightarrow> (\<forall>k w. dns (snd (tr_get_secret r k w)) = dns w) \<and>
     (\<forall>tt w. dns (snd (tr_update r tt w)) = dns w)"

lemma resolveAPIKey_hub:
  "resolveAPIKey (with_hub r) tt w = (res, w') \<Longrightarrow> fw_hub w' = fw_hub w"
  by (auto simp: resolveAPIKey_def Let_def on_rest_run split: option.splits prod.splits sum.splits if_splits)

lemma resolveAPIKey_dns:
  "dns_frame r dns \<Longrightarrow> resolveAPIKey (with_hub r) tt w = (res, w') \<Longrightarrow>
   dns (fw_rest w') = dns (fw_rest w)"
proof -
  assume f: "dns_frame r dns"
  have "dns k' = dns k" if "tr_get_secret r n k = (x, k')" for n k x k'
    using f that unfolding dns_frame_def by (metis snd_conv)
  then show "resolveAPIKey (with_hub r) tt w = (res, w') \<Longrightarrow> dns (fw_rest w') = dns (fw_rest w)"
    by (auto simp: resolveAPIKey_def Let_def on_rest_run split: option.splits prod.splits sum.splits if_splits)
qed

lemma drop_finalizer_frame:
  "drop_finalizer (with_hub r) tt w = (res, w') \<Longrightarrow> fw_hub w' = fw_hub w"
  "dns_frame r dns \<Longrightarrow> drop_finalizer (with_hub r) tt w = (res, w') \<Longrightarrow> dns (fw_rest w') = dns (fw_rest w)"
proof -
  show "drop_finalizer (with_hub r) tt w = (res, w') \<Longrightarrow> fw_hub w' = fw_hub w"
    by (auto simp: drop_finalizer_def on_rest_run split: prod.splits option.splits)
  assume f: "dns_frame r dns"
  have "dns k' = dns k" if "tr_update r t k = (x, k')" for t k x k'
    using f that unfolding dns_frame_def by (metis snd_conv)
  then show "drop_finalizer (with_hub r) tt w = (res, w') \<Longrightarrow> dns (fw_rest w') = dns (fw_rest w)"
    by (auto simp: drop_finalizer_def on_rest_run split: prod.splits option.splits)
qed

lemma sweep_hub: "sweepDNSEndpoints (with_hub r) hash keep w = (res, w') \<Longrightarrow> fw_hub w' = fw_hub w"
proof -
  have del: "fw_hub v' = fw_hub v" if "delete_endpoints (with_hub r) keep items errs v = (es, v')" for items errs v es v'
    using that
  proof (induction items arbitrary: errs v)
    case (Cons i items)
    obtain x v1 where "tr_delete_dns (with_hub r) (key_of (dns_meta i)) v = (x, v1)" by (metis prod.exhaust)
    then have "fw_hub v1 = fw_hub v" by (simp add: on_rest_run)
    with Cons show ?case
      by (auto simp: Let_def on_rest_run split: if_splits prod.splits option.splits)
  qed simp
  show "sweepDNSEndpoints (with_hub r) hash keep w = (res, w') \<Longrightarrow> fw_hub w' = fw_hub w"
    using del by (fastforce simp: sweepDNSEndpoints_def on_rest_run Let_def split: prod.splits sum.splits if_splits)
qed


lemma fake_rest:
  "fw_rest (snd (client_do fake_http c m p b dec zero w)) = fw_rest w"
  "fw_rest (snd (client_do_nil fake_http c m p w)) = fw_rest w"
  by (simp_all add: client_do_fake client_do_nil_fake Let_def split: prod.split)

lemma release_port_rest: "release_port (with_hub r) tc tt q n w = (res, w') \<Longrightarrow> fw_rest w' = fw_rest w"
  using fake_rest(2)[of tc _ _ w] unfolding release_port_def ReleasePort_def
  by (auto split: prod.splits option.splits) (metis snd_conv)+

lemma releasePorts_rest:
  assumes "releasePorts (with_hub r) tc tt w = (res, w')"
  shows "fw_rest w' = fw_rest w"
proof -
  have rec: "fw_rest v' = fw_rest v" if "release_recorded (with_hub r) tc tt pas v = (x, v')" for pas v x v'
    using that
  proof (induction pas arbitrary: v)
    case (Cons pa pas)
    then show ?case
      using release_port_rest[of r tc tt "al_protocol pa" "al_listenPort pa" v]
      by (auto split: prod.splits option.splits)
  qed simp
  have leak: "fw_rest v' = fw_rest v" if "release_leaked (with_hub r) tc tt rel rs v = (x, v')" for rel rs v x v'
    using that
  proof (induction rs arbitrary: v)
    case (Cons y rs)
    then show ?case
      using release_port_rest[of r tc tt "rr_protocol y" "rr_port y" v]
      by (auto split: prod.splits option.splits if_splits)
  qed simp
  have list: "fw_rest v' = fw_rest v" if "ListPorts fake_http tc t v = (x, v')" for t v x v'
    using fake_rest(1)[of tc "''GET''" "tenant_path t" None "dec_list dec_reserve_port_response" "[]" v] that
    by (simp add: ListPorts_def)
  show ?thesis using assms
    by (auto simp: releasePorts_def Let_def split: prod.splits option.splits sum.splits
        dest!: rec leak list)
qed

lemma DeleteInvite_rest: "DeleteInvite fake_http tc i w = (x, w') \<Longrightarrow> fw_rest w' = fw_rest w"
  using fake_rest(2)[of tc "''DELETE''" "invite_path i" w] by (simp add: DeleteInvite_def)

lemma delete_on_hub_dns:
  assumes "dns_frame r dns" and "delete_on_hub (with_hub r) tt w = (res, w')"
  shows "dns (fw_rest w') = dns (fw_rest w)"
proof -
  obtain k w1 where key: "resolveAPIKey (with_hub r) tt w = (k, w1)" by (metis prod.exhaust)
  have d1: "dns (fw_rest w1) = dns (fw_rest w)" by (rule resolveAPIKey_dns[OF assms(1) key])
  show ?thesis
  proof (cases "\<exists>apiKey. k = Inr (Some apiKey)")
    case False
    then show ?thesis using assms(2) key d1
      by (auto simp: delete_on_hub_def split: sum.splits option.splits)
  next
    case True
    then obtain apiKey where k: "k = Inr (Some apiKey)" by blast
    let ?tc = "NewClient (tr_baseURL (with_hub r)) apiKey"
    obtain rel w2 where rel: "(if st_tenantID (tt_status tt) \<noteq> [] then releasePorts (with_hub r) ?tc tt w1
        else (None, w1)) = (rel, w2)" by (metis prod.exhaust)
    then have d2: "fw_rest w2 = fw_rest w1" using releasePorts_rest by (auto split: if_splits)
    obtain x w3 where del: "DeleteInvite fake_http ?tc (st_inviteID (tt_status tt)) w2 = (x, w3)"
      by (metis prod.exhaust)
    then have d3: "fw_rest w3 = fw_rest w2" by (rule DeleteInvite_rest)
    show ?thesis
    proof (cases "rel = None \<and> (x = None \<or> (\<exists>e. x = Some e \<and> is_hub_status 404 e))")
      case True
      then have "drop_finalizer (with_hub r) tt w3 = (res, w')"
        using assms(2) key k rel del by (auto simp: delete_on_hub_def Let_def)
      then show ?thesis using drop_finalizer_frame(2)[OF assms(1)] d1 d2 d3 by metis
    next
      case False
      then have "w' = w2 \<or> w' = w3"
        using assms(2) key k rel del
        by (auto simp: delete_on_hub_def Let_def split: option.splits if_splits)
      then show ?thesis using d1 d2 d3 by auto
    qed
  qed
qed

text \<open>C15: Deletion withdraws DNS first: whenever \<open>reconcileDelete\<close> has changed anything on the
  hub, no DNSEndpoint of the tunnel is left, however the attempt ended. Public records never
  outlive the host names a deletion releases.\<close>

theorem reconcileDelete_dns_first:
  assumes "dns_api r dns" and "dns_frame r dns"
    and "reconcileDelete (with_hub r) tt w = (res, w')" and "fw_hub w' \<noteq> fw_hub w"
  shows "\<not> (\<exists>k ep. dns (fw_rest w') k = Some ep \<and> ownedByTunnel ep (tunnel_hash tt))"
proof -
  obtain s w1 where sweep: "sweepDNSEndpoints (with_hub r) (tunnel_hash tt) None w = (s, w1)"
    by (metis prod.exhaust)
  have hub1: "fw_hub w1 = fw_hub w" by (rule sweep_hub[OF sweep])
  have go: "s = None \<and> st_inviteID (tt_status tt) \<noteq> [] \<and> delete_on_hub (with_hub r) tt w1 = (res, w')"
    using assms(3,4) sweep hub1 with_hub_event(2)[of r] drop_finalizer_frame(1)[of r tt _ res w']
    by (auto simp: reconcileDelete_def split: if_splits option.splits prod.splits)
  have "owned_only (dns (fw_rest w1)) (tunnel_hash tt) None"
    using sweep_effect(2)[OF with_hub_dns_api[OF assms(1)] sweep[unfolded tunnel_hash_def]] go
    by (simp add: tunnel_hash_def)
  moreover have "dns (fw_rest w') = dns (fw_rest w1)"
    using delete_on_hub_dns[OF assms(2)] go by blast
  ultimately show ?thesis unfolding owned_only_def by auto
qed

text \<open>With the Retain policy, a deletion changes nothing on the hub and no DNSEndpoint.\<close>

theorem reconcileDelete_retains:
  assumes "dns_frame r dns" and "ts_deletionPolicy (tt_spec tt) = DeletionPolicyRetain"
    and "reconcileDelete (with_hub r) tt w = (res, w')"
  shows "fw_hub w' = fw_hub w \<and> dns (fw_rest w') = dns (fw_rest w)"
proof (cases "contains_finalizer r (m_finalizers (tt_meta tt)) FinalizerName")
  case True
  then have "drop_finalizer (with_hub r) tt w = (res, w')"
    using assms(2,3) by (simp add: reconcileDelete_def)
  then show ?thesis using drop_finalizer_frame assms(1) by metis
next
  case False
  then show ?thesis using assms(3) by (simp add: reconcileDelete_def)
qed

lemma reconcileDelete_effect:
  assumes "dns_api r dns" and "dns_frame r dns"
    and "contains_finalizer r (m_finalizers (tt_meta tt)) FinalizerName"
    and "ts_deletionPolicy (tt_spec tt) \<noteq> DeletionPolicyRetain"
    and "st_inviteID (tt_status tt) \<noteq> []" and "id_ok (st_inviteID (tt_status tt))"
    and "st_tenantID (tt_status tt) \<noteq> []" and "segment_ok (st_tenantID (tt_status tt))"
    and "\<forall>pa \<in> set (st_portAllocations (tt_status tt)). segment_ok (al_protocol pa) \<and> is_int32 (al_listenPort pa)"
    and "ports_typed (fw_hub w) (st_tenantID (tt_status tt))"
    and "reconcileDelete (with_hub r) tt w = (Inr 0, w')"
  shows "map_of (hub_invites (fw_hub w')) (st_inviteID (tt_status tt)) = None \<and>
    (\<forall>x \<in> set (tenant_ports (fw_hub w') (st_tenantID (tt_status tt))).
       res_port x \<notin> port_of ` set (st_portAllocations (tt_status tt)) \<and> \<not> labelled tt x) \<and>
    \<not> (\<exists>k ep. dns (fw_rest w') k = Some ep \<and> ownedByTunnel ep (tunnel_hash tt))"
proof -
  let ?t = "st_tenantID (tt_status tt)" and ?i = "st_inviteID (tt_status tt)"
  obtain s w1 where sweep: "sweepDNSEndpoints (with_hub r) (tunnel_hash tt) None w = (s, w1)"
    by (metis prod.exhaust)
  have hub1: "fw_hub w1 = fw_hub w" by (rule sweep_hub[OF sweep])
  have go: "s = None" "delete_on_hub (with_hub r) tt w1 = (Inr 0, w')"
    using assms(3,4,5,11) sweep by (auto simp: reconcileDelete_def split: option.splits)
  have own1: "owned_only (dns (fw_rest w1)) (tunnel_hash tt) None"
    using sweep_effect(2)[OF with_hub_dns_api[OF assms(1)] sweep[unfolded tunnel_hash_def]] go
    by (simp add: tunnel_hash_def)
  obtain k w2 where key: "resolveAPIKey (with_hub r) tt w1 = (k, w2)" by (metis prod.exhaust)
  then obtain apiKey where k: "k = Inr (Some apiKey)"
    using go(2) by (auto simp: delete_on_hub_def second_def split: sum.splits option.splits)
  have hub2: "fw_hub w2 = fw_hub w" using resolveAPIKey_hub[OF key] hub1 by simp
  let ?tc = "NewClient (tr_baseURL (with_hub r)) apiKey"
  obtain w3 where rel: "releasePorts (with_hub r) ?tc tt w2 = (None, w3)" "fw_rest w3 = fw_rest w2"
    "hub_invites (fw_hub w3) = hub_invites (fw_hub w2)"
    "tenant_ports (fw_hub w3) ?t = filter (\<lambda>x. res_port x \<notin> port_of ` set (st_portAllocations (tt_status tt)) \<union>
       res_port ` {y \<in> set (tenant_ports (fw_hub w2) ?t). labelled tt y}) (tenant_ports (fw_hub w2) ?t)"
    using releasePorts_fake[OF assms(8,9), of w2 r ?tc] assms(10) hub2 by auto
  obtain x w4 where del: "DeleteInvite fake_http ?tc ?i w3 = (x, w4)" by (metis prod.exhaust)
  have after: "map_of (hub_invites (fw_hub w4)) ?i = None" "tenant_ports (fw_hub w4) ?t = tenant_ports (fw_hub w3) ?t"
    "x = None \<or> (\<exists>e. x = Some e \<and> is_hub_status 404 e)"
    using del by (auto simp: fake_DeleteInvite[OF assms(6)] tenant_ports_def delete_conv' split: option.splits)
  have fin: "drop_finalizer (with_hub r) tt w4 = (Inr 0, w')"
    using go(2) key k rel(1) del after(3) assms(7) by (auto simp: delete_on_hub_def Let_def)
  have "fw_hub w' = fw_hub w4" by (rule drop_finalizer_frame(1)[OF fin])
  moreover have "dns (fw_rest w') = dns (fw_rest w1)"
    using delete_on_hub_dns[OF assms(2) go(2)] .
  ultimately show ?thesis using after rel(4) own1 unfolding owned_only_def by fastforce
qed


section \<open>Witnesses\<close>

definition del_reconciler :: "dns_endpoint list tunnel_reconciler" where
  "del_reconciler = dns_reconciler\<lparr>tr_getenv := (\<lambda>_. ''key'')\<rparr>"

definition del_world :: "dns_endpoint list fake_world" where
  "del_world = \<lparr>fw_hub = fw_hub test_world, fw_rest = []\<rparr>"

lemma del_reconciler_api: "dns_api del_reconciler stored"
  using dns_reconciler_api by (simp add: dns_api_def del_reconciler_def tunnel_event_def)

lemma del_reconciler_frame: "dns_frame del_reconciler stored"
  by (simp add: dns_frame_def del_reconciler_def dns_reconciler_def idle_reconciler_def)

lemma del_finalizer: "contains_finalizer del_reconciler (m_finalizers (tt_meta test_tunnel)) FinalizerName"
  by (simp add: del_reconciler_def dns_reconciler_def idle_reconciler_def std_lib_def test_tunnel_def
      new_tunnel_def)

lemma del_tunnel:
  "st_inviteID (tt_status test_tunnel) = ''inv-1''" "st_tenantID (tt_status test_tunnel) = ''ten-1''"
  "ts_deletionPolicy (tt_spec test_tunnel) = []" "ts_apiKeySecretRef (tt_spec test_tunnel) = None"
  "\<forall>pa \<in> set (st_portAllocations (tt_status test_tunnel)). segment_ok (al_protocol pa) \<and> is_int32 (al_listenPort pa)"
  by (simp_all add: test_tunnel_def new_tunnel_def zero_tunnel_spec_def test_segments is_int32_def)

lemma del_typed: "ports_typed (fw_hub del_world) ''ten-1''"
  by (simp add: ports_typed_def del_world_def test_world_def Seed_def SeedReservation_def NewHub_def
      tenant_ports_def test_segments is_int32_def)

lemma del_invite: "map_of (hub_invites (fw_hub del_world)) ''inv-1'' \<noteq> None"
  by (simp add: del_world_def test_world_def Seed_def SeedReservation_def NewHub_def)

lemma del_run: "\<exists>w'. reconcileDelete (with_hub del_reconciler) test_tunnel del_world = (Inr 0, w')"
proof -
  have sweep: "sweepDNSEndpoints (with_hub del_reconciler) h None del_world = (None, del_world)" for h
    by (simp add: sweepDNSEndpoints_def on_rest_def del_reconciler_def dns_reconciler_def del_world_def
        errors_join_def)
  have key: "resolveAPIKey (with_hub del_reconciler) test_tunnel del_world = (Inr (Some ''key''), del_world)"
    by (simp add: resolveAPIKey_def del_tunnel del_reconciler_def)
  have segs: "segment_ok (st_tenantID (tt_status test_tunnel))"
    "ports_typed (fw_hub del_world) (st_tenantID (tt_status test_tunnel))"
    by (simp_all add: del_tunnel test_segments del_typed)
  obtain w1 where rel: "releasePorts (with_hub del_reconciler) (NewClient (tr_baseURL (with_hub del_reconciler)) ''key'')
      test_tunnel del_world = (None, w1)"
    using releasePorts_fake[OF segs(1) del_tunnel(5) segs(2)] by blast
  have fin: "\<exists>w'. drop_finalizer (with_hub del_reconciler) test_tunnel w = (Inr 0, w')" for w
    by (simp add: drop_finalizer_def on_rest_def del_reconciler_def dns_reconciler_def idle_reconciler_def)
  show ?thesis
    using fin sweep key rel del_finalizer
    by (auto simp: reconcileDelete_def delete_on_hub_def Let_def del_tunnel fake_DeleteInvite test_segments
        DeletionPolicyRetain_def split: option.split)
qed

lemma del_args:
  "st_inviteID (tt_status test_tunnel) \<noteq> []" "id_ok (st_inviteID (tt_status test_tunnel))"
  "st_tenantID (tt_status test_tunnel) \<noteq> []" "segment_ok (st_tenantID (tt_status test_tunnel))"
  "ts_deletionPolicy (tt_spec test_tunnel) \<noteq> DeletionPolicyRetain"
  "ports_typed (fw_hub del_world) (st_tenantID (tt_status test_tunnel))"
  by (simp_all add: del_tunnel test_segments DeletionPolicyRetain_def del_typed)

lemma del_gone:
  "reconcileDelete (with_hub del_reconciler) test_tunnel del_world = (Inr 0, w') \<Longrightarrow>
   map_of (hub_invites (fw_hub w')) ''inv-1'' = None"
  using reconcileDelete_effect[OF del_reconciler_api del_reconciler_frame del_finalizer del_args(5,1,2,3,4)
      del_tunnel(5) del_args(6)] by (auto simp: del_tunnel)


theorem reconcileDelete_dns_first_witness:
  "\<exists>res w'. reconcileDelete (with_hub del_reconciler) test_tunnel del_world = (res, w') \<and>
     fw_hub w' \<noteq> fw_hub del_world \<and>
     \<not> (\<exists>k ep. stored (fw_rest w') k = Some ep \<and> ownedByTunnel ep (tunnel_hash test_tunnel))"
proof -
  obtain w' where run: "reconcileDelete (with_hub del_reconciler) test_tunnel del_world = (Inr 0, w')"
    and gone: "map_of (hub_invites (fw_hub w')) ''inv-1'' = None"
    using del_run del_gone by blast
  have "fw_hub w' \<noteq> fw_hub del_world" using gone del_invite by auto
  with reconcileDelete_dns_first[OF del_reconciler_api del_reconciler_frame run this] run
  show ?thesis by blast
qed

theorem reconcileDelete_retains_witness:
  "\<exists>res w'. reconcileDelete (with_hub del_reconciler) (test_tunnel\<lparr>tt_spec := zero_tunnel_spec\<lparr>
       ts_deletionPolicy := DeletionPolicyRetain\<rparr>\<rparr>) del_world = (res, w') \<and> fw_hub w' = fw_hub del_world"
proof -
  let ?tt = "test_tunnel\<lparr>tt_spec := zero_tunnel_spec\<lparr>ts_deletionPolicy := DeletionPolicyRetain\<rparr>\<rparr>"
  obtain res w' where run: "reconcileDelete (with_hub del_reconciler) ?tt del_world = (res, w')"
    by (metis prod.exhaust)
  have "ts_deletionPolicy (tt_spec ?tt) = DeletionPolicyRetain" by simp
  from reconcileDelete_retains[OF del_reconciler_frame this run] run show ?thesis by blast
qed

end
