(* ===== verification/TunnelReady.thy ===== *)
theory TunnelReady
  imports TunnelDeletion
begin

text \<open>
  What the phase Ready of a tunnel stands for. A run of the reconcile loop that stores a Ready
  status has gone through every step: the token Secret of the current invite, the host names and
  the ports. The steps in between are shown to leave alone what the earlier ones established.
\<close>

section \<open>Frames\<close>

text \<open>Everything but the writes of Secrets, of the tunnel and of its status leaves an observation alone.\<close>

definition tunnel_frame :: "('w, 'b) tunnel_reconciler_scheme \<Rightarrow> ('w \<Rightarrow> 'o) \<Rightarrow> bool" where
  "tunnel_frame r obs \<longleftrightarrow>
     (\<forall>k w. obs (snd (tr_get_secret r k w)) = obs w) \<and> (\<forall>w. obs (snd (tr_list_agents r w)) = obs w) \<and>
     (\<forall>s w. obs (snd (tr_list_dns r s w)) = obs w) \<and> (\<forall>k w. obs (snd (tr_get_dns r k w)) = obs w) \<and>
     (\<forall>d w. obs (snd (tr_apply_dns r d w)) = obs w) \<and> (\<forall>k w. obs (snd (tr_delete_dns r k w)) = obs w) \<and>
     (\<forall>w. obs (snd (tr_now r w)) = obs w) \<and> (\<forall>q w. obs (snd (tr_http r q w)) = obs w) \<and>
     (\<forall>rec e w. tr_recorder r = Some rec \<longrightarrow> obs (rec e w) = obs w)"

text \<open>The same for the steps that neither create nor delete an invite.\<close>

definition quiet_frame :: "('w, 'b) tunnel_reconciler_scheme \<Rightarrow> ('w \<Rightarrow> 'o) \<Rightarrow> bool" where
  "quiet_frame r obs \<longleftrightarrow>
     (\<forall>k w. obs (snd (tr_get_secret r k w)) = obs w) \<and> (\<forall>w. obs (snd (tr_list_agents r w)) = obs w) \<and>
     (\<forall>s w. obs (snd (tr_list_dns r s w)) = obs w) \<and> (\<forall>k w. obs (snd (tr_get_dns r k w)) = obs w) \<and>
     (\<forall>d w. obs (snd (tr_apply_dns r d w)) = obs w) \<and> (\<forall>k w. obs (snd (tr_delete_dns r k w)) = obs w) \<and>
     (\<forall>w. obs (snd (tr_now r w)) = obs w) \<and>
     (\<forall>rec e w. tr_recorder r = Some rec \<longrightarrow> obs (rec e w) = obs w) \<and>
     (\<forall>c w. obs (snd (ListInvites (tr_http r) c w)) = obs w) \<and>
     (\<forall>c i w. obs (snd (GetInvite (tr_http r) c i w)) = obs w) \<and>
     (\<forall>c i hs w. obs (snd (AddHostnames (tr_http r) c i hs w)) = obs w) \<and>
     (\<forall>c i h w. obs (snd (RemoveHostname (tr_http r) c i h w)) = obs w) \<and>
     (\<forall>c i w. obs (snd (GetInviteStatus (tr_http r) c i w)) = obs w) \<and>
     (\<forall>c t q w. obs (snd (ReservePort (tr_http r) c t q w)) = obs w) \<and>
     (\<forall>c t w. obs (snd (ListPorts (tr_http r) c t w)) = obs w) \<and>
     (\<forall>c t p n w. obs (snd (ReleasePort (tr_http r) c t p n w)) = obs w)"

lemma quiet_run:
  assumes "quiet_frame r obs"
  shows "tr_get_secret r k w = (x1, w1) \<Longrightarrow> obs w1 = obs w"
    and "tr_list_agents r w = (x2, w1) \<Longrightarrow> obs w1 = obs w"
    and "tr_list_dns r s w = (x3, w1) \<Longrightarrow> obs w1 = obs w"
    and "tr_get_dns r k w = (x4, w1) \<Longrightarrow> obs w1 = obs w"
    and "tr_apply_dns r d w = (x5, w1) \<Longrightarrow> obs w1 = obs w"
    and "tr_delete_dns r k w = (x6, w1) \<Longrightarrow> obs w1 = obs w"
    and "tr_now r w = (x7, w1) \<Longrightarrow> obs w1 = obs w"
  using assms unfolding quiet_frame_def by (metis snd_conv)+

lemma hub_frame:
  assumes "quiet_frame r obs"
  shows "ListInvites (tr_http r) c w = (x1, w1) \<Longrightarrow> obs w1 = obs w"
    and "GetInvite (tr_http r) c i w = (x2, w1) \<Longrightarrow> obs w1 = obs w"
    and "AddHostnames (tr_http r) c i hs w = (x3, w1) \<Longrightarrow> obs w1 = obs w"
    and "RemoveHostname (tr_http r) c i h w = (x4, w1) \<Longrightarrow> obs w1 = obs w"
    and "GetInviteStatus (tr_http r) c i w = (x5, w1) \<Longrightarrow> obs w1 = obs w"
    and "ReservePort (tr_http r) c t q w = (x6, w1) \<Longrightarrow> obs w1 = obs w"
    and "ListPorts (tr_http r) c t w = (x7, w1) \<Longrightarrow> obs w1 = obs w"
    and "ReleasePort (tr_http r) c t p n w = (x8, w1) \<Longrightarrow> obs w1 = obs w"
  using assms unfolding quiet_frame_def by (metis snd_conv)+

lemma event_frame [simp]: "quiet_frame r obs \<Longrightarrow> obs (tunnel_event r tt rs m w) = obs w"
  by (auto simp: tunnel_event_def quiet_frame_def split: option.split)

lemma conflict_frame [simp]: "quiet_frame r obs \<Longrightarrow> obs (conflict_event r tt h w) = obs w"
  by (simp add: conflict_event_def)

lemma client_frame:
  assumes "tunnel_frame r obs"
  shows "obs (snd (client_do (tr_http r) c mthd path body dec zero w)) = obs w"
    and "obs (snd (client_do_nil (tr_http r) c mthd path w)) = obs w"
  using assms by (simp_all add: tunnel_frame_def client_do_def client_do_nil_def Let_def split_def)

lemma tunnel_quiet: "tunnel_frame r obs \<Longrightarrow> quiet_frame r obs"
  by (simp add: quiet_frame_def ListInvites_def GetInvite_def AddHostnames_def RemoveHostname_def
      GetInviteStatus_def ReservePort_def ListPorts_def ReleasePort_def client_frame)
    (simp add: tunnel_frame_def)

lemma create_invite_frame:
  "tunnel_frame r obs \<Longrightarrow> CreateInvite (tr_http r) c req w = (x, w1) \<Longrightarrow> obs w1 = obs w"
  using client_frame(1)[of r obs] by (metis CreateInvite_def snd_conv)

lemma resolveAPIKey_frame: "quiet_frame r obs \<Longrightarrow> resolveAPIKey r tt w = (x, w1) \<Longrightarrow> obs w1 = obs w"
  by (auto simp: resolveAPIKey_def Let_def dest: quiet_run(1) split: option.splits sum.splits prod.splits if_splits)

lemma listReferencingAgents_frame:
  "quiet_frame r obs \<Longrightarrow> listReferencingAgents r tt w = (x, w1) \<Longrightarrow> obs w1 = obs w"
  by (auto simp: listReferencingAgents_def dest: quiet_run(2) split: sum.splits prod.splits)

lemma ensureInvite_frame:
  assumes F: "tunnel_frame r obs" and "ensureInvite r tc tt ds w = (x, w1)"
  shows "obs w1 = obs w"
  using assms(2)
  by (auto simp: ensureInvite_def Let_def split: if_splits prod.splits option.splits sum.splits
      dest!: create_invite_frame[OF F] hub_frame(1)[OF tunnel_quiet[OF F]])

lemma add_missing_frame:
  "quiet_frame r obs \<Longrightarrow> add_missing r tc tt hub ds acc w = (x, w1) \<Longrightarrow> obs w1 = obs w"
proof (induction ds arbitrary: acc w)
  case (Cons h hs)
  then show ?case
    by (cases acc) (fastforce split: if_splits prod.splits sum.splits dest: hub_frame(3))
qed simp

lemma remove_stale_frame:
  "quiet_frame r obs \<Longrightarrow> remove_stale r tc tt ds hub acc w = (x, w1) \<Longrightarrow> obs w1 = obs w"
proof (induction hub arbitrary: acc w)
  case (Cons h hs)
  then show ?case
    by (cases acc) (fastforce split: if_splits prod.splits sum.splits dest: hub_frame(4))
qed simp

lemma convergeHostnames_obs:
  assumes F: "quiet_frame r obs" and "convergeHostnames r tc tt ds w = (x, w1)"
  shows "obs w1 = obs w"
  using assms(2)
  by (auto simp: convergeHostnames_def Let_def split: sum.splits prod.splits if_splits
      dest!: add_missing_frame[OF F] remove_stale_frame[OF F] hub_frame(2)[OF F])

lemma reserve_desired_frame:
  "quiet_frame r obs \<Longrightarrow> reserve_desired r tc tt ob ds cache acc w = (x, w1) \<Longrightarrow> obs w1 = obs w"
proof (induction ds arbitrary: cache acc w)
  case (Cons d ds)
  have l: "listReservations r tc tt cache u = (y, u1) \<Longrightarrow> obs u1 = obs u" for u y u1
    using Cons.prems(1)
    by (auto simp: listReservations_def dest: hub_frame(7) split: option.splits sum.splits prod.splits)
  show ?case
    using Cons.prems Cons.IH[OF Cons.prems(1)]
    by (cases acc) (fastforce simp: Let_def split: option.splits prod.splits sum.splits dest: l hub_frame(6))
qed simp

lemma prune_ports_frame:
  "quiet_frame r obs \<Longrightarrow> prune_ports r tc tt ob dk ks acc w = (x, w1) \<Longrightarrow> obs w1 = obs w"
proof (induction ks arbitrary: acc w)
  case (Cons k ks)
  then show ?case
    by (cases acc) (fastforce split: if_splits prod.splits option.splits dest: hub_frame(8))
qed simp

lemma convergePorts_obs:
  assumes F: "quiet_frame r obs" and "convergePorts r tc tt agents w = (x, w1)"
  shows "obs w1 = obs w"
  using assms
  by (auto simp: convergePorts_def Let_def split: prod.splits option.splits if_splits
      dest!: reserve_desired_frame[OF F] prune_ports_frame[OF F])

lemma setDNSCond_frame:
  "quiet_frame r obs \<Longrightarrow> setDNSCond r s rs m tt w = (x, w1) \<Longrightarrow> obs w1 = obs w"
  by (auto simp: setDNSCond_def Let_def split: if_splits)

lemma sweep_frame:
  assumes F: "quiet_frame r obs" and "sweepDNSEndpoints r h keep w = (x, w1)"
  shows "obs w1 = obs w"
proof -
  have del: "obs u1 = obs u" if "delete_endpoints r keep items errs u = (es, u1)" for items errs u es u1
    using that
  proof (induction items arbitrary: errs u)
    case (Cons item items)
    then show ?case
      by (fastforce simp: Let_def split: if_splits prod.splits option.splits dest: quiet_run(6)[OF F])
  qed simp
  show ?thesis using assms(2)
    by (auto simp: sweepDNSEndpoints_def dest!: quiet_run(3)[OF F] del split: sum.splits prod.splits if_splits)
qed

lemma reconcileDNS_frame:
  assumes F: "quiet_frame r obs" and "reconcileDNS r tt view oo w = (x, w1)"
  shows "obs w1 = obs w"
proof -
  have dn: "obs u1 = obs u" if "dns_done r a b c d tt' u = (y, u1)" for a b c d tt' u y u1
    using that by (auto simp: dns_done_def dest: setDNSCond_frame[OF F] split: prod.splits)
  have wd: "obs u1 = obs u" if "withdraw_then r tt' k u = (y, u1)"
    and "\<And>t v z v1. k t v = (z, v1) \<Longrightarrow> obs v1 = obs v" for tt' k u y u1
    using that(1)
    by (auto simp: withdraw_then_def Let_def dest!: sweep_frame[OF F] setDNSCond_frame[OF F] that(2)
        split: option.splits prod.splits)
  have ap: "obs u1 = obs u" if "apply_endpoint r d tt' u = (y, u1)" for d tt' u y u1
    using that by (auto simp: apply_endpoint_def Let_def dest!: quiet_run(5)[OF F] dn
        split: option.splits prod.splits if_splits)
  have pub: "obs u1 = obs u" if "publish_endpoint r d tt' u = (y, u1)" for d tt' u y u1
    using that by (auto simp: publish_endpoint_def Let_def dest!: sweep_frame[OF F] quiet_run(4)[OF F] ap dn
        split: option.splits sum.splits prod.splits if_splits)
  show ?thesis using assms(2)
    by (auto simp: reconcileDNS_def Let_def dest!: wd pub dn split: if_splits sum.splits prod.splits)
qed

lemma populate_frame:
  assumes F: "quiet_frame r obs" and "populateRegionEndpoints r tc tt w = (x, w1)"
  shows "obs w1 = obs w"
  using assms(2)
  by (auto simp: populateRegionEndpoints_def Let_def dest!: hub_frame(5)[OF F] split: if_splits sum.splits prod.splits)

section \<open>What the later steps keep of the status\<close>

definition core :: "('a) k8s_lib_scheme \<Rightarrow> towonel_tunnel
    \<Rightarrow> meta \<times> tunnel_spec \<times> string \<times> secret_reference option \<times> string list \<times> condition option" where
  "core L tt = (tt_meta tt, tt_spec tt, st_inviteID (tt_status tt), st_tokenSecretRef (tt_status tt),
     st_authorizedHostnames (tt_status tt), tunnel_cond L tt CondHostnamesSynced)"

lemma core_setCond [simp]:
  "lib_ok L \<Longrightarrow> t \<noteq> CondHostnamesSynced \<Longrightarrow> core L (setCond L t s rs m tt) = core L tt"
  by (simp add: core_def setCond_cond)

lemma core_status:
  "(\<And>st. st_inviteID (f st) = st_inviteID st \<and> st_tokenSecretRef (f st) = st_tokenSecretRef st \<and>
     st_authorizedHostnames (f st) = st_authorizedHostnames st \<and> st_conditions (f st) = st_conditions st) \<Longrightarrow>
   core L (with_status f tt) = core L tt"
  by (simp add: core_def tunnel_cond_def)

lemma core_set [simp]:
  "core L (set_records recs tt) = core L tt" "core L (publish_ports as tt) = core L tt"
  "core L (set_phase p tt) = core L tt" "core L (observe tt) = core L tt"
  by (simp_all add: set_records_def publish_ports_def set_phase_def observe_def core_status)

lemma core_drop_dns:
  "lib_ok L \<Longrightarrow> core L (with_status (\<lambda>st. st\<lparr>st_conditions :=
     remove_status_condition L (st_conditions st) CondDNSEndpointSynced\<rparr>) tt) = core L tt"
  by (simp add: core_def tunnel_cond_def lib_find_remove cond_names)

lemma cond_distinct [simp]:
  "CondDNSEndpointSynced \<noteq> CondHostnamesSynced" "CondRegionEndpointsAvailable \<noteq> CondHostnamesSynced"
  "CondPortsReserved \<noteq> CondHostnamesSynced" "CondReady \<noteq> CondHostnamesSynced"
  "CondInviteIssued \<noteq> CondHostnamesSynced" "CondTokenExpiringSoon \<noteq> CondHostnamesSynced"
  by (simp_all add: cond_names)

lemma setDNSCond_core: "lib_ok r \<Longrightarrow> setDNSCond r s rs m tt w = (tt', w1) \<Longrightarrow> core r tt' = core r tt"
  by (auto simp: setDNSCond_def Let_def)

lemma reconcileDNS_core:
  assumes L: "lib_ok r" and "reconcileDNS r tt view oo w = ((b, tt'), w1)"
  shows "core r tt' = core r tt"
proof -
  have dn: "core r t' = core r t" if "dns_done r a b c d t u = ((y, t'), u1)" for a b c d t t' u y u1
    using that by (auto simp: dns_done_def dest: setDNSCond_core[OF L] split: prod.splits)
  have wd: "core r t' = core r t" if "withdraw_then r t k u = ((y, t'), u1)"
    and "\<And>t v z t2 v1. k t v = ((z, t2), v1) \<Longrightarrow> core r t2 = core r t" for t t' k u y u1
    using that(1)
    by (auto simp: withdraw_then_def Let_def dest!: setDNSCond_core[OF L] that(2) split: option.splits prod.splits)
  have ap: "core r t' = core r t" if "apply_endpoint r d t u = ((y, t'), u1)" for d t t' u y u1
    using that by (auto simp: apply_endpoint_def Let_def dest!: dn split: option.splits prod.splits if_splits)
  have pub: "core r t' = core r t" if "publish_endpoint r d t u = ((y, t'), u1)" for d t t' u y u1
    using that by (auto simp: publish_endpoint_def Let_def dest!: ap dn
        split: option.splits sum.splits prod.splits if_splits)
  show ?thesis using assms(2)
    by (auto simp: reconcileDNS_def Let_def core_drop_dns[OF L] dest!: wd pub dn split: if_splits sum.splits prod.splits)
qed

lemma populate_core:
  "lib_ok r \<Longrightarrow> populateRegionEndpoints r tc tt w = (tt', w1) \<Longrightarrow> core r tt' = core r tt"
  by (auto simp: populateRegionEndpoints_def Let_def core_status split: if_splits sum.splits prod.splits)

lemma convergePorts_core:
  "lib_ok r \<Longrightarrow> convergePorts r tc tt agents w = ((e, tt'), w1) \<Longrightarrow> core r tt' = core r tt"
  by (auto simp: convergePorts_def Let_def split: prod.splits option.splits if_splits)

lemma rollupStatus_core: "lib_ok L \<Longrightarrow> core L (rollupStatus L tt now) = core L tt"
  by (simp add: rollupStatus_def Let_def)

lemma rollupStatus_ports:
  "st_portAllocations (tt_status (rollupStatus L tt now)) = st_portAllocations (tt_status tt)"
  by (simp add: rollupStatus_def Let_def set_phase_def)

section \<open>What each step establishes\<close>

lemma add_missing_authorized:
  "add_missing r tc tt hub ds (A, C) w = (Inr (A', C'), w1) \<Longrightarrow> set A' = set A \<union> (set ds - set hub)"
proof (induction ds arbitrary: A C w)
  case (Cons h hs)
  have new: "set (append_new xs h) = insert h (set xs)" for xs by (auto simp: append_new_def)
  show ?case
  proof (cases "h \<in> set hub")
    case True
    then show ?thesis using Cons by auto
  next
    case False
    obtain x u where x: "AddHostnames (tr_http r) tc (st_inviteID (tt_status tt)) [h] w = (x, u)" by fastforce
    have "\<exists>C2 u2. add_missing r tc tt hub hs (append_new A h, C2) u2 = (Inr (A', C'), w1)"
      using Cons.prems False x by (auto split: sum.splits if_splits)
    then obtain C2 u2 where "add_missing r tc tt hub hs (append_new A h, C2) u2 = (Inr (A', C'), w1)" by blast
    from Cons.IH[OF this] False show ?thesis by (auto simp: new)
  qed
qed simp

lemma remove_stale_authorized:
  "remove_stale r tc tt ds hub (A, C) w = (Inr (A', C'), w1) \<Longrightarrow> set A' = set A - (set hub - set ds)"
proof (induction hub arbitrary: A C w)
  case (Cons h hs)
  show ?case
  proof (cases "h \<in> set ds")
    case True
    then show ?thesis using Cons by auto
  next
    case False
    then have "\<exists>u. remove_stale r tc tt ds hs (removeAll h A, removeAll h C) u = (Inr (A', C'), w1)"
      using Cons.prems by (auto split: sum.splits prod.splits)
    then obtain u where "remove_stale r tc tt ds hs (removeAll h A, removeAll h C) u = (Inr (A', C'), w1)" by blast
    from Cons.IH[OF this] False show ?thesis by auto
  qed
qed simp

text \<open>A run of \<open>convergeHostnames\<close> on an invite that is not revoked records the desired host names.\<close>

lemma convergeHostnames_authorized:
  assumes "convergeHostnames r tc tt ds w = ((Inr view, tt'), w1)" and "\<not> vw_revoked view"
  shows "set (st_authorizedHostnames (tt_status tt')) = set ds - {[]}"
  using assms
  by (auto simp: convergeHostnames_def set_authorized_def Let_def
      dest!: add_missing_authorized remove_stale_authorized split: sum.splits prod.splits if_splits)

text \<open>The hub answers a reservation with the protocol it was asked for.\<close>

definition echoes_protocol :: "('w, 'b) tunnel_reconciler_scheme \<Rightarrow> bool" where
  "echoes_protocol r \<longleftrightarrow> (\<forall>c t req w resp w'. ReservePort (tr_http r) c t req w = (Inr resp, w') \<longrightarrow>
     rr_protocol resp = rp_protocol req)"

lemma reserve_desired_errs:
  "reserve_desired r tc tt ob ds cache (as, es) w = ((as', es'), w1) \<Longrightarrow> es' = [] \<Longrightarrow> es = []"
proof (induction ds arbitrary: cache as es w)
  case (Cons d ds)
  then show ?case
    by (auto simp: Let_def split: option.splits prod.splits sum.splits dest!: Cons.IH)
qed simp

lemma prune_errs:
  "prune_ports r tc tt ob dk ks (as, es) w = ((as', es'), w1) \<Longrightarrow> es' = [] \<Longrightarrow> es = [] \<and> as' = as"
proof (induction ks arbitrary: as es w)
  case (Cons k ks)
  then show ?case
    by (fastforce split: if_splits option.splits prod.splits)
qed simp

lemma reserve_desired_names:
  assumes E: "echoes_protocol r" and obs: "\<And>k pa. map_of ob k = Some pa \<Longrightarrow> al_key pa = k"
  shows "reserve_desired r tc tt ob ds cache (as, es) w = ((as', []), w1) \<Longrightarrow>
    map al_key as' = map al_key as @ map dpt_key ds"
proof (induction ds arbitrary: cache as es w)
  case (Cons d ds)
  have adopted: "al_key (allocFromResponse (dpt_name d) res) = dpt_key d" if "rr_protocol res = dpt_protocol d" for res
    using that by (simp add: allocFromResponse_def al_key_def dpt_key_def)
  have found: "find_reservation tt d rs = Some res \<Longrightarrow> rr_protocol res = dpt_protocol d" for rs res
    by (auto simp: find_reservation_def find_Some_iff)
  have reserved: "rr_protocol resp = dpt_protocol d"
    if "ReservePort (tr_http r) c t (reserve_request tt d) u = (Inr resp, u1)" for c t u resp u1
  proof -
    have "rr_protocol resp = rp_protocol (reserve_request tt d)"
      using E that unfolding echoes_protocol_def by blast
    then show ?thesis by (simp add: reserve_request_def)
  qed
  have step: ?case if "reserve_desired r tc tt ob ds cache' (as @ [pa], es) w' = ((as', []), w1)"
    and "al_key pa = dpt_key d" for cache' pa w'
    using Cons.IH[OF that(1)] that(2) by simp
  show ?case
  proof (cases "map_of ob (dpt_key d)")
    case (Some pa)
    then have "reserve_desired r tc tt ob ds cache (as @ [pa], es) w = ((as', []), w1)" using Cons.prems by simp
    from step[OF this obs[OF Some]] show ?thesis .
  next
    case None
    obtain rs v where rs: "listReservations r tc tt cache w = (rs, v)" by fastforce
    show ?thesis
    proof (cases "find_reservation tt d rs")
      case (Some res)
      then have "reserve_desired r tc tt ob ds (Some rs) (as @ [allocFromResponse (dpt_name d) res], es) v = ((as', []), w1)"
        using Cons.prems None rs by simp
      from step[OF this adopted[OF found[OF Some]]] show ?thesis .
    next
      case no: None
      obtain x u where x: "ReservePort (tr_http r) tc (st_tenantID (tt_status tt)) (reserve_request tt d) v = (x, u)"
        by fastforce
      show ?thesis
      proof (cases x)
        case (Inl e)
        then show ?thesis using Cons.prems None rs no x reserve_desired_errs by fastforce
      next
        case (Inr resp)
        then have "reserve_desired r tc tt ob ds (Some rs) (as @ [allocFromResponse (dpt_name d) resp], es) u = ((as', []), w1)"
          using Cons.prems None rs no x by simp
        from step[OF this adopted[OF reserved]] show ?thesis using x Inr by simp
      qed
    qed
  qed
qed simp

lemma convergePorts_names:
  assumes E: "echoes_protocol r" and run: "convergePorts r tc tt agents w = ((None, tt'), w1)"
  shows "map al_key (st_portAllocations (tt_status tt')) = sort (firsts (map entry_key (l4_entries agents)))"
proof -
  let ?ob = "observed_ports tt" and ?ds = "fst (desiredPorts agents)"
  obtain as es v where one: "reserve_desired r tc tt ?ob ?ds None ([], []) w = ((as, es), v)"
    by (metis prod.exhaust)
  obtain bs fs u where two: "prune_ports r tc tt ?ob (map dpt_key ?ds) (tr_range r v (map fst ?ob)) (as, es) v = ((bs, fs), u)"
    by (metis prod.exhaust)
  have fs: "fs = []" and tt': "st_portAllocations (tt_status tt') = sort_key al_key bs"
    using run one two
    by (auto simp: convergePorts_def Let_def errors_join_def publish_ports_def split: prod.splits if_splits)
  from prune_errs[OF two fs] have "es = []" "bs = as" by auto
  with reserve_desired_names[OF E _ one[unfolded \<open>es = []\<close>]] observed_ports_Some
  have "map al_key bs = map dpt_key ?ds" by auto
  then show ?thesis by (simp add: tt' map_sort_key desired_keys)
qed

section \<open>Ready\<close>

text \<open>The documented behaviour of the API server on the status of a tunnel: \<open>stat w\<close> is what it
  holds; an update that succeeds stores the status given, and no other write touches it.\<close>

definition tunnel_status_api :: "('w, 'b) tunnel_reconciler_scheme \<Rightarrow> ('w \<Rightarrow> nn \<Rightarrow> secret_obj option)
    \<Rightarrow> ('w \<Rightarrow> tunnel_status) \<Rightarrow> bool" where
  "tunnel_status_api r secs stat \<longleftrightarrow>
     (\<forall>t w w'. tr_status_update r t w = (None, w') \<longrightarrow> stat w' = tt_status t \<and> secs w' = secs w) \<and>
     (\<forall>t w e w'. tr_status_update r t w = (Some e, w') \<longrightarrow> stat w' = stat w) \<and>
     (\<forall>s w. stat (snd (tr_apply_secret r s w)) = stat w)"

lemma writeStatus_effect:
  assumes "tunnel_status_api r secs stat" and "writeStatus r tt orig w = (e, w')"
  shows "stat w' = stat w \<or> stat w' = tt_status (observe tt) \<and> secs w' = secs w"
  using assms by (cases e) (auto simp: writeStatus_def tunnel_status_api_def split: if_splits)

lemma park_effect:
  assumes "tunnel_status_api r secs stat" and "park r tt orig d w = (res, w')"
  shows "stat w' = stat w \<or> stat w' = tt_status (observe tt) \<and> secs w' = secs w"
  using writeStatus_effect[OF assms(1)] assms(2) by (auto simp: park_def split: option.splits prod.splits)

lemma observe_phase [simp]: "st_phase (tt_status (observe tt)) = st_phase (tt_status tt)"
  by (simp add: observe_def)

lemma phase_set [simp]: "st_phase (tt_status (set_phase p tt)) = p"
  by (simp add: set_phase_def)

lemma fail_effect:
  assumes "tunnel_status_api r secs stat" and "fail r tt orig err w = (res, w')"
  shows "stat w' = stat w \<or> st_phase (stat w') = ''Error''"
proof -
  obtain e where "writeStatus r (set_phase ''Error'' (setCond r CondReady CFalse ReasonAPIError (err_text err) tt)) orig w = (e, w')"
    using assms(2) by (auto simp: fail_def split: prod.splits option.splits)
  from writeStatus_effect[OF assms(1) this] show ?thesis by auto
qed

lemma not_ready:
  assumes "tunnel_status_api r secs stat" and "stat v = s0" and "stat w' \<noteq> s0" and "st_phase (stat w') = ''Ready''"
  shows "fail r t orig e v \<noteq> (res, w')"
    and "p \<noteq> ''Ready'' \<Longrightarrow> park r (set_phase p t) orig d v \<noteq> (res, w')"
  using fail_effect[OF assms(1), of t orig e v res w'] park_effect[OF assms(1), of "set_phase p t" orig d v res w'] assms(2-4)
  by auto

lemma ensureTokenSecret_stat:
  assumes "tunnel_status_api r secs stat" and F: "quiet_frame r stat" and "ensureTokenSecret r tt token w = (x, w1)"
  shows "stat w1 = stat w"
proof -
  have "tr_apply_secret r s u = (y, u1) \<Longrightarrow> stat u1 = stat u" for s u y u1
    using assms(1) unfolding tunnel_status_api_def by (metis snd_conv)
  then show ?thesis using assms(3)
    by (auto simp: ensureTokenSecret_def write_token_def Let_def dest!: quiet_run(1)[OF F]
        split: sum.splits prod.splits option.splits if_splits)
qed

text \<open>The end of a run, from the confirmed host names on.\<close>

definition hosts_cond :: "towonel_tunnel \<Rightarrow> inviteView \<Rightarrow> ('a) k8s_lib_scheme \<Rightarrow> towonel_tunnel" where
  "hosts_cond tt view L = (if vw_revoked view
     then setCond L CondHostnamesSynced CFalse ReasonInviteRevoked
       (''hub reports invite '' @ st_inviteID (tt_status tt) @ '' revoked; hostnames not converged'') tt
     else setCond L CondHostnamesSynced CTrue ReasonSynced ''authorized hostnames converged'' tt)"

lemma finish_ready:
  assumes api: "tunnel_status_api r secs stat" and L: "lib_ok r" and E: "echoes_protocol r"
    and F: "quiet_frame r secs" "quiet_frame r stat"
    and run: "finish_reconcile r tc tt orig view agents w = (res, w')"
    and new: "stat w' \<noteq> stat w" and ready: "st_phase (stat w') = ''Ready''"
  shows "\<exists>t. stat w' = tt_status t \<and> secs w' = secs w \<and> core r t = core r (hosts_cond tt view r) \<and>
    st_inviteID (stat w') \<noteq> [] \<and> st_observedGeneration (stat w') = m_generation (tt_meta tt) \<and>
    map al_key (st_portAllocations (stat w')) = sort (firsts (map entry_key (l4_entries agents)))"
proof -
  let ?t1 = "hosts_cond tt view r"
  obtain b t2 w1 where dns: "reconcileDNS r ?t1 view (dnsOptOutHostnames agents) w = ((b, t2), w1)"
    by (metis prod.exhaust)
  obtain t3 w2 where reg: "populateRegionEndpoints r tc t2 w1 = (t3, w2)" by fastforce
  obtain e t4 w3 where ports: "convergePorts r tc t3 agents w2 = ((e, t4), w3)" by (metis prod.exhaust)
  have core4: "core r t4 = core r ?t1"
    using reconcileDNS_core[OF L dns] populate_core[OF L reg] convergePorts_core[OF L ports] by simp
  have same: "obs w3 = obs w" if "quiet_frame r obs" for obs :: "'a \<Rightarrow> 'o"
    using reconcileDNS_frame[OF that dns] populate_frame[OF that reg] convergePorts_obs[OF that ports] by simp
  show ?thesis
  proof (cases e)
    case (Some err)
    then have "fail r t4 orig err w3 = (res, w')"
      using run dns reg ports by (simp add: finish_reconcile_def hosts_cond_def Let_def)
    from fail_effect[OF api this] show ?thesis using new ready same[OF F(2)] by auto
  next
    case None
    obtain now w4 where now: "tr_now r w3 = (now, w4)" by fastforce
    let ?t5 = "rollupStatus r t4 now"
    have "park r ?t5 orig (if b then dnsRetryRequeue else 30 * minute) w4 = (res, w')"
      using run dns reg ports now None by (simp add: finish_reconcile_def hosts_cond_def Let_def)
    from park_effect[OF api this] have st: "stat w' = tt_status (observe ?t5)" "secs w' = secs w4"
      using new same[OF F(2)] quiet_run(7)[OF F(2) now] by auto
    have core5: "core r (observe ?t5) = core r ?t1" using core4 rollupStatus_core[OF L] by simp
    have inv: "st_inviteID (stat w') \<noteq> []"
      using ready st(1) by (auto simp: observe_def rollupStatus_def Let_def set_phase_def split: if_splits)
    have gen: "st_observedGeneration (stat w') = m_generation (tt_meta tt)"
      using core5 by (simp add: st observe_def core_def hosts_cond_def split: if_splits)
    have "map al_key (st_portAllocations (stat w')) = sort (firsts (map entry_key (l4_entries agents)))"
      using convergePorts_names[OF E] ports None by (simp add: st observe_def rollupStatus_ports)
    then show ?thesis
      using st core5 inv gen same[OF F(1)] quiet_run(7)[OF F(1) now] by auto
  qed
qed

lemma ensureInvite_keeps:
  "ensureInvite r tc tt ds w = ((x, tt'), w1) \<Longrightarrow> tt_meta tt' = tt_meta tt \<and> tt_spec tt' = tt_spec tt"
  by (auto simp: ensureInvite_def adopt_def issue_def Let_def split: if_splits option.splits sum.splits prod.splits)

lemma ensureTokenSecret_keeps:
  "ensureTokenSecret r tt token w = ((e, tt'), w') \<Longrightarrow> tt_meta tt' = tt_meta tt \<and> tt_spec tt' = tt_spec tt \<and>
     st_inviteID (tt_status tt') = st_inviteID (tt_status tt)"
  by (auto simp: ensureTokenSecret_def write_token_def set_token_ref_def Let_def
      split: sum.splits if_splits option.splits prod.splits)

text \<open>What the final status says, against the cluster.\<close>

definition backed :: "('w, 'b) tunnel_reconciler_scheme \<Rightarrow> towonel_tunnel \<Rightarrow> towonel_agent list
    \<Rightarrow> (nn \<Rightarrow> secret_obj option) \<Rightarrow> tunnel_status \<Rightarrow> bool" where
  "backed r tt agents secrets st \<longleftrightarrow>
     (let key = (m_ns (tt_meta tt), tokenSecretName (m_name (tt_meta tt))) in
      st_inviteID st \<noteq> [] \<and> st_observedGeneration st = m_generation (tt_meta tt) \<and>
      (\<exists>s. secrets key = Some s \<and> mget (sec_data s) tokenDataKey \<noteq> [] \<and>
         mget (m_annotations (sec_meta s)) AnnotationInviteID = st_inviteID st) \<and>
      st_tokenSecretRef st = Some \<lparr>sr_name = snd key, sr_namespace = fst key\<rparr> \<and>
      map al_key (st_portAllocations st) = sort (firsts (map entry_key (l4_entries agents))) \<and>
      (\<exists>c. find_status_condition r (st_conditions st) CondHostnamesSynced = Some c \<and>
         (c_status c = CTrue \<longrightarrow> set (st_authorizedHostnames st) = set (desiredHostnames tt agents))))"

text \<open>A run that ends in Ready has passed every early return.\<close>

lemma reconcile_invite_passes:
  assumes api: "tunnel_status_api r secs stat" and F: "tunnel_frame r stat"
    and run: "reconcile_invite r tc tt orig agents ds w = (res, w')"
    and new: "stat w' \<noteq> stat w" and ready: "st_phase (stat w') = ''Ready''"
  obtains token t1 w1 t2 w2 view t3 w3 where "ensureInvite r tc tt ds w = ((Inr token, t1), w1)"
    and "ensureTokenSecret r t1 token w1 = ((None, t2), w2)"
    and "convergeHostnames r tc t2 ds w2 = ((Inr view, t3), w3)" and "stat w3 = stat w"
    and "finish_reconcile r tc t3 orig view agents w3 = (res, w')"
proof -
  note Q = tunnel_quiet[OF F]
  note failed = not_ready(1)[OF api _ new ready] and parked = not_ready(2)[OF api _ new ready, of _ "''Pending''", simplified]
  obtain x t1 w1 where inv: "ensureInvite r tc tt ds w = ((x, t1), w1)" by (metis prod.exhaust)
  note w1 = ensureInvite_frame[OF F inv]
  have "\<not> isl x" using run inv failed[OF w1] by (auto simp: reconcile_invite_def isl_def)
  then obtain token where x: "x = Inr token" by (cases x) auto
  obtain se t2 w2 where sec: "ensureTokenSecret r t1 token w1 = ((se, t2), w2)" by (metis prod.exhaust)
  have w2: "stat w2 = stat w" using ensureTokenSecret_stat[OF api Q sec] w1 by simp
  have "se = None"
  proof (rule ccontr)
    assume "se \<noteq> None"
    then obtain e where e: "se = Some e" by blast
    show False using run inv x sec e failed[OF w2] parked[OF w2] by (auto simp: reconcile_invite_def split: if_splits)
  qed
  obtain h t3 w3 where host: "convergeHostnames r tc t2 ds w2 = ((h, t3), w3)" by (metis prod.exhaust)
  have w3: "stat w3 = stat w" using convergeHostnames_obs[OF Q host] w2 by simp
  have "\<not> isl h"
  proof
    assume "isl h"
    then obtain e where h: "h = Inl e" by (auto simp: isl_def)
    obtain q t5 w4 where after: "(if errors_is e ErrInviteNotFound
        then reconcileDNS r (setCond r CondHostnamesSynced CFalse ReasonAPIError (err_text e) t3)
          \<lparr>vw_confirmed = [], vw_region = [], vw_revoked = True\<rparr> [] w3
        else ((False, setCond r CondHostnamesSynced CFalse ReasonAPIError (err_text e) t3), w3)) = ((q, t5), w4)"
      by (metis prod.exhaust)
    have "stat w4 = stat w" using after w3 by (auto dest: reconcileDNS_frame[OF Q] split: if_splits)
    moreover have "fail r t5 orig e w4 = (res, w')"
      using run inv x sec \<open>se = None\<close> host h after by (simp add: reconcile_invite_def Let_def)
    ultimately show False using failed by blast
  qed
  then obtain view where "h = Inr view" by (cases h) auto
  then show ?thesis using that[of token t1 w1 t2 w2 view t3 w3] run inv x sec \<open>se = None\<close> host w3
    by (simp add: reconcile_invite_def)
qed

lemma reconcile_invite_ready:
  assumes sapi: "secret_api r secs" and api: "tunnel_status_api r secs stat" and L: "lib_ok r" and E: "echoes_protocol r"
    and F: "tunnel_frame r secs" "tunnel_frame r stat"
    and run: "reconcile_invite r tc tt orig agents (desiredHostnames tt agents) w = (res, w')"
    and new: "stat w' \<noteq> stat w" and ready: "st_phase (stat w') = ''Ready''"
  shows "backed r tt agents (secs w') (stat w')"
proof -
  let ?ds = "desiredHostnames tt agents" and ?key = "(m_ns (tt_meta tt), tokenSecretName (m_name (tt_meta tt)))"
  obtain token t1 w1 t2 w2 view t3 w3 where inv: "ensureInvite r tc tt ?ds w = ((Inr token, t1), w1)"
    and sec: "ensureTokenSecret r t1 token w1 = ((None, t2), w2)"
    and host: "convergeHostnames r tc t2 ?ds w2 = ((Inr view, t3), w3)" and w3: "stat w3 = stat w"
    and fin: "finish_reconcile r tc t3 orig view agents w3 = (res, w')"
    by (rule reconcile_invite_passes[OF api F(2) run new ready])
  have "stat w' \<noteq> stat w3" using new w3 by simp
  from finish_ready[OF api L E tunnel_quiet[OF F(1)] tunnel_quiet[OF F(2)] fin this ready] obtain t where
    t: "stat w' = tt_status t" "secs w' = secs w3" "core r t = core r (hosts_cond t3 view r)"
      "st_inviteID (stat w') \<noteq> []" "st_observedGeneration (stat w') = m_generation (tt_meta t3)"
      "map al_key (st_portAllocations (stat w')) = sort (firsts (map entry_key (l4_entries agents)))" by blast
  note host_frame = convergeHostnames_frame[OF host]
  have "st_inviteID (tt_status t3) = st_inviteID (tt_status t2)"
    "st_tokenSecretRef (tt_status t3) = st_tokenSecretRef (tt_status t2)" by (subst host_frame(3), simp)+
  then have meta: "tt_meta t1 = tt_meta tt" "tt_meta t3 = tt_meta tt"
    "st_inviteID (tt_status t3) = st_inviteID (tt_status t1)" "st_tokenSecretRef (tt_status t3) = st_tokenSecretRef (tt_status t2)"
    using ensureInvite_keeps[OF inv] ensureTokenSecret_keeps[OF sec] host_frame(1) by simp_all
  have core: "st_inviteID (stat w') = st_inviteID (tt_status t1)" "st_tokenSecretRef (stat w') = st_tokenSecretRef (tt_status t2)"
    "st_authorizedHostnames (stat w') = st_authorizedHostnames (tt_status t3)"
    "find_status_condition r (st_conditions (stat w')) CondHostnamesSynced = tunnel_cond r (hosts_cond t3 view r) CondHostnamesSynced"
    using t(1,3) meta by (auto simp: core_def hosts_cond_def tunnel_cond_def split: if_splits)
  obtain s where s: "secs w2 ?key = Some s" "mget (sec_data s) tokenDataKey \<noteq> []"
      "mget (m_annotations (sec_meta s)) AnnotationInviteID = st_inviteID (tt_status t1)"
      "st_tokenSecretRef (tt_status t2) = Some \<lparr>sr_name = snd ?key, sr_namespace = fst ?key\<rparr>"
    using ensureTokenSecret_sound[OF sapi L sec] meta(1) by auto
  have cond: "\<exists>c. tunnel_cond r (hosts_cond t3 view r) CondHostnamesSynced = Some c \<and> (c_status c = CTrue \<longleftrightarrow> \<not> vw_revoked view)"
    by (simp add: hosts_cond_def setCond_cond[OF L])
  have "\<not> vw_revoked view \<Longrightarrow> set (st_authorizedHostnames (tt_status t3)) = set ?ds"
    using convergeHostnames_authorized[OF host] by (simp add: desiredHostnames_def)
  then show ?thesis
    using t core s cond meta(2) convergeHostnames_obs[OF tunnel_quiet[OF F(1)] host] by (auto simp: backed_def Let_def)
qed

text \<open>C1: Ready means what it says. When a run of the tunnel's reconcile loop stores a status with
  phase Ready, the status names an invite; the token Secret of that very invite is there, with a
  token in it, and the status refers to it; the status holds one port allocation for every TCP and
  UDP entry of the agents bound to the tunnel, and no other; its host names are exactly those the
  tunnel and these agents ask for, unless its own condition says they are not synced; and it is
  stamped with the generation it was computed from.\<close>

theorem reconcile_live_ready:
  assumes "secret_api r secs" and "tunnel_status_api r secs stat" and "lib_ok r" and "echoes_protocol r"
    and "tunnel_frame r secs" and "tunnel_frame r stat"
    and "reconcile_live r tt w = (res, w')" and "stat w' \<noteq> stat w" and "st_phase (stat w') = ''Ready''"
  shows "\<exists>agents v v'. listReferencingAgents r tt v = (Inr agents, v') \<and> backed r tt agents (secs w') (stat w')"
proof -
  note Q = tunnel_quiet[OF assms(6)]
  obtain k w1 where key: "resolveAPIKey r tt w = (k, w1)" by fastforce
  have w1: "stat w1 = stat w" by (rule resolveAPIKey_frame[OF Q key])
  note not_ready = not_ready[OF assms(2) _ assms(8,9)]
  obtain l w2 where list: "listReferencingAgents r tt w1 = (l, w2)" by fastforce
  have w2: "stat w2 = stat w" using listReferencingAgents_frame[OF Q list] w1 by simp
  have ev: "stat (tunnel_event r tt a b w1) = stat w" for a b using event_frame[OF Q] w1 by simp
  note run = assms(7)[unfolded reconcile_live_def Let_def key]
  obtain apiKey where k: "k = Inr (Some apiKey)"
    using run w1 assms(8) not_ready(2)[OF ev, of "''Error''"] by (cases k) (auto split: option.splits)
  obtain agents where l: "l = Inr agents"
    using run k list not_ready(1)[OF w2] by (cases l) auto
  have "reconcile_invite r (NewClient (tr_baseURL r) apiKey) tt (tt_status tt) agents (desiredHostnames tt agents) w2 = (res, w')"
    using run k list l not_ready(2)[OF w2, of "''Pending''"] by (auto split: if_splits)
  from reconcile_invite_ready[OF assms(1-6) this] show ?thesis using assms(8,9) w2 list l by auto
qed

section \<open>A tunnel that gets ready\<close>

definition live_invite :: invite where
  "live_invite = zero_invite\<lparr>iv_inviteID := ''inv-1'', iv_hostnames := [''a.example'']\<rparr>"

text \<open>A cluster of Secrets and one status, and a hub that knows the invite and refuses every write.\<close>

definition ready_reconciler :: "((nn \<Rightarrow> secret_obj option) \<times> tunnel_status) tunnel_reconciler" where
  "ready_reconciler = idle_reconciler
     \<lparr>tr_get_secret := (\<lambda>k w. (case fst w k of None \<Rightarrow> Inl (KubeError RNotFound ''not found'') | Some s \<Rightarrow> Inr s, w)),
      tr_apply_secret := (\<lambda>s w. (None, ((fst w)(key_of (sec_meta s) \<mapsto> s), snd w))),
      tr_status_update := (\<lambda>t w. (None, (fst w, tt_status t))), tr_getenv := (\<lambda>_. ''key''),
      tr_http := (\<lambda>q w. (Response (if hq_method q = ''GET''
          then \<lparr>hs_status = 200, hs_retryAfter = [], hs_body = JsonBody (enc_invite live_invite)\<rparr>
          else \<lparr>hs_status = 403, hs_retryAfter = [], hs_body = NoBody\<rparr>), w))\<rparr>"

definition ready_tunnel :: towonel_tunnel where
  "ready_tunnel = (new_tunnel ''ns'' ''t'')
     \<lparr>tt_spec := zero_tunnel_spec\<lparr>ts_extraHostnames := [''a.example'']\<rparr>,
      tt_status := zero_tunnel_status\<lparr>st_inviteID := ''inv-1''\<rparr>\<rparr>"

definition ready_world :: "(nn \<Rightarrow> secret_obj option) \<times> tunnel_status" where
  "ready_world = ([(''ns'', ''t-token'') \<mapsto> buildTokenSecret ''t'' ''ns'' ''tok'' ''inv-1''], tt_status ready_tunnel)"

lemma ready_apis: "secret_api ready_reconciler fst" "tunnel_status_api ready_reconciler fst snd" "lib_ok ready_reconciler"
    "tunnel_frame ready_reconciler fst" "tunnel_frame ready_reconciler snd"
  using std_lib_ok
  by (auto simp: secret_api_def tunnel_status_api_def tunnel_frame_def ready_reconciler_def idle_reconciler_def lib_ok_def
      split: option.splits)

lemma ready_echo: "echoes_protocol ready_reconciler"
  by (simp add: echoes_protocol_def ReservePort_def client_do_def ready_reconciler_def read_response_def)

lemma ready_run: "st_phase (snd (snd (reconcile_live ready_reconciler ready_tunnel ready_world))) = ''Ready''"
  by code_simp

lemma ready_agents: "listReferencingAgents ready_reconciler ready_tunnel w = (Inr [], w)"
  by (simp add: listReferencingAgents_def ready_reconciler_def idle_reconciler_def sort_agents_def)

theorem reconcile_live_ready_witness:
  "let w' = snd (reconcile_live ready_reconciler ready_tunnel ready_world)
   in st_phase (snd w') = ''Ready'' \<and> backed ready_reconciler ready_tunnel [] (fst w') (snd w')"
proof -
  obtain res w' where run: "reconcile_live ready_reconciler ready_tunnel ready_world = (res, w')" by (metis prod.exhaust)
  have ready: "st_phase (snd w') = ''Ready''" using ready_run run by simp
  moreover have "st_phase (snd ready_world) = []" by (simp add: ready_world_def ready_tunnel_def zero_tunnel_status_def)
  ultimately have "snd w' \<noteq> snd ready_world" by auto
  from reconcile_live_ready[OF ready_apis(1-3) ready_echo ready_apis(4,5) run this ready]
  show ?thesis using ready run ready_agents by (auto simp: Let_def)
qed

end
