(* ===== verification/TunnelProgress.thy ===== *)
theory TunnelProgress
  imports TunnelReady
begin

text \<open>
  That the tunnel controller gets anywhere: on a cluster and a hub that answer, one reconcile takes a
  new tunnel to Ready.
\<close>

section \<open>Steps that cannot fail\<close>

lemma add_missing_none: "set ds \<subseteq> set hub \<Longrightarrow> add_missing r tc tt hub ds acc w = (Inr acc, w)"
  by (induction ds) (cases acc; auto)+

lemma remove_stale_none: "set hub \<subseteq> set ds \<Longrightarrow> remove_stale r tc tt ds hub acc w = (Inr acc, w)"
  by (induction hub) (cases acc; auto)+

text \<open>The hub grants every reservation that prefers no port.\<close>

lemma reserve_any:
  assumes "CHR ''/'' \<notin> set t" and "rp_preferred req = None"
  shows "\<exists>resp w'. ReservePort fake_http c t req w = (Inr resp, w') \<and> hub_invites (fw_hub w') = hub_invites (fw_hub w)"
  using assms by (simp add: fake_ReservePort handle_reserve_port_def Let_def read_response_def resp_json_def)

lemma reserve_desired_any:
  assumes hub: "tr_http r = fake_http" and t: "CHR ''/'' \<notin> set (st_tenantID (tt_status tt))"
  shows "\<forall>d \<in> set ds. dpt_preferred d = 0 \<Longrightarrow>
    \<exists>as' w'. reserve_desired r tc tt ob ds cache (as, []) w = ((as', []), w') \<and>
      hub_invites (fw_hub w') = hub_invites (fw_hub w)"
proof (induction ds arbitrary: cache as w)
  case (Cons d ds)
  show ?case
  proof (cases "map_of ob (dpt_key d)")
    case (Some pa)
    then show ?thesis using Cons by simp
  next
    case None
    obtain rs v where rs: "listReservations r tc tt cache w = (rs, v)" by fastforce
    have v: "hub_invites (fw_hub v) = hub_invites (fw_hub w)"
      using rs t by (auto simp: listReservations_def hub fake_ListPorts split: option.splits)
    show ?thesis
    proof (cases "find_reservation tt d rs")
      case (Some res)
      then show ?thesis using Cons.IH[of "Some rs" "as @ [allocFromResponse (dpt_name d) res]" v] Cons.prems None rs v
        by simp
    next
      case no: None
      obtain resp u where "ReservePort fake_http tc (st_tenantID (tt_status tt)) (reserve_request tt d) v = (Inr resp, u)"
        "hub_invites (fw_hub u) = hub_invites (fw_hub v)"
        using reserve_any[OF t, of "reserve_request tt d" tc v] Cons.prems by (auto simp: reserve_request_def)
      then show ?thesis using Cons.IH[of "Some rs" "as @ [allocFromResponse (dpt_name d) resp]" u] Cons.prems None rs no v
        by (simp add: hub)
    qed
  qed
qed simp

lemma no_preference:
  assumes "\<forall>x \<in> set (l4_entries agents). entry_pref x = 0" and "d \<in> set (fst (desiredPorts agents))"
  shows "dpt_preferred d = 0"
proof -
  have "(dpt_key d, dpt_preferred d) \<in> set (map (\<lambda>d. (dpt_key d, dpt_preferred d)) (fst (desiredPorts agents)))"
    using assms(2) by force
  then have "dpt_preferred d = first_pref (l4_entries agents) (dpt_key d)"
    unfolding desiredPorts_union[THEN conjunct1] by auto
  then show ?thesis using assms(1) by (auto simp: first_pref_def split: option.split dest: find_pref_nonzero find_in)
qed

section \<open>A cluster that answers\<close>

definition healthy :: "'k tunnel_reconciler \<Rightarrow> towonel_agent list \<Rightarrow> ('k \<Rightarrow> tunnel_status) \<Rightarrow> bool" where
  "healthy r agents stat \<longleftrightarrow> lib_ok r \<and> (\<forall>k. fst (tr_list_agents r k) = Inr agents) \<and>
     (\<forall>s k. fst (tr_list_dns r s k) = Inr []) \<and>
     (\<forall>n k. \<forall>e. fst (tr_get_secret r n k) = Inl e \<longrightarrow> is_not_found e) \<and>
     (\<forall>s k. fst (tr_apply_secret r s k) = None) \<and> (\<forall>ow m. \<not> isl (set_controller_reference r ow m)) \<and>
     (\<forall>t k. fst (tr_status_update r t k) = None \<and> stat (snd (tr_status_update r t k)) = tt_status t)"

lemma on_rest_fst: "fst (on_rest f w) = fst (f (fw_rest w))" "fw_rest (snd (on_rest f w)) = snd (f (fw_rest w))"
  by (simp_all add: on_rest_def split_def Let_def)

lemma ensureTokenSecret_succeeds:
  assumes "healthy r agents stat" and "token \<noteq> []"
  shows "\<exists>t2 w'. ensureTokenSecret (with_hub r) tt token w = ((None, t2), w') \<and> fw_hub w' = fw_hub w"
proof -
  have app: "fst (on_rest (tr_apply_secret r s) v) = None" for s v using assms(1) by (simp add: healthy_def on_rest_fst)
  have wr: "\<exists>t2 w'. write_token (with_hub r) tt token key v = ((None, t2), w') \<and> fw_hub w' = fw_hub v" for key v
  proof -
    let ?d = "buildTokenSecret (m_name (tt_meta tt)) (m_ns (tt_meta tt)) token (st_inviteID (tt_status tt))"
    have "\<not> isl (set_controller_reference r (tt_meta tt) (sec_meta ?d))" using assms(1) by (simp add: healthy_def)
    then obtain m where m: "set_controller_reference r (tt_meta tt) (sec_meta ?d) = Inr m"
      by (cases "set_controller_reference r (tt_meta tt) (sec_meta ?d)") auto
    obtain a u where a: "on_rest (tr_apply_secret r (?d\<lparr>sec_meta := m\<rparr>)) v = (a, u)" by fastforce
    then have "a = None" using app[of "?d\<lparr>sec_meta := m\<rparr>" v] by simp
    have "fw_hub u = fw_hub v" using a on_rest_hub[of "tr_apply_secret r (?d\<lparr>sec_meta := m\<rparr>)" v] by simp
    moreover have "write_token (with_hub r) tt token key v = ((None, set_token_ref (m_ns m, m_name m) tt), u)"
    proof -
      have "set_controller_reference (with_hub r) (tt_meta tt) (sec_meta ?d) = Inr m"
        "tr_apply_secret (with_hub r) (?d\<lparr>sec_meta := m\<rparr>) v = (None, u)"
        using m a \<open>a = None\<close> by (simp_all add: with_hub_def)
      then show ?thesis using assms(2) by (simp add: write_token_def Let_def)
    qed
    ultimately show ?thesis by blast
  qed
  obtain g u where g: "on_rest (tr_get_secret r (m_ns (tt_meta tt), tokenSecretName (m_name (tt_meta tt)))) w = (g, u)" by fastforce
  then have "fst (tr_get_secret r (m_ns (tt_meta tt), tokenSecretName (m_name (tt_meta tt))) (fw_rest w)) = g"
    "fw_hub u = fw_hub w" by (auto simp: on_rest_run)
  then have "g = Inl e \<Longrightarrow> is_not_found e" for e using assms(1) by (auto simp: healthy_def)
  then show ?thesis using g wr[of _ u] \<open>fw_hub u = fw_hub w\<close>
    by (cases g) (auto simp: ensureTokenSecret_def with_hub_def Let_def)
qed

section \<open>From nothing to Ready\<close>

text \<open>The invite the hub makes for a request.\<close>

definition created_invite :: "hub \<Rightarrow> create_invite_request \<Rightarrow> invite" where
  "created_invite h req = (let iid = ''inv-'' @ hub_idPrefix h @ itoa (hub_nextID h + 1) in
     \<lparr>iv_inviteID = iid, iv_tenantID = ''ten-'' @ iid, iv_name = opt_str (cr_name req), iv_hostnames = cr_hostnames req,
      iv_region = opt_str (cr_region req), iv_status = ''pending'', iv_expiresAtMs = None\<rparr>)"

lemma ensureInvite_creates:
  assumes "st_inviteID (tt_status tt) = []"
    and "\<forall>iv \<in> snd ` set (hub_invites (fw_hub w)). iv_name iv \<noteq> inviteName (m_ns (tt_meta tt)) (m_name (tt_meta tt))"
  shows "\<exists>token t1 w1. ensureInvite (with_hub r) tc tt ds w = ((Inr token, t1), w1) \<and> token \<noteq> [] \<and>
    tt_meta t1 = tt_meta tt \<and> tt_spec t1 = tt_spec tt \<and>
    st_inviteID (tt_status t1) = iv_inviteID (created_invite (fw_hub w) (invite_request tt ds)) \<and>
    st_tenantID (tt_status t1) = iv_tenantID (created_invite (fw_hub w) (invite_request tt ds)) \<and>
    st_portAllocations (tt_status t1) = st_portAllocations (tt_status tt) \<and>
    map_of (hub_invites (fw_hub w1)) (iv_inviteID (created_invite (fw_hub w) (invite_request tt ds))) =
      Some (created_invite (fw_hub w) (invite_request tt ds))"
proof -
  have "find (\<lambda>iv. iv_name iv = inviteName (m_ns (tt_meta tt)) (m_name (tt_meta tt)) \<and> iv_inviteID iv \<noteq> [])
      (map snd (hub_invites (fw_hub w))) = None"
    using assms(2) by (auto simp: find_None_iff)
  then show ?thesis using assms(1)
    by (simp add: ensureInvite_def with_hub_def fake_ListInvites fake_CreateInvite handle_create_invite_def
        created_invite_def issue_def Let_def update_conv')
qed

lemma ensureTokenSecret_ports:
  "ensureTokenSecret r tt token w = ((e, tt'), w') \<Longrightarrow> st_tenantID (tt_status tt') = st_tenantID (tt_status tt) \<and>
     st_portAllocations (tt_status tt') = st_portAllocations (tt_status tt)"
  by (auto simp: ensureTokenSecret_def write_token_def set_token_ref_def Let_def
      split: sum.splits if_splits option.splits prod.splits)

lemma convergeHostnames_nothing:
  assumes "id_ok (st_inviteID (tt_status tt))" and "map_of (hub_invites (fw_hub w)) (st_inviteID (tt_status tt)) = Some iv"
    and "iv_status iv \<noteq> inviteStatusRevoked" and "set (iv_hostnames iv) - {[]} = set ds - {[]}" and "[] \<notin> set ds"
  shows "\<exists>view t3. convergeHostnames (with_hub r) tc tt ds w = ((Inr view, t3), w) \<and> \<not> vw_revoked view"
  using assms
  by (auto simp: convergeHostnames_def with_hub_def fake_GetInvite Let_def add_missing_none remove_stale_none)

lemma convergePorts_unpreferred:
  assumes t: "CHR ''/'' \<notin> set (st_tenantID (tt_status tt))" and none: "st_portAllocations (tt_status tt) = []"
    and pref: "\<forall>x \<in> set (l4_entries agents). entry_pref x = 0"
  shows "\<exists>t4 w'. convergePorts (with_hub r) tc tt agents w = ((None, t4), w') \<and>
    hub_invites (fw_hub w') = hub_invites (fw_hub w)"
proof -
  let ?r = "with_hub r"
  have ob: "observed_ports tt = []" by (simp add: observed_ports_def none)
  have hub: "tr_http ?r = fake_http" by (simp add: with_hub_def)
  obtain as v where as: "reserve_desired ?r tc tt [] (fst (desiredPorts agents)) None ([], []) w = ((as, []), v)"
    and v: "hub_invites (fw_hub v) = hub_invites (fw_hub w)"
    using reserve_desired_any[OF hub t, where ds = "fst (desiredPorts agents)" and ob = "[]" and cache = None and as = "[]" and w = w and tc = tc] no_preference[OF pref] by blast
  have prune: "prune_ports ?r tc tt [] dk ks acc u = (acc, u)" for dk ks acc u
    by (induction ks) (cases acc; simp)+
  have ev: "fw_hub (tunnel_event ?r t rs m u) = fw_hub u" for t rs m u
    by (auto simp: tunnel_event_def with_hub_def split: option.split)
  show ?thesis using as v
    by (auto simp: convergePorts_def ob prune Let_def errors_join_def ev split: prod.splits)
qed

text \<open>What the steps after the host names read of the tunnel.\<close>

definition port_view :: "towonel_tunnel \<Rightarrow> string \<times> string \<times> port_allocation list" where
  "port_view tt = (st_inviteID (tt_status tt), st_tenantID (tt_status tt), st_portAllocations (tt_status tt))"

lemma port_view_set [simp]:
  "port_view (setCond L t s rs m tt) = port_view tt" "port_view (set_records recs tt) = port_view tt"
  "port_view (with_status (\<lambda>st. st\<lparr>st_conditions := cs st\<rparr>) tt) = port_view tt"
  "port_view (with_status (\<lambda>st. st\<lparr>st_regionEndpoints := eps\<rparr>) tt) = port_view tt"
  by (simp_all add: port_view_def set_records_def)

lemma populate_ports:
  "populateRegionEndpoints r tc tt w = (tt', w1) \<Longrightarrow> port_view tt' = port_view tt"
  by (auto simp: populateRegionEndpoints_def Let_def split: if_splits sum.splits prod.splits)

lemma handle_status_same: "snd (hub_handler ''GET'' p b h) = h"
  by (auto simp: hub_handler_def Let_def handle_list_invites_def handle_invite_status_def handle_get_invite_def
      handle_list_ports_def split: option.split)

lemma populate_invites:
  assumes "populateRegionEndpoints (with_hub r) tc tt w = (tt', w1)"
  shows "hub_invites (fw_hub w1) = hub_invites (fw_hub w)"
proof -
  have "fw_hub (snd (GetInviteStatus fake_http tc i u)) = fw_hub u" for i u
    using handle_status_same by (simp add: GetInviteStatus_def client_do_def fake_http_def Let_def split_def)
  then have same: "GetInviteStatus fake_http tc i u = (x, u1) \<Longrightarrow> fw_hub u1 = fw_hub u" for i u x u1 by (metis snd_conv)
  show ?thesis using assms
    by (auto dest!: same simp: populateRegionEndpoints_def Let_def split: if_splits sum.splits prod.splits)
qed

lemma reconcileDNS_off:
  assumes "healthy r agents stat" and "td_mode (ts_dns (tt_spec tt)) \<noteq> DNSModeDNSEndpoint"
  shows "\<exists>t2 w1. reconcileDNS (with_hub r) tt view oo w = ((False, t2), w1) \<and> port_view t2 = port_view tt \<and> fw_hub w1 = fw_hub w"
proof -
  let ?h = "tunnel_hash tt"
  obtain l w1 where l: "tr_list_dns (with_hub r) (owner_selector ?h) w = (l, w1)" by fastforce
  have "l = Inr []" "fw_hub w1 = fw_hub w"
    using l assms(1) on_rest_fst(1)[of "tr_list_dns r (owner_selector ?h)" w] on_rest_hub[of "tr_list_dns r (owner_selector ?h)" w]
    by (simp_all add: healthy_def)
  then have sweep: "sweepDNSEndpoints (with_hub r) ?h None w = (None, w1)"
    using l by (simp add: sweepDNSEndpoints_def errors_join_def)
  have "tunnel_hash (set_records recs tt) = ?h" for recs by (simp add: tunnel_hash_def set_records_def)
  then show ?thesis using assms(2) sweep \<open>fw_hub w1 = fw_hub w\<close>
    by (simp add: reconcileDNS_def withdraw_then_def Let_def) (simp add: set_records_def)
qed

lemma status_update_stores:
  assumes "healthy r agents stat"
  shows "\<exists>w'. tr_status_update (with_hub r) t w = (None, w') \<and> stat (fw_rest w') = tt_status t \<and> fw_hub w' = fw_hub w"
proof -
  obtain e w' where run: "tr_status_update (with_hub r) t w = (e, w')" by fastforce
  then have "e = fst (tr_status_update r t (fw_rest w))" "fw_rest w' = snd (tr_status_update r t (fw_rest w))"
    "fw_hub w' = fw_hub w"
    using on_rest_fst[of "tr_status_update r t" w] on_rest_hub[of "tr_status_update r t" w] by (simp_all add: with_hub_def)
  then show ?thesis using run assms by (simp add: healthy_def)
qed

lemma finish_succeeds:
  assumes h: "healthy r agents stat" and mode: "td_mode (ts_dns (tt_spec tt)) \<noteq> DNSModeDNSEndpoint"
    and t: "CHR ''/'' \<notin> set (st_tenantID (tt_status tt))" and none: "st_portAllocations (tt_status tt) = []"
    and pref: "\<forall>x \<in> set (l4_entries ags). entry_pref x = 0"
    and inv: "st_inviteID (tt_status tt) \<noteq> []" and orig: "st_inviteID orig = []"
  shows "\<exists>w'. finish_reconcile (with_hub r) tc tt orig view ags w = (Inr (30 * minute), w') \<and>
    hub_invites (fw_hub w') = hub_invites (fw_hub w) \<and> st_phase (stat (fw_rest w')) = ''Ready'' \<and>
    st_inviteID (stat (fw_rest w')) = st_inviteID (tt_status tt)"
proof -
  let ?r = "with_hub r"
  have L: "lib_ok ?r" using h by (simp add: healthy_def lib_ok_def with_hub_def)
  let ?t1 = "hosts_cond tt view ?r"
  have t1: "port_view ?t1 = port_view tt" "tt_spec ?t1 = tt_spec tt" by (simp_all add: hosts_cond_def)
  obtain t2 w1 where dns: "reconcileDNS ?r ?t1 view (dnsOptOutHostnames ags) w = ((False, t2), w1)"
    and v2: "port_view t2 = port_view tt" "fw_hub w1 = fw_hub w"
    using reconcileDNS_off[OF h, of ?t1 view "dnsOptOutHostnames ags" w] mode t1 by auto
  obtain t3 w2 where reg: "populateRegionEndpoints ?r tc t2 w1 = (t3, w2)" by fastforce
  have v3: "port_view t3 = port_view tt" using populate_ports[OF reg] v2 by simp
  have w2: "hub_invites (fw_hub w2) = hub_invites (fw_hub w1)" by (rule populate_invites[OF reg])
  obtain t4 w3 where ports: "convergePorts ?r tc t3 ags w2 = ((None, t4), w3)"
    and w3: "hub_invites (fw_hub w3) = hub_invites (fw_hub w2)"
    using convergePorts_unpreferred[of t3 ags r tc w2] v3 t none pref by (auto simp: port_view_def)
  have inv4: "st_inviteID (tt_status t4) = st_inviteID (tt_status tt)"
    using convergePorts_core[OF L ports] v3 by (simp add: core_def port_view_def)
  obtain now w4 where now: "tr_now ?r w3 = (now, w4)" by fastforce
  have w4: "fw_hub w4 = fw_hub w3" using now by (auto simp: with_hub_def on_rest_run)
  let ?t5 = "rollupStatus ?r t4 now"
  have t5: "st_inviteID (tt_status (observe ?t5)) = st_inviteID (tt_status tt)" "st_phase (tt_status ?t5) = ''Ready''"
    using inv inv4 by (simp_all add: observe_def rollupStatus_def Let_def set_phase_def)
  obtain w' where upd: "tr_status_update ?r (observe ?t5) w4 = (None, w')" "stat (fw_rest w') = tt_status (observe ?t5)"
    "fw_hub w' = fw_hub w4" using status_update_stores[OF h] by blast
  have "tt_status (observe ?t5) \<noteq> orig" using t5(1) orig inv by auto
  then have "park ?r ?t5 orig (30 * minute) w4 = (Inr (30 * minute), w')" using upd by (simp add: park_def writeStatus_def)
  then have "finish_reconcile ?r tc tt orig view ags w = (Inr (30 * minute), w')"
    using dns reg ports now by (simp add: finish_reconcile_def hosts_cond_def Let_def)
  then show ?thesis using upd t5 v2(2) w2 w3 w4 by simp
qed

definition referencing :: "towonel_tunnel \<Rightarrow> towonel_agent list \<Rightarrow> towonel_agent list" where
  "referencing tt agents = sort_agents (filter (\<lambda>a. tr_name (ag_tunnelRef (ta_spec a)) \<noteq> [] \<and>
     resolvedTunnelRef a = key_of (tt_meta tt)) agents)"

lemma listReferencingAgents_answers:
  assumes "healthy r agents stat"
  shows "\<exists>w'. listReferencingAgents (with_hub r) tt w = (Inr (referencing tt agents), w') \<and> fw_hub w' = fw_hub w"
proof -
  obtain l w' where run: "tr_list_agents (with_hub r) w = (l, w')" by fastforce
  then have "l = Inr agents" "fw_hub w' = fw_hub w"
    using assms on_rest_fst(1)[of "tr_list_agents r" w] on_rest_hub[of "tr_list_agents r" w]
    by (simp_all add: healthy_def with_hub_def)
  then show ?thesis using run by (simp add: listReferencingAgents_def referencing_def)
qed

lemma reconcile_invite_succeeds:
  assumes h: "healthy r agents stat" and tt: "st_inviteID (tt_status tt) = []" "st_portAllocations (tt_status tt) = []"
    "td_mode (ts_dns (tt_spec tt)) \<noteq> DNSModeDNSEndpoint"
    and pref: "\<forall>x \<in> set (l4_entries ags). entry_pref x = 0"
    and hub: "\<forall>iv \<in> snd ` set (hub_invites (fw_hub w)). iv_name iv \<noteq> inviteName (m_ns (tt_meta tt)) (m_name (tt_meta tt))"
    "CHR ''/'' \<notin> set (hub_idPrefix (fw_hub w))"
  shows "\<exists>w' iv. reconcile_invite (with_hub r) tc tt (tt_status tt) ags (desiredHostnames tt ags) w = (Inr (30 * minute), w') \<and>
    st_phase (stat (fw_rest w')) = ''Ready'' \<and> st_inviteID (stat (fw_rest w')) = iv_inviteID iv \<and>
    map_of (hub_invites (fw_hub w')) (iv_inviteID iv) = Some iv \<and>
    iv_name iv = inviteName (m_ns (tt_meta tt)) (m_name (tt_meta tt)) \<and> set (iv_hostnames iv) = set (desiredHostnames tt ags)"
proof -
  let ?r = "with_hub r" and ?ds = "desiredHostnames tt ags"
  let ?iv = "created_invite (fw_hub w) (invite_request tt ?ds)"
  have iv: "iv_hostnames ?iv = dedupe ?ds" "iv_name ?iv = inviteName (m_ns (tt_meta tt)) (m_name (tt_meta tt))"
    "iv_status ?iv \<noteq> inviteStatusRevoked" "id_ok (iv_inviteID ?iv)" "CHR ''/'' \<notin> set (iv_tenantID ?iv)" "iv_inviteID ?iv \<noteq> []"
    using hub(2) itoa_no_slash
    by (simp_all add: created_invite_def invite_request_def opt_str_def inviteStatusRevoked_def id_ok_def Let_def)
  obtain token t1 w1 where inv: "ensureInvite ?r tc tt ?ds w = ((Inr token, t1), w1)" and t1: "token \<noteq> []"
    "tt_meta t1 = tt_meta tt" "tt_spec t1 = tt_spec tt" "st_inviteID (tt_status t1) = iv_inviteID ?iv"
    "st_tenantID (tt_status t1) = iv_tenantID ?iv" "st_portAllocations (tt_status t1) = []"
    "map_of (hub_invites (fw_hub w1)) (iv_inviteID ?iv) = Some ?iv"
    using ensureInvite_creates[OF tt(1) hub(1), of r tc ?ds] tt(2) by auto
  obtain t2 w2 where sec: "ensureTokenSecret ?r t1 token w1 = ((None, t2), w2)" and w2: "fw_hub w2 = fw_hub w1"
    using ensureTokenSecret_succeeds[OF h t1(1)] by blast
  have t2: "tt_spec t2 = tt_spec tt" "st_inviteID (tt_status t2) = iv_inviteID ?iv" "st_tenantID (tt_status t2) = iv_tenantID ?iv"
    "st_portAllocations (tt_status t2) = []"
    using ensureTokenSecret_keeps[OF sec] ensureTokenSecret_ports[OF sec] t1 by simp_all
  obtain view t3 where host: "convergeHostnames ?r tc t2 ?ds w2 = ((Inr view, t3), w2)"
    using convergeHostnames_nothing[of t2 w2 ?iv ?ds r tc] t2 w2 t1(7) iv by (auto simp: desiredHostnames_def)
  note frame = convergeHostnames_frame[OF host]
  have t3: "tt_spec t3 = tt_spec tt" "st_inviteID (tt_status t3) = iv_inviteID ?iv" "st_tenantID (tt_status t3) = iv_tenantID ?iv"
    "st_portAllocations (tt_status t3) = []" using frame(2) t2 by (simp_all add: frame(3)[THEN arg_cong[where f = st_inviteID]]
      frame(3)[THEN arg_cong[where f = st_tenantID]] frame(3)[THEN arg_cong[where f = st_portAllocations]])
  obtain w' where "finish_reconcile ?r tc t3 (tt_status tt) view ags w2 = (Inr (30 * minute), w')"
    "hub_invites (fw_hub w') = hub_invites (fw_hub w2)" "st_phase (stat (fw_rest w')) = ''Ready''"
    "st_inviteID (stat (fw_rest w')) = iv_inviteID ?iv"
    using finish_succeeds[OF h, of t3 ags "tt_status tt" tc view w2] t3 tt(1,3) iv(5,6) pref by auto
  then show ?thesis
    using inv sec host iv t1(7) w2 by (intro exI[of _ w'] exI[of _ ?iv]) (simp add: reconcile_invite_def desiredHostnames_def)
qed


section \<open>A new tunnel with an SSH port\<close>

definition ssh_agent :: towonel_agent where
  "ssh_agent = (new_agent ''ns'' ''a'')\<lparr>ta_spec := zero_agent_spec\<lparr>ag_tunnelRef := \<lparr>tr_name = ''t'', tr_namespace = ''ns''\<rparr>,
     ag_tcp := [\<lparr>l4_name = ''ssh'', l4_origin = ''s:22'', l4_preferredPort = 0, l4_hostname = []\<rparr>]\<rparr>\<rparr>"

definition fresh_tunnel :: towonel_tunnel where
  "fresh_tunnel = (new_tunnel ''ns'' ''t'')\<lparr>tt_spec := zero_tunnel_spec\<lparr>ts_extraHostnames := [''a.example'']\<rparr>\<rparr>"

definition fresh_reconciler :: "tunnel_status tunnel_reconciler" where
  "fresh_reconciler = idle_reconciler\<lparr>tr_get_tunnel := (\<lambda>k s. (Inr fresh_tunnel, s)),
     tr_status_update := (\<lambda>t s. (None, tt_status t)), tr_list_agents := (\<lambda>s. (Inr [ssh_agent], s)),
     tr_getenv := (\<lambda>_. ''key'')\<rparr>"


end
