(* ===== verification/OperatorRuns.thy ===== *)
theory OperatorRuns
  imports TunnelProgress
begin

text \<open>
  Runs of the tunnel controller. A step is one whole reconcile of some tunnel (a controller works
  on one key at a time, and leader election keeps a second operator out), a change of the cluster
  by anyone, or a change at the hub by another of its clients. What a reconcile reads of the cluster
  may be stale and what it writes there may be lost, so a status that has forgotten its invite is
  one of the states a run goes through.
\<close>

section \<open>The hub's directory of invites\<close>

text \<open>Names and identifiers, with multiplicities.\<close>

definition directory :: "hub \<Rightarrow> (string \<times> string) multiset" where
  "directory h = image_mset (\<lambda>(k, iv). (iv_name iv, iv_inviteID iv)) (mset (hub_invites h))"

lemma directory_update:
  "map_of ivs k = Some iv \<Longrightarrow> iv_name iv' = iv_name iv \<Longrightarrow> iv_inviteID iv' = iv_inviteID iv \<Longrightarrow>
   map (\<lambda>(k, iv). (iv_name iv, iv_inviteID iv)) (AList.update k iv' ivs) = map (\<lambda>(k, iv). (iv_name iv, iv_inviteID iv)) ivs"
  by (induction ivs) auto

lemma directory_same:
  assumes "map_of (hub_invites h) k = Some iv" and "hub_invites h' = AList.update k iv' (hub_invites h)"
    and "iv_name iv' = iv_name iv" and "iv_inviteID iv' = iv_inviteID iv"
  shows "directory h' = directory h"
  using directory_update[OF assms(1,3,4)] assms(2) unfolding directory_def by (metis mset_map)

lemma directory_insert:
  "directory (h\<lparr>hub_invites := AList.update k iv (hub_invites h)\<rparr>) \<subseteq># add_mset (iv_name iv, iv_inviteID iv) (directory h)"
proof -
  have "image_mset f (mset (AList.update k iv ivs)) \<subseteq># add_mset (f (k, iv)) (image_mset f (mset ivs))"
    for f :: "string \<times> invite \<Rightarrow> string \<times> string" and ivs
  proof (induction ivs)
    case (Cons p ivs)
    then show ?case by (cases p) (auto simp: add_mset_commute[of "f (k, iv)"] intro: subset_mset.order_trans)
  qed simp
  from this[of "\<lambda>(k, iv). (iv_name iv, iv_inviteID iv)" "hub_invites h"] show ?thesis by (simp add: directory_def)
qed

lemma directory_delete: "directory (h\<lparr>hub_invites := AList.delete k (hub_invites h)\<rparr>) \<subseteq># directory h"
proof -
  have "mset (AList.delete k ivs) \<subseteq># mset ivs" for ivs :: "(string \<times> invite) list"
    by (simp add: AList.delete_eq multiset_filter_subset)
  then show ?thesis by (simp add: directory_def image_mset_subseteq_mono)
qed

text \<open>No request of the hub's API but the creation and the deletion of an invite touches it.\<close>

lemma handler_directory:
  assumes "hub_handler m p b h = (resp, h')" and "\<not> (m = ''POST'' \<and> p = ''/v1/invites'')"
    and "m = ''DELETE'' \<longrightarrow> str_contains p ''/hostnames/'' \<or> \<not> has_prefix p ''/v1/invites/''"
  shows "directory h' = directory h"
proof -
  have hosts: "directory (snd (handle_add_hostnames i hs h)) = directory h"
    "directory (snd (handle_remove_hostname i hn h)) = directory h" for i hs hn
    by (auto simp: handle_add_hostnames_def handle_remove_hostname_def Let_def split: option.split
        intro: directory_same)
  have quiet: "directory (h\<lparr>hub_ports := a\<rparr>) = directory h" "directory (h\<lparr>hub_ports := a, hub_taken := t\<rparr>) = directory h"
    "directory (h\<lparr>hub_nextPort := n, hub_taken := t, hub_ports := a\<rparr>) = directory h"
    "directory (h\<lparr>hub_taken := t, hub_ports := a\<rparr>) = directory h" for a t n
    by (simp_all add: directory_def)
  have ports: "directory (snd (handle_reserve_port t rq h)) = directory h"
    "directory (snd (handle_release_port rest h)) = directory h" for t rq rest
    by (auto simp: handle_reserve_port_def handle_release_port_def Let_def quiet split: option.split)
  have gets: "snd (handle_list_invites h) = h" "snd (handle_invite_status i h) = h" "snd (handle_get_invite i h) = h"
    "snd (handle_list_ports i h) = h" for i
    by (auto simp: handle_list_invites_def handle_invite_status_def handle_get_invite_def handle_list_ports_def split: option.split)
  have "directory (snd (hub_handler m p b h)) = directory h"
    using assms(2,3) by (auto simp: hub_handler_def Let_def hosts ports gets split: option.split)
  then show ?thesis using assms(1) by simp
qed

lemma fake_http_directory:
  assumes "fake_http q w = (res, w')" and "\<not> (hq_method q = ''POST'' \<and> url_path (hq_path q) = ''/v1/invites'')"
    and "hq_method q = ''DELETE'' \<longrightarrow>
      str_contains (url_path (hq_path q)) ''/hostnames/'' \<or> \<not> has_prefix (url_path (hq_path q)) ''/v1/invites/''"
  shows "directory (fw_hub w') = directory (fw_hub w)"
proof -
  obtain resp h where "hub_handler (hq_method q) (url_path (hq_path q)) (hq_body q) (fw_hub w) = (resp, h)" by fastforce
  then show ?thesis using handler_directory[OF _ assms(2,3)] assms(1) by (auto simp: fake_http_def)
qed

lemma client_directory:
  assumes "mthd \<noteq> ''POST'' \<or> url_path path \<noteq> ''/v1/invites''"
    and "mthd \<noteq> ''DELETE'' \<or> str_contains (url_path path) ''/hostnames/'' \<or> \<not> has_prefix (url_path path) ''/v1/invites/''"
  shows "directory (fw_hub (snd (client_do fake_http c mthd path body dec zero w))) = directory (fw_hub w)"
    and "directory (fw_hub (snd (client_do_nil fake_http c mthd path w))) = directory (fw_hub w)"
proof -
  have run: "directory (fw_hub (snd (fake_http q w))) = directory (fw_hub w)"
    if "hq_method q = mthd" "hq_path q = path" for q
    using fake_http_directory[of q w] that assms by (metis prod.collapse)
  show "directory (fw_hub (snd (client_do fake_http c mthd path body dec zero w))) = directory (fw_hub w)"
    "directory (fw_hub (snd (client_do_nil fake_http c mthd path w))) = directory (fw_hub w)"
    by (simp_all add: client_do_def client_do_nil_def Let_def split_def run)
qed

lemma quiet_directory: "quiet_frame (with_hub r) (\<lambda>w. directory (fw_hub w))"
proof -
  have tenants: "\<not> has_prefix (''/v1/tenants/'' @ x) ''/v1/invites/''" for x by (simp add: has_prefix_def)
  have hosts: "str_contains (''/v1/invites/'' @ i @ ''/hostnames/'' @ h) ''/hostnames/''" for i h
    using str_contains_infix[of "''/v1/invites/'' @ i" "''/hostnames/''" h] by simp
  show ?thesis
    unfolding quiet_frame_def
    by (intro conjI allI impI;
        (auto simp: with_hub_def ListInvites_def GetInvite_def AddHostnames_def RemoveHostname_def GetInviteStatus_def
          ReservePort_def ListPorts_def ReleasePort_def url_paths[simplified] hosts[simplified] tenants[simplified]
          intro!: client_directory)?)
qed

section \<open>One invite for each tunnel\<close>

text \<open>At most one invite carries the name of any one tunnel, and such an invite has an identifier.\<close>

definition named :: "hub \<Rightarrow> string \<Rightarrow> (string \<times> string) multiset" where
  "named h n = filter_mset (\<lambda>(m, i). m = n) (directory h)"

definition one_invite_each :: "hub \<Rightarrow> bool" where
  "one_invite_each h \<longleftrightarrow> (\<forall>ns name. size (named h (inviteName ns name)) \<le> 1 \<and>
     (\<forall>(n, i) \<in># named h (inviteName ns name). i \<noteq> []))"

lemma one_invite_each_mono:
  assumes "one_invite_each h" and "\<And>ns name. named h' (inviteName ns name) \<subseteq># named h (inviteName ns name)"
  shows "one_invite_each h'"
  using assms unfolding one_invite_each_def by (meson le_trans mset_subset_eqD size_mset_mono)

lemma one_invite_each_sub: "one_invite_each h \<Longrightarrow> directory h' \<subseteq># directory h \<Longrightarrow> one_invite_each h'"
  by (erule one_invite_each_mono) (simp add: named_def multiset_filter_mono)

lemma one_invite_each_add:
  assumes one: "one_invite_each h" and none: "named h n = {#}" and "i \<noteq> []"
    and sub: "directory h' \<subseteq># add_mset (n, i) (directory h)"
  shows "one_invite_each h'"
proof -
  have "named h' m \<subseteq># (if m = n then {#(n, i)#} else named h m)" for m
  proof -
    have "named h' m \<subseteq># filter_mset (\<lambda>(k, i). k = m) (add_mset (n, i) (directory h))"
      unfolding named_def by (rule multiset_filter_mono[OF sub])
    also have "\<dots> = (if m = n then {#(n, i)#} else named h m)" using none by (auto simp: named_def)
    finally show ?thesis .
  qed
  then show ?thesis using one \<open>i \<noteq> []\<close>
    unfolding one_invite_each_def
    by (smt (verit) case_prodI2 le_trans mset_subset_eqD prod.inject set_mset_single singletonD size_mset_mono size_single order_refl)
qed

text \<open>\<open>ensureInvite\<close> looks the name up before it creates one.\<close>

lemma named_none:
  assumes "one_invite_each h"
    and "find (\<lambda>iv. iv_name iv = inviteName ns name \<and> iv_inviteID iv \<noteq> []) (map snd (hub_invites h)) = None"
  shows "named h (inviteName ns name) = {#}"
proof (rule ccontr)
  assume "named h (inviteName ns name) \<noteq> {#}"
  then obtain i where i: "(inviteName ns name, i) \<in># named h (inviteName ns name)" by (auto simp: named_def)
  then have "i \<noteq> []" using assms(1) unfolding one_invite_each_def by fastforce
  moreover obtain k iv where "(k, iv) \<in> set (hub_invites h)" "iv_name iv = inviteName ns name" "iv_inviteID iv = i"
    using i by (auto simp: named_def directory_def)
  ultimately show False using assms(2) by (force simp: find_None_iff)
qed

lemma ensureInvite_one:
  assumes one: "one_invite_each (fw_hub w)" and run: "ensureInvite (with_hub r) tc tt ds w = (x, w')"
  shows "one_invite_each (fw_hub w')"
proof (cases "st_inviteID (tt_status tt) = [] \<and> find (\<lambda>iv. iv_name iv = inviteName (m_ns (tt_meta tt)) (m_name (tt_meta tt)) \<and>
    iv_inviteID iv \<noteq> []) (map snd (hub_invites (fw_hub w))) = None")
  case False
  then have "w' = w" using run
    by (auto simp: ensureInvite_def with_hub_def fake_ListInvites Let_def split: if_splits)
  then show ?thesis using one by simp
next
  case True
  let ?iid = "''inv-'' @ hub_idPrefix (fw_hub w) @ itoa (hub_nextID (fw_hub w) + 1)"
  let ?want = "inviteName (m_ns (tt_meta tt)) (m_name (tt_meta tt))"
  have "w' = w\<lparr>fw_hub := snd (handle_create_invite (invite_request tt ds) (fw_hub w))\<rparr>"
    using run True
    by (auto simp: ensureInvite_def with_hub_def fake_ListInvites fake_CreateInvite Let_def split: prod.splits)
  moreover have "cr_name (invite_request tt ds) = Some ?want" by (simp add: invite_request_def Let_def)
  ultimately have "directory (fw_hub w') \<subseteq># add_mset (?want, ?iid) (directory (fw_hub w))"
    using directory_insert[where h = "fw_hub w" and k = ?iid and iv = "\<lparr>iv_inviteID = ?iid, iv_tenantID = ''ten-'' @ ?iid, iv_name = ?want,
      iv_hostnames = cr_hostnames (invite_request tt ds), iv_region = opt_str (cr_region (invite_request tt ds)),
      iv_status = ''pending'', iv_expiresAtMs = None\<rparr>"]
    by (simp add: handle_create_invite_def opt_str_def directory_def Let_def)
  then show ?thesis using one_invite_each_add[OF one named_none[OF one]] True by auto
qed

section \<open>A whole reconcile\<close>

lemma writeStatus_hub: "writeStatus (with_hub r) tt orig w = (e, w') \<Longrightarrow> fw_hub w' = fw_hub w"
  by (auto simp: writeStatus_def with_hub_def on_rest_run split: if_splits)

lemma park_hub: "park (with_hub r) tt orig d w = (res, w') \<Longrightarrow> fw_hub w' = fw_hub w"
  by (auto simp: park_def dest: writeStatus_hub split: prod.splits option.splits)

lemma fail_hub: "fail (with_hub r) tt orig e w = (res, w') \<Longrightarrow> fw_hub w' = fw_hub w"
  by (auto simp: fail_def dest: writeStatus_hub split: prod.splits option.splits)

lemma ensureTokenSecret_hub: "ensureTokenSecret (with_hub r) tt token w = (x, w') \<Longrightarrow> fw_hub w' = fw_hub w"
  by (auto simp: ensureTokenSecret_def write_token_def with_hub_def on_rest_run Let_def
      split: sum.splits if_splits option.splits prod.splits)

lemmas directory_frame = quiet_directory[THEN reconcileDNS_frame] quiet_directory[THEN populate_frame]
  quiet_directory[THEN convergePorts_obs] quiet_directory[THEN convergeHostnames_obs]
  quiet_directory[THEN quiet_run(7)] quiet_directory[THEN resolveAPIKey_frame]
  quiet_directory[THEN listReferencingAgents_frame] quiet_directory[THEN sweep_frame]

lemma finish_directory:
  assumes "finish_reconcile (with_hub r) tc tt orig view agents w = (res, w')"
  shows "directory (fw_hub w') = directory (fw_hub w)"
  using assms
  by (auto simp: finish_reconcile_def Let_def dest!: directory_frame park_hub fail_hub split: prod.splits option.splits)

lemma after_invite_directory:
  assumes "ensureInvite (with_hub r) tc tt ds w = (x, w1)"
    and "reconcile_invite (with_hub r) tc tt orig agents ds w = (res, w')"
  shows "directory (fw_hub w') = directory (fw_hub w1)"
  using assms
  by (auto simp: reconcile_invite_def Let_def dest!: directory_frame park_hub fail_hub finish_directory
      ensureTokenSecret_hub split: prod.splits option.splits sum.splits if_splits)

lemma event_hub [simp]: "fw_hub (tunnel_event (with_hub r) tt rs m w) = fw_hub w"
  by (auto simp: tunnel_event_def with_hub_def split: option.split)

lemma reconcile_live_one:
  assumes one: "one_invite_each (fw_hub w)" and run: "reconcile_live (with_hub r) tt w = (res, w')"
  shows "one_invite_each (fw_hub w')"
proof -
  let ?r = "with_hub r"
  have same: "one_invite_each (fw_hub v)" if "directory (fw_hub v) = directory (fw_hub w)" for v
    by (rule one_invite_each_sub[OF one]) (simp add: that)
  obtain k w1 where key: "resolveAPIKey ?r tt w = (k, w1)" by fastforce
  obtain l w2 where list: "listReferencingAgents ?r tt w1 = (l, w2)" by fastforce
  note w2 = directory_frame(6)[OF key] directory_frame(7)[OF list]
  note run = run[unfolded reconcile_live_def Let_def key]
  show ?thesis
  proof (cases "\<exists>apiKey agents. k = Inr (Some apiKey) \<and> l = Inr agents \<and>
      \<not> (desiredHostnames tt agents = [] \<and> st_inviteID (tt_status tt) = [])")
    case True
    then obtain apiKey agents where inv: "reconcile_invite ?r (NewClient (tr_baseURL ?r) apiKey) tt (tt_status tt) agents
        (desiredHostnames tt agents) w2 = (res, w')"
      using run list by auto
    obtain x w3 where ens: "ensureInvite ?r (NewClient (tr_baseURL ?r) apiKey) tt (desiredHostnames tt agents) w2 = (x, w3)"
      by fastforce
    have "one_invite_each (fw_hub w3)" using ensureInvite_one[OF same ens] w2 by simp
    then show ?thesis by (rule one_invite_each_sub) (simp add: after_invite_directory[OF ens inv])
  next
    case False
    then have "directory (fw_hub w') = directory (fw_hub w)"
      using run list w2 by (auto dest!: park_hub fail_hub split: sum.splits option.splits if_splits)
    then show ?thesis by (rule same)
  qed
qed

text \<open>The deletion of a tunnel deletes invites and adds none.\<close>

lemma handler_deletes:
  assumes "\<not> (m = ''POST'' \<and> p = ''/v1/invites'')"
  shows "directory (snd (hub_handler m p b h)) \<subseteq># directory h"
proof (cases "m = ''DELETE'' \<and> has_prefix p ''/v1/invites/'' \<and> \<not> str_contains p ''/hostnames/''")
  case True
  have "directory (snd (handle_delete_invite i h)) \<subseteq># directory h" for i
    using directory_delete[of i h] by (simp add: handle_delete_invite_def directory_def split: option.split)
  then show ?thesis using True by (simp add: hub_handler_def Let_def)
next
  case False
  then have "directory (snd (hub_handler m p b h)) = directory h"
    using handler_directory[of m p b h] assms by (metis prod.collapse)
  then show ?thesis by simp
qed

lemma client_nil_deletes:
  "directory (fw_hub (snd (client_do_nil fake_http c ''DELETE'' path w))) \<subseteq># directory (fw_hub w)"
  using handler_deletes[of "''DELETE''" "url_path path" None "fw_hub w"]
  by (simp add: client_do_nil_def fake_http_def Let_def split_def)

lemma delete_on_hub_directory:
  assumes "delete_on_hub (with_hub r) tt w = (res, w')"
  shows "directory (fw_hub w') \<subseteq># directory (fw_hub w)"
proof -
  let ?r = "with_hub r"
  note release = hub_frame(8)[OF quiet_directory[of r], simplified]
    and listed = hub_frame(7)[OF quiet_directory[of r], simplified]
  have one: "release_port ?r tc tt p n u = (e, u1) \<Longrightarrow> directory (fw_hub u1) = directory (fw_hub u)" for tc p n u e u1
    by (auto simp: release_port_def dest: release split: prod.splits option.splits)
  have rec: "release_recorded ?r tc tt pas u = (e, u1) \<Longrightarrow> directory (fw_hub u1) = directory (fw_hub u)" for tc pas u e u1
    by (induction pas arbitrary: u) (fastforce split: prod.splits option.splits dest: one)+
  have leak: "release_leaked ?r tc tt xs rs u = (e, u1) \<Longrightarrow> directory (fw_hub u1) = directory (fw_hub u)" for tc xs rs u e u1
    by (induction rs arbitrary: u) (fastforce split: prod.splits option.splits if_splits dest: one)+
  have rel: "releasePorts ?r tc tt u = (e, u1) \<Longrightarrow> directory (fw_hub u1) = directory (fw_hub u)" for tc u e u1
    by (auto simp: releasePorts_def Let_def dest!: rec leak listed split: prod.splits option.splits sum.splits)
  have fin: "drop_finalizer ?r tt u = (x, u1) \<Longrightarrow> fw_hub u1 = fw_hub u" for u x u1
    by (auto simp: drop_finalizer_def with_hub_def on_rest_run split: prod.splits option.splits)
  have del: "DeleteInvite fake_http tc i u = (x, u1) \<Longrightarrow> directory (fw_hub u1) \<subseteq># directory (fw_hub u)" for tc i u x u1
    using client_nil_deletes[of tc "invite_path i" u] by (simp add: DeleteInvite_def)
  show ?thesis using assms
    by (auto simp: delete_on_hub_def Let_def dest!: rel fin del directory_frame(6)
        split: sum.splits option.splits prod.splits if_splits)
qed

lemma reconcileDelete_directory:
  assumes "reconcileDelete (with_hub r) tt w = (res, w')"
  shows "directory (fw_hub w') \<subseteq># directory (fw_hub w)"
proof -
  have fin: "drop_finalizer (with_hub r) tt u = (x, u1) \<Longrightarrow> fw_hub u1 = fw_hub u" for u x u1
    by (auto simp: drop_finalizer_def with_hub_def on_rest_run split: prod.splits option.splits)
  show ?thesis using assms
    by (auto simp: reconcileDelete_def dest!: fin directory_frame(8) delete_on_hub_directory
        split: prod.splits option.splits if_splits)
qed

lemma Reconcile_one:
  assumes one: "one_invite_each (fw_hub w)" and run: "Reconcile (with_hub r) req w = (res, w')"
  shows "one_invite_each (fw_hub w')"
proof -
  obtain t w1 where get: "tr_get_tunnel (with_hub r) req w = (t, w1)" by fastforce
  have w1: "fw_hub w1 = fw_hub w" using get by (auto simp: with_hub_def on_rest_run)
  show ?thesis
  proof (cases t)
    case (Inl e)
    then show ?thesis using run get w1 one by (auto simp: Reconcile_def split: option.splits)
  next
    case (Inr tt)
    then consider "reconcileDelete (with_hub r) tt w1 = (res, w')" | "reconcile_live (with_hub r) tt w1 = (res, w')"
      | "fw_hub w' = fw_hub w1"
      using run get by (auto simp: Reconcile_def Let_def on_rest_run split: if_splits prod.splits option.splits)
    then show ?thesis
    proof cases
      case 1
      then show ?thesis using one_invite_each_sub[OF one] reconcileDelete_directory w1 by metis
    next
      case 2
      then show ?thesis using reconcile_live_one one w1 by metis
    qed (use one w1 in simp)
  qed
qed

section \<open>Runs\<close>

text \<open>One step: a reconcile of some tunnel; a change of the cluster by anybody; a change at the hub by
  another client, which may edit, revoke and delete invites, but does not create one under the name
  of a tunnel of this cluster.\<close>

inductive operator_step :: "'k tunnel_reconciler \<Rightarrow> 'k fake_world \<Rightarrow> 'k fake_world \<Rightarrow> bool"
  for r :: "'k tunnel_reconciler" where
  reconciles: "Reconcile (with_hub r) req w = (res, w') \<Longrightarrow> operator_step r w w'"
| cluster_changes: "fw_hub w' = fw_hub w \<Longrightarrow> operator_step r w w'"
| hub_changes: "\<lbrakk>fw_rest w' = fw_rest w;
    \<And>ns name. named (fw_hub w') (inviteName ns name) \<subseteq># named (fw_hub w) (inviteName ns name)\<rbrakk>
    \<Longrightarrow> operator_step r w w'"

inductive operator_run :: "'k tunnel_reconciler \<Rightarrow> 'k fake_world \<Rightarrow> 'k fake_world \<Rightarrow> bool"
  for r :: "'k tunnel_reconciler" where
  run_start: "operator_run r w w"
| run_step: "\<lbrakk>operator_run r w v; operator_step r v w'\<rbrakk> \<Longrightarrow> operator_run r w w'"

lemma operator_step_one: "operator_step r w w' \<Longrightarrow> one_invite_each (fw_hub w) \<Longrightarrow> one_invite_each (fw_hub w')"
  by (induction rule: operator_step.induct) (auto intro: Reconcile_one one_invite_each_mono)



end
