(* ===== verification/CommandLine.thy ===== *)
theory CommandLine
  imports Conventions
begin

text \<open>
  The command line of the manager (\<open>cmd/manager/main.go\<close>): the flags it declares with their defaults,
  and the parsing of the arguments by Go's \<open>flag\<close> package, with the boolean and integer syntax of
  \<open>strconv\<close>. Flags that libraries add to the same flag set (the logger's, the kubeconfig's) are an
  argument: which names exist, which of them are boolean, and which values they accept.
\<close>

section \<open>Numbers and truth values of strconv\<close>

definition parse_bool :: "string \<Rightarrow> bool option" where
  "parse_bool s =
     (if List.member [''1'', ''t'', ''T'', ''TRUE'', ''true'', ''True''] s then Some True
      else if List.member [''0'', ''f'', ''F'', ''FALSE'', ''false'', ''False''] s then Some False
      else None)"

definition hex_val :: "char \<Rightarrow> int option" where
  "hex_val c = (let n = of_char (lower_char c) :: nat in
     if is_digit c then Some (digit_val c)
     else if 97 \<le> n \<and> n \<le> 122 then Some (int n - 87) else None)"

text \<open>Digits of a base, underscores skipped.\<close>

fun int_digits :: "int \<Rightarrow> string \<Rightarrow> int \<Rightarrow> int option" where
  "int_digits b [] n = Some n"
| "int_digits b (c # cs) n =
     (if c = CHR ''_'' then int_digits b cs n
      else case hex_val c of
             None \<Rightarrow> None
           | Some d \<Rightarrow> if b \<le> d then None else int_digits b cs (n * b + d))"

text \<open>\<open>underscoreOK\<close>: an underscore stands between digits, or between a base prefix and a digit. The
  first argument is the class of the last character seen: a digit, an underscore or anything else.\<close>

fun underscores_ok :: "char \<Rightarrow> bool \<Rightarrow> string \<Rightarrow> bool" where
  "underscores_ok i hex [] = (i \<noteq> CHR ''_'')"
| "underscores_ok i hex (c # cs) =
     (if is_digit c \<or> hex \<and> (case hex_val c of Some d \<Rightarrow> d < 16 | None \<Rightarrow> False)
      then underscores_ok (CHR ''0'') hex cs
      else if c = CHR ''_'' then i = CHR ''0'' \<and> underscores_ok (CHR ''_'') hex cs
      else i \<noteq> CHR ''_'' \<and> underscores_ok (CHR ''!'') hex cs)"

definition int_base :: "string \<Rightarrow> int \<times> string" where
  "int_base s =
     (case s of
        c # p # t \<Rightarrow>
          if c \<noteq> CHR ''0'' then (10, s)
          else if t \<noteq> [] \<and> lower_char p = CHR ''b'' then (2, t)
          else if t \<noteq> [] \<and> lower_char p = CHR ''o'' then (8, t)
          else if t \<noteq> [] \<and> lower_char p = CHR ''x'' then (16, t)
          else (8, p # t)
      | [c] \<Rightarrow> if c = CHR ''0'' then (8, []) else (10, s)
      | [] \<Rightarrow> (10, s))"

definition parse_uint0 :: "string \<Rightarrow> int option" where
  "parse_uint0 s =
     (if s = [] then None
      else let (b, ds) = int_base s;
               prefixed = (length ds + 2 = length s)
           in case int_digits b ds 0 of
                None \<Rightarrow> None
              | Some n \<Rightarrow>
                  if List.member ds (CHR ''_'') \<and>
                     \<not> (if prefixed then underscores_ok (CHR ''0'') (b = 16) ds
                        else underscores_ok (CHR ''^'') False s)
                  then None else Some n)"

text \<open>\<open>strconv.ParseInt\<close> with base 0 and the 64 bits of an \<open>int\<close>.\<close>

definition parse_int0 :: "string \<Rightarrow> int option" where
  "parse_int0 s =
     (let (neg, t) = (case s of [] \<Rightarrow> (False, [])
                      | c # t \<Rightarrow> if c = CHR ''-'' then (True, t)
                                else if c = CHR ''+'' then (False, t) else (False, s))
      in case parse_uint0 t of
           None \<Rightarrow> None
         | Some u \<Rightarrow> let n = (if neg then - u else u)
                     in if min_int64 \<le> n \<and> n \<le> max_int64 then Some n else None)"

section \<open>The manager's flags\<close>

record flags =
  fl_metricsAddr :: string
  fl_probeAddr :: string
  fl_leaderElect :: bool
  fl_showVersion :: bool
  fl_towonelAPIURL :: string
  fl_agentNamespace :: string
  fl_enableGatewayAPI :: string
  fl_defaultAgentReplicas :: int
  fl_agentEnv :: "string list"
  fl_dnsEdgeTargets :: "string list"

definition default_flags :: flags where
  "default_flags = \<lparr>fl_metricsAddr = '':8080'', fl_probeAddr = '':8081'', fl_leaderElect = True,
     fl_showVersion = False, fl_towonelAPIURL = DefaultTowonelAPIURL, fl_agentNamespace = [],
     fl_enableGatewayAPI = ''auto'', fl_defaultAgentReplicas = 0, fl_agentEnv = [], fl_dnsEdgeTargets = []\<rparr>"

datatype flag_kind = BoolFlag | ValueFlag

definition bool_flags :: "string list" where
  "bool_flags = [''leader-elect'', ''version'']"

definition value_flags :: "string list" where
  "value_flags = [''metrics-bind-address'', ''health-probe-bind-address'', ''towonel-api-url'', ''agent-namespace'',
     ''enable-gateway-api'', ''default-agent-replicas'', ''agent-env'', ''dns-edge-target'']"

definition own_flag :: "string \<Rightarrow> flag_kind option" where
  "own_flag name = (if List.member bool_flags name then Some BoolFlag
     else if List.member value_flags name then Some ValueFlag else None)"

text \<open>Setting a flag: nothing when the value is not of its type. The two repeatable flags append.\<close>

definition set_flag :: "string \<Rightarrow> string \<Rightarrow> flags \<Rightarrow> flags option" where
  "set_flag name v fl =
     (if name = ''metrics-bind-address'' then Some (fl\<lparr>fl_metricsAddr := v\<rparr>)
      else if name = ''health-probe-bind-address'' then Some (fl\<lparr>fl_probeAddr := v\<rparr>)
      else if name = ''leader-elect'' then map_option (\<lambda>b. fl\<lparr>fl_leaderElect := b\<rparr>) (parse_bool v)
      else if name = ''version'' then map_option (\<lambda>b. fl\<lparr>fl_showVersion := b\<rparr>) (parse_bool v)
      else if name = ''towonel-api-url'' then Some (fl\<lparr>fl_towonelAPIURL := v\<rparr>)
      else if name = ''agent-namespace'' then Some (fl\<lparr>fl_agentNamespace := v\<rparr>)
      else if name = ''enable-gateway-api'' then Some (fl\<lparr>fl_enableGatewayAPI := v\<rparr>)
      else if name = ''default-agent-replicas'' then map_option (\<lambda>n. fl\<lparr>fl_defaultAgentReplicas := n\<rparr>) (parse_int0 v)
      else if name = ''agent-env'' then Some (fl\<lparr>fl_agentEnv := fl_agentEnv fl @ [v]\<rparr>)
      else if name = ''dns-edge-target'' then Some (fl\<lparr>fl_dnsEdgeTargets := fl_dnsEdgeTargets fl @ [v]\<rparr>)
      else None)"

section \<open>Parsing\<close>

type_synonym foreign_flags = "string \<Rightarrow> (flag_kind \<times> (string \<Rightarrow> bool)) option"

definition flag_kind_of :: "foreign_flags \<Rightarrow> string \<Rightarrow> flag_kind option" where
  "flag_kind_of foreign name = (case own_flag name of Some k \<Rightarrow> Some k | None \<Rightarrow> map_option fst (foreign name))"

definition assign :: "foreign_flags \<Rightarrow> string \<Rightarrow> string \<Rightarrow> flags \<Rightarrow> flags option" where
  "assign foreign name v fl =
     (if own_flag name \<noteq> None then set_flag name v fl
      else case foreign name of Some (_, accepts) \<Rightarrow> if accepts v then Some fl else None | None \<Rightarrow> None)"

text \<open>The flag set exits the process on an error (status 2) and when help is asked for (status 0).\<close>

datatype command_line = Parsed flags | HelpShown | BadFlag

fun parse_args :: "foreign_flags \<Rightarrow> string list \<Rightarrow> flags \<Rightarrow> command_line" where
  "parse_args foreign [] fl = Parsed fl"
| "parse_args foreign (s # rest) fl =
     (if length s < 2 \<or> hd s \<noteq> CHR ''-'' \<or> s = ''--'' then Parsed fl
      else let body = drop (if s ! 1 = CHR ''-'' then 2 else 1) s
           in if body = [] \<or> hd body = CHR ''-'' \<or> hd body = CHR ''='' then BadFlag
              else let (name, value) = (case cut body ''='' of Some (n, v) \<Rightarrow> (n, Some v) | None \<Rightarrow> (body, None))
                   in case flag_kind_of foreign name of
                        None \<Rightarrow> if name = ''help'' \<or> name = ''h'' then HelpShown else BadFlag
                      | Some BoolFlag \<Rightarrow>
                          (case assign foreign name (case value of Some v \<Rightarrow> v | None \<Rightarrow> ''true'') fl of
                             Some fl1 \<Rightarrow> parse_args foreign rest fl1 | None \<Rightarrow> BadFlag)
                      | Some ValueFlag \<Rightarrow>
                          (case value of
                             Some v \<Rightarrow> (case assign foreign name v fl of
                                 Some fl1 \<Rightarrow> parse_args foreign rest fl1 | None \<Rightarrow> BadFlag)
                           | None \<Rightarrow>
                               (case rest of
                                  [] \<Rightarrow> BadFlag
                                | v # rest1 \<Rightarrow> (case assign foreign name v fl of
                                    Some fl1 \<Rightarrow> parse_args foreign rest1 fl1 | None \<Rightarrow> BadFlag))))"

declare parse_args.simps(2) [simp del]

section \<open>Numbers read back\<close>

lemma hex_val_digit: "is_digit c \<Longrightarrow> hex_val c = Some (digit_val c)"
  by (simp add: hex_val_def)

lemma int_digits_decimal: "list_all is_digit ds \<Longrightarrow> int_digits 10 ds n = Some (foldl (\<lambda>n c. n * 10 + digit_val c) n ds)"
proof (induction ds arbitrary: n)
  case (Cons c ds)
  have "c \<noteq> CHR ''_''" "digit_val c < 10" using Cons.prems by (auto simp: is_digit_def digit_val_def Let_def)
  then show ?case using Cons by (simp add: hex_val_digit)
qed simp

lemma nat_str_no_zero: "0 < n \<Longrightarrow> hd (nat_str n) \<noteq> CHR ''0''"
proof (induction n rule: nat_str.induct)
  case (1 n)
  show ?case
  proof (cases "n < 10")
    case True
    have "of_char (digit_char n) \<noteq> (of_char (CHR ''0'') :: nat)" using True 1(2) by simp
    then have "digit_char n \<noteq> CHR ''0''" by metis
    then show ?thesis using True by (subst nat_str.simps) auto
  next
    case False
    then show ?thesis using 1 by (subst nat_str.simps) simp
  qed
qed

lemma parse_uint0_nat_str: "parse_uint0 (nat_str n) = Some (int n)"
proof (cases "n = 0")
  case True
  moreover have "nat_str 0 = ''0''" "parse_uint0 ''0'' = Some 0" by code_simp+
  ultimately show ?thesis by simp
next
  case False
  then obtain c cs where s: "nat_str n = c # cs" and c: "c \<noteq> CHR ''0''"
    using nat_str_no_zero[of n] nat_str_not_Nil[of n] by (cases "nat_str n") auto
  have digits: "list_all is_digit (nat_str n)" by (rule nat_str_digits)
  then have "CHR ''_'' \<notin> set (nat_str n)" by (auto simp: list_all_iff is_digit_def Let_def)
  moreover have "int_base (nat_str n) = (10, nat_str n)" using s c by (simp add: int_base_def split: list.split)
  moreover have "int_digits 10 (nat_str n) 0 = Some (int n)"
    using int_digits_decimal[OF digits, of 0] digits_val_nat_str[of n] by (simp add: digits_val_def)
  ultimately show ?thesis by (simp add: parse_uint0_def List.member_iff)
qed

lemma parse_int0_itoa:
  assumes "min_int64 \<le> n" and "n \<le> max_int64"
  shows "parse_int0 (itoa n) = Some n"
proof (cases "n < 0")
  case True
  then show ?thesis using assms by (simp add: parse_int0_def itoa_def parse_uint0_nat_str)
next
  case False
  obtain c cs where s: "nat_str (nat n) = c # cs" using nat_str_not_Nil by (meson list.exhaust)
  then have "c \<noteq> CHR ''-''" "c \<noteq> CHR ''+''" using nat_str_digits[of "nat n"] digit_not_sign[of c] by auto
  then have "parse_int0 (nat_str (nat n)) = Some n"
    using parse_uint0_nat_str[of "nat n"] s assms False by (simp add: parse_int0_def)
  then show ?thesis using False by (simp add: itoa_def)
qed

text \<open>A leading zero means octal; underscores only separate digits.\<close>

lemma parse_int0_bases:
  "parse_int0 ''010'' = Some 8" "parse_int0 ''0x1F'' = Some 31" "parse_int0 ''-0b11'' = Some (- 3)"
  "parse_int0 ''1_000'' = Some 1000" "parse_int0 ''1__0'' = None" "parse_int0 ''1_'' = None"
  "parse_int0 ''0x_1'' = Some 1" "parse_int0 ''08'' = None" "parse_int0 ''9223372036854775808'' = None"
  by code_simp+

section \<open>A command line for any flags\<close>

definition arg :: "string \<Rightarrow> string \<Rightarrow> string" where
  "arg name v = ''--'' @ name @ ''='' @ v"

lemma parse_arg:
  assumes "own_flag name = Some k" and "set_flag name v fl = Some fl1"
  shows "parse_args foreign (arg name v # rest) fl = parse_args foreign rest fl1"
proof -
  have "list_all (\<lambda>n. n \<noteq> [] \<and> hd n \<noteq> CHR ''-'' \<and> CHR ''='' \<notin> set n) (bool_flags @ value_flags)"
    by code_simp
  moreover have "name \<in> set (bool_flags @ value_flags)"
    using assms(1) by (simp add: own_flag_def split: if_splits)
  ultimately have name: "name \<noteq> []" "hd name \<noteq> CHR ''-''" "CHR ''='' \<notin> set name"
    unfolding list_all_iff by blast+
  have "hd name \<noteq> CHR ''=''" using name hd_in_set by metis
  moreover have "flag_kind_of foreign name = Some k" "assign foreign name v fl = Some fl1"
    using assms by (simp_all add: flag_kind_of_def assign_def)
  ultimately show ?thesis using name by (cases k) (simp_all add: arg_def parse_args.simps(2) hd_append)
qed

lemma own_flags:
  "own_flag ''metrics-bind-address'' = Some ValueFlag" "own_flag ''health-probe-bind-address'' = Some ValueFlag"
  "own_flag ''leader-elect'' = Some BoolFlag" "own_flag ''version'' = Some BoolFlag"
  "own_flag ''towonel-api-url'' = Some ValueFlag" "own_flag ''agent-namespace'' = Some ValueFlag"
  "own_flag ''enable-gateway-api'' = Some ValueFlag" "own_flag ''default-agent-replicas'' = Some ValueFlag"
  "own_flag ''agent-env'' = Some ValueFlag" "own_flag ''dns-edge-target'' = Some ValueFlag"
  by code_simp+

definition bool_text :: "bool \<Rightarrow> string" where
  "bool_text b = (if b then ''true'' else ''false'')"

definition flag_args :: "flags \<Rightarrow> string list" where
  "flag_args fl =
     [arg ''metrics-bind-address'' (fl_metricsAddr fl), arg ''health-probe-bind-address'' (fl_probeAddr fl),
      arg ''leader-elect'' (bool_text (fl_leaderElect fl)), arg ''version'' (bool_text (fl_showVersion fl)),
      arg ''towonel-api-url'' (fl_towonelAPIURL fl), arg ''agent-namespace'' (fl_agentNamespace fl),
      arg ''enable-gateway-api'' (fl_enableGatewayAPI fl),
      arg ''default-agent-replicas'' (itoa (fl_defaultAgentReplicas fl))] @
     map (arg ''agent-env'') (fl_agentEnv fl) @ map (arg ''dns-edge-target'') (fl_dnsEdgeTargets fl)"

lemma parse_repeated:
  "parse_args foreign (map (arg ''agent-env'') es @ rest) fl = parse_args foreign rest (fl\<lparr>fl_agentEnv := fl_agentEnv fl @ es\<rparr>)"
  "parse_args foreign (map (arg ''dns-edge-target'') es @ rest) fl =
     parse_args foreign rest (fl\<lparr>fl_dnsEdgeTargets := fl_dnsEdgeTargets fl @ es\<rparr>)"
  by (induction es arbitrary: fl)
    (simp_all add: parse_arg[where k = ValueFlag] own_flags set_flag_def)

text \<open>C38: every setting of the manager can be given on its command line: the arguments that spell a set of
  flags out parse to exactly these flags, whatever characters the values hold, whatever flags the
  libraries add, and with repeated flags in their order.\<close>

theorem command_line_roundtrip:
  assumes "min_int64 \<le> fl_defaultAgentReplicas fl" and "fl_defaultAgentReplicas fl \<le> max_int64"
  shows "parse_args foreign (flag_args fl) default_flags = Parsed fl"
proof -
  have bools: "parse_bool (bool_text b) = Some b" for b by (simp add: parse_bool_def bool_text_def List.member_iff)
  note step = parse_arg[where k = ValueFlag] parse_arg[where k = BoolFlag]
  show ?thesis
    using parse_repeated(2)[where rest = "[]"]
    by (simp add: flag_args_def step own_flags set_flag_def bools parse_int0_itoa assms
        parse_repeated(1) default_flags_def)
qed

theorem command_line_roundtrip_witness:
  "parse_args (\<lambda>_. None) (flag_args (default_flags\<lparr>fl_agentEnv := [''RUST_LOG=debug'', ''A=-x'']\<rparr>)) default_flags =
     Parsed (default_flags\<lparr>fl_agentEnv := [''RUST_LOG=debug'', ''A=-x'']\<rparr>)"
  by (rule command_line_roundtrip) (simp_all add: default_flags_def min_int64_def max_int64_def)

end
