(* ===== verification/AgentConfig.thy ===== *)
theory AgentConfig
  imports Conventions TunnelPorts
begin

text \<open>
  \<open>towonelagent_deploy.go\<close> and the pure part of \<open>towonelagent_connectivity.go\<close>: the rendering of
  an agent's environment, its rollout hash, the operator-wide extra environment, the direct-path
  plan and the Deployment built from them. JSON marshalling of these types cannot fail, so the
  error returns of \<open>renderConfig\<close> and \<open>withExtraEnv\<close> have no branch here.
\<close>

section \<open>Connectivity plan (\<open>towonelagent_connectivity.go\<close>)\<close>

record connectivity_plan =
  pl_irohPort :: int
  pl_extraLocalAddrs :: "string list"
  pl_autodiscover :: bool
  pl_nodePortName :: string
  pl_nodePortPort :: int
  pl_skipped :: bool
  pl_skipReason :: string
  pl_portIgnored :: bool

definition planConnectivity :: "towonel_agent \<Rightarrow> connectivity_plan" where
  "planConnectivity ta =
     (let c = ag_connectivity (ta_spec ta); np = cn_nodePort c;
          p = \<lparr>pl_irohPort = cn_irohPort c, pl_extraLocalAddrs = cn_extraLocalAddrs c,
               pl_autodiscover = False, pl_nodePortName = [], pl_nodePortPort = 0, pl_skipped = False,
               pl_skipReason = [], pl_portIgnored = (np_port np \<noteq> 0 \<and> \<not> np_create np)\<rparr>
      in if cn_autodiscover c \<and> (\<not> np_create np \<or> cn_irohPort c = 0) then
           p\<lparr>pl_skipped := True, pl_skipReason :=
             ''autodiscover requires nodePort.create=true and irohPort>0; skipping direct-path setup''\<rparr>
         else if np_create np \<and> \<not> cn_autodiscover c then
           p\<lparr>pl_skipped := True, pl_skipReason :=
             ''nodePort.create requires autodiscover=true; skipping NodePort Service''\<rparr>
         else if cn_autodiscover c then
           p\<lparr>pl_autodiscover := True, pl_nodePortName := nodePortServiceName ta,
             pl_nodePortPort := np_port np\<rparr>
         else p)"

definition connectivityRequested :: "towonel_agent \<Rightarrow> bool" where
  "connectivityRequested ta = (let c = ag_connectivity (ta_spec ta) in
     cn_autodiscover c \<or> cn_irohPort c \<noteq> 0 \<or> cn_extraLocalAddrs c \<noteq> [] \<or> np_create (cn_nodePort c))"

definition env_val :: "string \<Rightarrow> string \<Rightarrow> env_var" where
  "env_val name v = \<lparr>ev_name = name, ev_source = EnvValue v\<rparr>"

definition connectivityEnv :: "towonel_agent \<Rightarrow> connectivity_plan \<Rightarrow> env_var list" where
  "connectivityEnv ta p =
     (if pl_irohPort p \<noteq> 0 then [env_val ''TOWONEL_AGENT_IROH_PORT'' (itoa (pl_irohPort p))] else []) @
     (if pl_extraLocalAddrs p \<noteq> []
      then [env_val ''TOWONEL_AGENT_EXTRA_LOCAL_ADDRS'' (join '','' (pl_extraLocalAddrs p))] else []) @
     (if pl_autodiscover p
      then [env_val ''TOWONEL_AGENT_K8S_AUTODISCOVER'' ''true'',
            env_val ''TOWONEL_AGENT_K8S_SERVICE'' (pl_nodePortName p),
            env_val ''TOWONEL_AGENT_K8S_NAMESPACE'' (m_ns (ta_meta ta)),
            \<lparr>ev_name = ''NODE_NAME'', ev_source = EnvField ''spec.nodeName''\<rparr>] else [])"

definition agentContainerPorts :: "int \<Rightarrow> container_port list" where
  "agentContainerPorts irohPort =
     \<lparr>cp_name = ''metrics'', cp_port = agentHealthPort, cp_protocol = ''TCP''\<rparr> #
     (if irohPort \<noteq> 0 then [\<lparr>cp_name = ''iroh'', cp_port = irohPort, cp_protocol = ''UDP''\<rparr>] else [])"

definition agentLabels :: "towonel_agent \<Rightarrow> strmap" where
  "agentLabels ta = [(LabelAppName, AgentAppName), (LabelAppInstance, m_name (ta_meta ta)),
     (LabelPartOf, PartOfValue)]"

definition agentSelector :: "towonel_agent \<Rightarrow> strmap" where
  "agentSelector ta = [(LabelAppName, AgentAppName), (LabelAppInstance, m_name (ta_meta ta))]"

section \<open>The rendered configuration (\<open>towonelagent_deploy.go\<close>)\<close>

record agent_config =
  ac_disableUDPGSO :: bool
  ac_servicesJSON :: string
  ac_tcpJSON :: string
  ac_udpJSON :: string
  ac_relayURL :: string
  ac_inviteID :: string
  ac_image :: string
  ac_pending :: "string list"
  ac_saName :: string
  ac_irohPort :: int
  ac_connEnv :: "env_var list"
  ac_connEnvHash :: string
  ac_extraEnv :: "env_var list"
  ac_extraEnvHash :: string
  ac_ignoredEnv :: "string list"

definition nul :: char where "nul = CHR 0x00"

text \<open>What \<open>hash\<close> feeds to SHA-256: each part followed by a zero byte.\<close>

definition hash_parts :: "agent_config \<Rightarrow> string list" where
  "hash_parts c = [ac_image c, ac_inviteID c, ac_servicesJSON c, ac_tcpJSON c, ac_udpJSON c,
     ac_relayURL c, ac_saName c, ac_connEnvHash c] @
     (if ac_disableUDPGSO c then [''TOWONEL_DISABLE_UDP_GSO=true''] else []) @
     (if ac_extraEnvHash c \<noteq> [] then [ac_extraEnvHash c] else [])"

definition hash_input :: "agent_config \<Rightarrow> string" where
  "hash_input c = concat (map (\<lambda>s. s @ [nul]) (hash_parts c))"

definition config_hash :: "agent_config \<Rightarrow> string" where
  "config_hash c = hex_encode (sha256 (hash_input c))"

definition l4_json :: "string \<Rightarrow> int \<Rightarrow> string \<Rightarrow> json" where
  "l4_json name port origin = JObj [(''name'', JStr name), (''listen_port'', JNum port),
     (''origin'', JStr origin)]"

text \<open>\<open>marshalL4\<close>: the JSON text and the entries still waiting for a port.\<close>

fun marshal_loop :: "agent_l4_service list \<Rightarrow> string \<Rightarrow> (string \<times> int) list \<Rightarrow> json list \<Rightarrow> string list
     \<Rightarrow> json list \<times> string list" where
  "marshal_loop [] protocol allocs out pending = (out, pending)"
| "marshal_loop (e # es) protocol allocs out pending =
     (case map_of allocs (allocKey protocol (l4_name e)) of
        None \<Rightarrow> marshal_loop es protocol allocs out (pending @ [allocKey protocol (l4_name e)])
      | Some port \<Rightarrow>
          marshal_loop es protocol allocs (out @ [l4_json (l4_name e) port (l4_origin e)]) pending)"

definition marshalL4 :: "agent_l4_service list \<Rightarrow> string \<Rightarrow> (string \<times> int) list \<Rightarrow> string list
     \<Rightarrow> string \<times> string list" where
  "marshalL4 es protocol allocs pending = (let (out, pend) = marshal_loop es protocol allocs [] pending
     in (if out = [] then [] else json_text (JArr out), pend))"

definition https_json :: "agent_service \<Rightarrow> json" where
  "https_json s = JObj ([(''hostname'', JStr (as_hostname s)), (''origin'', JStr (as_origin s))] @
     (if as_edgeTLSMode s \<noteq> [] then [(''tls_mode'', JObj [(''mode'', JStr (as_edgeTLSMode s))])] else []) @
     omit_str ''proxy_protocol'' (as_proxyProtocol s))"

text \<open>\<open>corev1.EnvVar\<close> as \<open>encoding/json\<close> writes it.\<close>

definition env_json :: "env_var \<Rightarrow> json" where
  "env_json e = JObj ((''name'', JStr (ev_name e)) #
     (case ev_source e of
        EnvValue v \<Rightarrow> omit_str ''value'' v
      | EnvField f \<Rightarrow> [(''valueFrom'', JObj [(''fieldRef'', JObj [(''fieldPath'', JStr f)])])]
      | EnvSecretKey n k \<Rightarrow> [(''valueFrom'', JObj [(''secretKeyRef'',
          JObj (omit_str ''name'' n @ [(''key'', JStr k)]))])]))"

definition env_text :: "env_var list \<Rightarrow> string" where
  "env_text env = (if env = [] then [] else json_text (JArr (map env_json env)))"

definition alloc_ports :: "port_allocation list \<Rightarrow> (string \<times> int) list" where
  "alloc_ports allocs = fold (\<lambda>pa m. AList.update (al_key pa) (al_listenPort pa) m) allocs []"

definition renderConfig :: "towonel_agent \<Rightarrow> port_allocation list \<Rightarrow> string \<Rightarrow> agent_config" where
  "renderConfig ta allocations inviteID =
     (let sp = ta_spec ta; ports = alloc_ports allocations;
          (tcp, pend1) = marshalL4 (ag_tcp sp) ''tcp'' ports [];
          (udp, pend2) = marshalL4 (ag_udp sp) ''udp'' ports pend1;
          p = planConnectivity ta; env = connectivityEnv ta p
      in \<lparr>ac_disableUDPGSO = wl_disableUDPGSO (ag_workload sp),
          ac_servicesJSON = (if ag_services sp = [] then []
            else json_text (JArr (map https_json (ag_services sp)))),
          ac_tcpJSON = tcp, ac_udpJSON = udp, ac_relayURL = ag_relayURL sp, ac_inviteID = inviteID,
          ac_image = cmp_or (wl_image (ag_workload sp)) defaultAgentImage, ac_pending = pend2,
          ac_saName = agentSAName (m_name (ta_meta ta)), ac_irohPort = pl_irohPort p, ac_connEnv = env,
          ac_connEnvHash = env_text env, ac_extraEnv = [], ac_extraEnvHash = [], ac_ignoredEnv = []\<rparr>)"

section \<open>Extra environment\<close>

text \<open>\<open>validation.IsEnvVarName\<close> is an argument: the list of the problems of a name.\<close>

fun parse_env :: "(string \<Rightarrow> string list) \<Rightarrow> string list \<Rightarrow> env_var list \<Rightarrow> goerr + env_var list" where
  "parse_env envName [] env = Inr env"
| "parse_env envName (entry # es) env =
     (case cut entry ''='' of
        None \<Rightarrow> Inl (PlainError (''agent env '' @ quote entry @ '': want NAME=VALUE''))
      | Some (name, v) \<Rightarrow>
          if envName name \<noteq> [] then
            Inl (PlainError (''agent env '' @ quote entry @ '': invalid name: '' @ join ''; '' (envName name)))
          else if list_ex (\<lambda>e. ev_name e = name) env then
            Inl (PlainError (''agent env '' @ quote name @ '': name set more than once''))
          else parse_env envName es (env @ [env_val name v]))"

definition ParseAgentEnv :: "(string \<Rightarrow> string list) \<Rightarrow> string list \<Rightarrow> goerr + env_var list" where
  "ParseAgentEnv envName entries =
     (case parse_env envName entries [] of Inl e \<Rightarrow> Inl e | Inr env \<Rightarrow> Inr (sort_key ev_name env))"

definition add_env :: "string \<Rightarrow> string \<Rightarrow> env_var list" where
  "add_env name v = (if v \<noteq> [] then [env_val name v] else [])"

definition operatorEnv :: "towonel_agent \<Rightarrow> agent_config \<Rightarrow> env_var list" where
  "operatorEnv ta cfg =
     \<lparr>ev_name = ''TOWONEL_INVITE_TOKEN'',
      ev_source = EnvSecretKey (tokenSecretName (m_name (ta_meta ta))) tokenDataKey\<rparr> #
     add_env ''TOWONEL_AGENT_SERVICES'' (ac_servicesJSON cfg) @
     add_env ''TOWONEL_AGENT_TCP_SERVICES'' (ac_tcpJSON cfg) @
     add_env ''TOWONEL_AGENT_UDP_SERVICES'' (ac_udpJSON cfg) @
     add_env ''TOWONEL_AGENT_RELAY_URL'' (ac_relayURL cfg) @
     (if ac_disableUDPGSO cfg then add_env ''TOWONEL_DISABLE_UDP_GSO'' ''true'' else []) @
     ac_connEnv cfg @ [env_val ''TOWONEL_AGENT_HEALTH_LISTEN_ADDR'' agentHealthAddr]"

fun extra_loop :: "env_var list \<Rightarrow> env_var list \<Rightarrow> agent_config \<Rightarrow> agent_config" where
  "extra_loop managed [] c = c"
| "extra_loop managed (e # es) c =
     (if list_ex (\<lambda>m. ev_name m = ev_name e) managed
      then extra_loop managed es (c\<lparr>ac_ignoredEnv := ac_ignoredEnv c @ [ev_name e]\<rparr>)
      else extra_loop managed es (c\<lparr>ac_extraEnv := ac_extraEnv c @ [e]\<rparr>))"

definition withExtraEnv :: "agent_config \<Rightarrow> towonel_agent \<Rightarrow> env_var list \<Rightarrow> agent_config" where
  "withExtraEnv c ta extra = (let c' = extra_loop (operatorEnv ta c) extra c
     in if ac_extraEnv c' \<noteq> [] then c'\<lparr>ac_extraEnvHash := env_text (ac_extraEnv c')\<rparr> else c')"

definition agentEnv :: "towonel_agent \<Rightarrow> agent_config \<Rightarrow> env_var list" where
  "agentEnv ta cfg = operatorEnv ta cfg @ ac_extraEnv cfg"

section \<open>The Deployment\<close>

definition default_pod_security :: json where
  "default_pod_security = JObj [(''runAsUser'', JNum 10001), (''runAsGroup'', JNum 10001),
     (''runAsNonRoot'', JBool True), (''fsGroup'', JNum 10001),
     (''seccompProfile'', JObj [(''type'', JStr ''RuntimeDefault'')])]"

definition agentPodSecurityContext :: "towonel_agent \<Rightarrow> json" where
  "agentPodSecurityContext ta = (case wl_podSecurityContext (ag_workload (ta_spec ta)) of
     Some c \<Rightarrow> c | None \<Rightarrow> default_pod_security)"

definition default_container_security :: json where
  "default_container_security = JObj [(''capabilities'', JObj [(''drop'', JArr [JStr ''ALL''])]),
     (''readOnlyRootFilesystem'', JBool True), (''allowPrivilegeEscalation'', JBool False)]"

definition agentContainerSecurityContext :: "towonel_agent \<Rightarrow> json" where
  "agentContainerSecurityContext ta = (case wl_securityContext (ag_workload (ta_spec ta)) of
     Some c \<Rightarrow> c | None \<Rightarrow> default_container_security)"

definition with_default :: "string \<Rightarrow> string \<Rightarrow> strmap \<Rightarrow> strmap" where
  "with_default k v m = (if has_key m k then m else AList.update k v m)"

definition agent_resources :: "towonel_agent \<Rightarrow> resources" where
  "agent_resources ta = (let r = wl_resources (ag_workload (ta_spec ta)) in
     \<lparr>rq_requests = with_default ''memory'' ''128Mi'' (rq_requests r),
      rq_limits = with_default ''memory'' ''512Mi'' (rq_limits r)\<rparr>)"

definition buildDeployment :: "towonel_agent \<Rightarrow> agent_config \<Rightarrow> deployment" where
  "buildDeployment ta cfg = (let wl = ag_workload (ta_spec ta); m = ta_meta ta in
     \<lparr>dp_meta = (new_meta (m_ns m) (m_name m))\<lparr>m_labels := agentLabels ta\<rparr>,
      dp_replicas = (case wl_replicas wl of None \<Rightarrow> Some 1 | Some n \<Rightarrow> Some n),
      dp_selector = agentSelector ta,
      dp_template = \<lparr>pt_labels = agentLabels ta, pt_annotations = [(AnnotationConfigHash, config_hash cfg)],
        pt_serviceAccountName = ac_saName cfg, pt_securityContext = agentPodSecurityContext ta,
        pt_nodeSelector = wl_nodeSelector wl, pt_tolerations = wl_tolerations wl,
        pt_affinity = wl_affinity wl,
        pt_containers = [\<lparr>ct_name = AgentAppName, ct_image = ac_image cfg,
          ct_securityContext = agentContainerSecurityContext ta, ct_env = agentEnv ta cfg,
          ct_ports = agentContainerPorts (ac_irohPort cfg), ct_resources = agent_resources ta,
          ct_liveness = \<lparr>pb_path = ''/healthz'', pb_port = agentHealthPort\<rparr>,
          ct_readiness = \<lparr>pb_path = ''/readyz'', pb_port = agentHealthPort\<rparr>\<rparr>]\<rparr>,
      dp_conditions = []\<rparr>)"

text \<open>
  \<open>equality.Semantic.DeepEqual\<close>: nil and empty are one value in this model; maps are compared
  by lookup, and resource quantities by \<open>Quantity.Cmp\<close>, the argument \<open>qeq\<close>.
\<close>

definition map_equal :: "(string \<Rightarrow> string \<Rightarrow> bool) \<Rightarrow> strmap \<Rightarrow> strmap \<Rightarrow> bool" where
  "map_equal eq a b = list_all (\<lambda>k. case (map_of a k, map_of b k) of
     (Some x, Some y) \<Rightarrow> eq x y | _ \<Rightarrow> False) (map fst a @ map fst b)"

definition resources_equal :: "(string \<Rightarrow> string \<Rightarrow> bool) \<Rightarrow> resources \<Rightarrow> resources \<Rightarrow> bool" where
  "resources_equal qeq a b \<longleftrightarrow>
     map_equal qeq (rq_requests a) (rq_requests b) \<and> map_equal qeq (rq_limits a) (rq_limits b)"

definition deploymentNeedsWrite :: "(string \<Rightarrow> string \<Rightarrow> bool) \<Rightarrow> deployment \<Rightarrow> deployment \<Rightarrow> bool" where
  "deploymentNeedsWrite qeq current desired =
     (let ct = dp_template current; dt = dp_template desired in
      case pt_containers ct of
        [] \<Rightarrow> True
      | c # _ \<Rightarrow>
          mget (pt_annotations ct) AnnotationConfigHash \<noteq> mget (pt_annotations dt) AnnotationConfigHash \<or>
          dp_replicas current \<noteq> dp_replicas desired \<or>
          \<not> resources_equal qeq (ct_resources c) (ct_resources (hd (pt_containers dt))) \<or>
          \<not> map_equal (=) (pt_nodeSelector ct) (pt_nodeSelector dt) \<or>
          pt_tolerations ct \<noteq> pt_tolerations dt \<or>
          pt_affinity ct \<noteq> pt_affinity dt \<or> pt_securityContext ct \<noteq> pt_securityContext dt \<or>
          ct_securityContext c \<noteq> ct_securityContext (hd (pt_containers dt)))"

section \<open>Partial rendering\<close>

lemma marshal_loop_eq:
  "marshal_loop es p m out pend =
     (out @ [l4_json (l4_name e) (the (map_of m (allocKey p (l4_name e)))) (l4_origin e).
             e \<leftarrow> filter (\<lambda>e. has_key m (allocKey p (l4_name e))) es],
      pend @ [allocKey p (l4_name e). e \<leftarrow> filter (\<lambda>e. \<not> has_key m (allocKey p (l4_name e))) es])"
  by (induction es arbitrary: out pend) (auto simp: has_key_map_of)

lemma marshalL4_eq:
  "marshalL4 es p m pend =
     (let fs = filter (\<lambda>e. has_key m (allocKey p (l4_name e))) es in
      (if fs = [] then [] else json_text (JArr
         [l4_json (l4_name e) (the (map_of m (allocKey p (l4_name e)))) (l4_origin e). e \<leftarrow> fs]),
       pend @ [allocKey p (l4_name e). e \<leftarrow> filter (\<lambda>e. \<not> has_key m (allocKey p (l4_name e))) es]))"
  by (simp add: marshalL4_def marshal_loop_eq Let_def)

lemma alloc_ports_acc:
  "map_of (fold (\<lambda>pa m. AList.update (al_key pa) (al_listenPort pa) m) allocs m0) k =
     (case find (\<lambda>pa. al_key pa = k) (rev allocs) of
        Some pa \<Rightarrow> Some (al_listenPort pa) | None \<Rightarrow> map_of m0 k)"
proof (induction allocs arbitrary: m0)
  case (Cons a as)
  have app: "find P (xs @ [x]) = (case find P xs of Some y \<Rightarrow> Some y | None \<Rightarrow> if P x then Some x else None)"
    for P :: "port_allocation \<Rightarrow> bool" and xs x
    by (induction xs) auto
  show ?case by (auto simp: Cons.IH app update_conv' split: option.splits)
qed simp

text \<open>The last allocation recorded for a key wins.\<close>

definition alloc_of :: "port_allocation list \<Rightarrow> string \<Rightarrow> port_allocation option" where
  "alloc_of allocs k = find (\<lambda>pa. al_key pa = k) (rev allocs)"

lemma alloc_ports_lookup:
  "map_of (alloc_ports allocs) k = map_option al_listenPort (alloc_of allocs k)"
  by (auto simp: alloc_ports_def alloc_of_def alloc_ports_acc split: option.splits)

lemma alloc_ports_key: "has_key (alloc_ports allocs) k \<longleftrightarrow> (\<exists>pa \<in> set allocs. al_key pa = k)"
  by (auto simp: has_key_map_of alloc_ports_lookup alloc_of_def find_None_iff)

lemma renderConfig_fields:
  "ac_tcpJSON (renderConfig ta allocs iid) = fst (marshalL4 (ag_tcp (ta_spec ta)) ''tcp'' (alloc_ports allocs) [])"
  "ac_udpJSON (renderConfig ta allocs iid) = fst (marshalL4 (ag_udp (ta_spec ta)) ''udp'' (alloc_ports allocs) [])"
  "ac_pending (renderConfig ta allocs iid) =
     snd (marshalL4 (ag_tcp (ta_spec ta)) ''tcp'' (alloc_ports allocs) []) @
     snd (marshalL4 (ag_udp (ta_spec ta)) ''udp'' (alloc_ports allocs) [])"
  "ac_connEnv (renderConfig ta allocs iid) = connectivityEnv ta (planConnectivity ta)"
  "ac_connEnvHash (renderConfig ta allocs iid) = env_text (connectivityEnv ta (planConnectivity ta))"
  "ac_extraEnv (renderConfig ta allocs iid) = []"
  "ac_extraEnvHash (renderConfig ta allocs iid) = []"
  "ac_ignoredEnv (renderConfig ta allocs iid) = []"
  by (simp_all add: renderConfig_def Let_def marshalL4_eq case_prod_beta)

text \<open>\<open>renderConfig\<close> renders exactly the TCP and UDP entries the tunnel has a port for, in spec
  order and with that port, leaves the variable out when there is none, and reports every other
  entry, and only those, as pending.\<close>

theorem renderConfig_partial:
  "let sp = ta_spec ta; cfg = renderConfig ta allocs iid;
       ready = (\<lambda>p e. \<exists>pa \<in> set allocs. al_key pa = allocKey p (l4_name e));
       text = (\<lambda>p es. let fs = filter (ready p) es in if fs = [] then [] else json_text (JArr
         [l4_json (l4_name e) (al_listenPort (the (alloc_of allocs (allocKey p (l4_name e))))) (l4_origin e).
          e \<leftarrow> fs]))
   in ac_tcpJSON cfg = text ''tcp'' (ag_tcp sp) \<and> ac_udpJSON cfg = text ''udp'' (ag_udp sp) \<and>
      ac_pending cfg = [allocKey ''tcp'' (l4_name e). e \<leftarrow> ag_tcp sp, \<not> ready ''tcp'' e] @
                       [allocKey ''udp'' (l4_name e). e \<leftarrow> ag_udp sp, \<not> ready ''udp'' e]"
proof -
  have eq: "[l4_json (l4_name e) (the (map_of (alloc_ports allocs) (allocKey p (l4_name e)))) (l4_origin e).
      e \<leftarrow> filter (\<lambda>e. has_key (alloc_ports allocs) (allocKey p (l4_name e))) es] =
    [l4_json (l4_name e) (al_listenPort (the (alloc_of allocs (allocKey p (l4_name e))))) (l4_origin e).
      e \<leftarrow> filter (\<lambda>e. has_key (alloc_ports allocs) (allocKey p (l4_name e))) es]" for p es
    by (rule map_cong) (auto simp: has_key_map_of alloc_ports_lookup)
  have conc: "map f (filter P es) = concat (map (\<lambda>e. if P e then [f e] else []) es)"
    for f :: "agent_l4_service \<Rightarrow> string" and P es
    by (induction es) auto
  show ?thesis
    by (simp add: Let_def renderConfig_fields marshalL4_eq eq conc alloc_ports_key[symmetric])
qed

section \<open>Extra environment: facts\<close>

definition env_entry :: "(string \<Rightarrow> string list) \<Rightarrow> string \<Rightarrow> env_var option" where
  "env_entry envName entry = (case cut entry ''='' of
     None \<Rightarrow> None
   | Some (n, v) \<Rightarrow> if envName n = [] then Some (env_val n v) else None)"

lemma ev_name_env_val [simp]: "ev_name (env_val n v) = n"
  by (simp add: env_val_def)

lemma env_entry_Some: "env_entry f e = Some v \<longleftrightarrow>
    (\<exists>n x. cut e ''='' = Some (n, x) \<and> f n = [] \<and> v = env_val n x)"
  by (auto simp: env_entry_def simp del: cut_char_None split: option.splits prod.splits if_splits)

lemma parse_env_step:
  "parse_env f (e # es) env = Inr env' \<longleftrightarrow>
     (\<exists>v. env_entry f e = Some v \<and> ev_name v \<notin> ev_name ` set env \<and> parse_env f es (env @ [v]) = Inr env')"
proof (cases "cut e ''=''")
  case None
  then show ?thesis by (simp add: env_entry_def del: cut_char_None)
next
  case (Some p)
  then show ?thesis
    by (cases p) (auto simp: env_entry_def list_ex_iff simp del: cut_char_None split: if_splits)
qed

lemma parse_env_Inr:
  "parse_env f es env = Inr env' \<longleftrightarrow>
     (\<forall>e \<in> set es. env_entry f e \<noteq> None) \<and> env' = env @ map (the \<circ> env_entry f) es \<and>
     distinct (map (ev_name \<circ> the \<circ> env_entry f) es) \<and>
     (\<forall>e \<in> set es. ev_name (the (env_entry f e)) \<notin> ev_name ` set env)"
proof (induction es arbitrary: env)
  case (Cons e es)
  show ?case
  proof (cases "env_entry f e")
    case None
    then show ?thesis by (simp add: parse_env_step del: parse_env.simps)
  next
    case (Some v)
    show ?thesis unfolding parse_env_step by (simp add: Some Cons.IH) (force simp: comp_def)
  qed
qed auto

text \<open>The order of the \<open>--agent-env\<close> flags never matters: any permutation of accepted flags
  parses to the same list, which is sorted by name and names each variable once.\<close>

theorem ParseAgentEnv_order:
  assumes "ParseAgentEnv f flags = Inr env" and "mset flags' = mset flags"
  shows "ParseAgentEnv f flags' = Inr env \<and> sorted (map ev_name env) \<and> distinct (map ev_name env) \<and>
    set env = {env_val n v | n v. \<exists>e \<in> set flags. cut e ''='' = Some (n, v)}"
proof -
  obtain new where p: "parse_env f flags [] = Inr new" and env: "env = sort_key ev_name new"
    using assms(1) by (auto simp: ParseAgentEnv_def split: sum.splits)
  have st: "set flags' = set flags" using assms(2) by (metis set_mset_mset)
  have dist: "distinct (map (ev_name \<circ> the \<circ> env_entry f) flags)"
    and all: "\<forall>e \<in> set flags. env_entry f e \<noteq> None" and new: "new = map (the \<circ> env_entry f) flags"
    using p by (simp_all add: parse_env_Inr)
  have dist': "distinct (map (ev_name \<circ> the \<circ> env_entry f) flags')"
    using dist assms(2) by (metis mset_eq_imp_distinct_iff mset_map)
  have p': "parse_env f flags' [] = Inr (map (the \<circ> env_entry f) flags')"
    using all dist' by (simp add: parse_env_Inr st)
  have dn: "distinct (map ev_name new)" using dist by (simp add: new comp_assoc)
  have "sort_key ev_name (map (the \<circ> env_entry f) flags') = env"
    unfolding env by (rule sort_key_perm[symmetric, OF _ dn]) (simp add: new assms(2))
  moreover have "distinct (map ev_name env)"
    using dn unfolding env by (metis mset_eq_imp_distinct_iff mset_map mset_sort)
  moreover have "set env = {env_val n v | n v. \<exists>e \<in> set flags. cut e ''='' = Some (n, v)}"
  proof (intro set_eqI iffI)
    fix x assume "x \<in> set env"
    then obtain e where e: "e \<in> set flags" "x = the (env_entry f e)" by (auto simp: env new)
    then have "env_entry f e = Some x" using all by auto
    then show "x \<in> {env_val n v | n v. \<exists>e \<in> set flags. cut e ''='' = Some (n, v)}"
      using e(1) unfolding env_entry_Some by blast
  next
    fix x assume "x \<in> {env_val n v | n v. \<exists>e \<in> set flags. cut e ''='' = Some (n, v)}"
    then obtain n v e where e: "x = env_val n v" "e \<in> set flags" "cut e ''='' = Some (n, v)" by blast
    obtain y where y: "env_entry f e = Some y" using all e(2) by auto
    then have "y = x" using e by (auto simp: env_entry_Some simp del: cut_char_None)
    then show "x \<in> set env" using e(2) y by (force simp: env new)
  qed
  ultimately show ?thesis by (simp add: ParseAgentEnv_def p' env)
qed

theorem ParseAgentEnv_order_witness:
  "ParseAgentEnv (\<lambda>n. if n = [] then [''empty''] else []) [''B=1'', ''A=x=y''] =
     Inr [env_val ''A'' ''x=y'', env_val ''B'' ''1'']"
proof -
  have "ParseAgentEnv (\<lambda>n. if n = [] then [''empty''] else []) [''A=x=y'', ''B=1''] =
      Inr [env_val ''A'' ''x=y'', env_val ''B'' ''1'']"
    by code_simp
  from ParseAgentEnv_order[OF this, of "[''B=1'', ''A=x=y'']"] show ?thesis
    by (simp add: add_mset_commute)
qed

text \<open>The loop of \<open>withExtraEnv\<close> keeps the entries whose name the operator does not set.\<close>

lemma extra_loop_eq:
  "extra_loop managed es c = c\<lparr>
     ac_extraEnv := ac_extraEnv c @ filter (\<lambda>e. ev_name e \<notin> ev_name ` set managed) es,
     ac_ignoredEnv := ac_ignoredEnv c @ map ev_name (filter (\<lambda>e. ev_name e \<in> ev_name ` set managed) es)\<rparr>"
  by (induction es arbitrary: c) (auto simp: list_ex_iff image_iff)

lemma operatorEnv_extra [simp]:
  "operatorEnv ta (c\<lparr>ac_extraEnv := x, ac_ignoredEnv := y\<rparr>) = operatorEnv ta c"
  "operatorEnv ta (c\<lparr>ac_extraEnvHash := z\<rparr>) = operatorEnv ta c"
  by (simp_all add: operatorEnv_def)

lemma withExtraEnv_env:
  "agentEnv ta (withExtraEnv c ta extra) = operatorEnv ta c @ ac_extraEnv c @
     filter (\<lambda>e. ev_name e \<notin> ev_name ` set (operatorEnv ta c)) extra"
  by (simp add: agentEnv_def withExtraEnv_def extra_loop_eq Let_def)

lemma withExtraEnv_ignored:
  "ac_ignoredEnv (withExtraEnv c ta extra) = ac_ignoredEnv c @
     map ev_name (filter (\<lambda>e. ev_name e \<in> ev_name ` set (operatorEnv ta c)) extra)"
  by (simp add: withExtraEnv_def extra_loop_eq Let_def)

lemma filter_image_disjoint: "f ` S \<inter> f ` set (filter (\<lambda>e. f e \<notin> f ` S) xs) = {}"
proof (rule equals0I)
  fix y assume y: "y \<in> f ` S \<inter> f ` set (filter (\<lambda>e. f e \<notin> f ` S) xs)"
  then obtain b where b: "y = f b" "b \<in> set (filter (\<lambda>e. f e \<notin> f ` S) xs)" by (elim IntE imageE)
  have "f b \<notin> f ` S" using b(2) by (simp del: image_eqI)
  then show False using y b(1) by simp
qed

text \<open>Optional names, in a fixed order, are distinct when the order repeats none.\<close>

lemma distinct_optional:
  "distinct (map snd bs) \<Longrightarrow> distinct (concat (map (\<lambda>(b, n). if b then [n] else []) bs))"
  by (induction bs) (auto split: if_splits)

lemma operatorEnv_names:
  "distinct (map ev_name (operatorEnv ta (renderConfig ta allocs iid)))"
proof -
  let ?c = "renderConfig ta allocs iid" and ?p = "planConnectivity ta"
  have single: "map ev_name (if b then [e] else []) = (if b then [ev_name e] else [])" for b e
    by simp
  have four: "map ev_name (if b then [e1, e2, e3, e4] else []) = (if b then [ev_name e1] else []) @
      (if b then [ev_name e2] else []) @ (if b then [ev_name e3] else []) @ (if b then [ev_name e4] else [])"
    for b e1 e2 e3 e4 by simp
  have nest: "(if a then if b then xs else [] else []) = (if a \<and> b then xs else [])"
    for a b and xs :: "env_var list" by simp
  have "map ev_name (operatorEnv ta ?c) = concat (map (\<lambda>(b, n). if b then [n] else [])
      [(True, ''TOWONEL_INVITE_TOKEN''),
       (ac_servicesJSON ?c \<noteq> [], ''TOWONEL_AGENT_SERVICES''),
       (ac_tcpJSON ?c \<noteq> [], ''TOWONEL_AGENT_TCP_SERVICES''),
       (ac_udpJSON ?c \<noteq> [], ''TOWONEL_AGENT_UDP_SERVICES''),
       (ac_relayURL ?c \<noteq> [], ''TOWONEL_AGENT_RELAY_URL''),
       (ac_disableUDPGSO ?c \<and> ''true'' \<noteq> [], ''TOWONEL_DISABLE_UDP_GSO''),
       (pl_irohPort ?p \<noteq> 0, ''TOWONEL_AGENT_IROH_PORT''),
       (pl_extraLocalAddrs ?p \<noteq> [], ''TOWONEL_AGENT_EXTRA_LOCAL_ADDRS''),
       (pl_autodiscover ?p, ''TOWONEL_AGENT_K8S_AUTODISCOVER''),
       (pl_autodiscover ?p, ''TOWONEL_AGENT_K8S_SERVICE''),
       (pl_autodiscover ?p, ''TOWONEL_AGENT_K8S_NAMESPACE''),
       (pl_autodiscover ?p, ''NODE_NAME''),
       (True, ''TOWONEL_AGENT_HEALTH_LISTEN_ADDR'')])"
    unfolding operatorEnv_def renderConfig_fields(4) connectivityEnv_def add_env_def nest map_append
      list.map single four env_val_def
    by (simp only: env_var.simps append.simps append_assoc append_Nil2 concat.simps list.map
        prod.case if_True single)
  then show ?thesis
    by (simp only:) (rule distinct_optional, simp)
qed

text \<open>Whatever the agent and the operator-wide flags say, the container's environment names
  every variable once (a duplicate would make the server-side apply fail), the operator's own
  variables keep their values, and a flag is either in the environment or reported as ignored.\<close>

theorem agentEnv_distinct:
  assumes "ParseAgentEnv f flags = Inr extra"
  shows "let cfg = renderConfig ta allocs iid; env = agentEnv ta (withExtraEnv cfg ta extra) in
    distinct (map ev_name env) \<and> take (length (operatorEnv ta cfg)) env = operatorEnv ta cfg \<and>
    (\<forall>e \<in> set extra. if ev_name e \<in> ev_name ` set (operatorEnv ta cfg)
       then ev_name e \<in> set (ac_ignoredEnv (withExtraEnv cfg ta extra)) else e \<in> set env)"
proof -
  obtain new where p: "parse_env f flags [] = Inr new" and ex: "extra = sort_key ev_name new"
    using assms(1) by (auto simp: ParseAgentEnv_def split: sum.splits)
  have "distinct (map ev_name new)" using p by (simp add: parse_env_Inr comp_assoc)
  then have d: "distinct (map ev_name extra)"
    unfolding ex by (metis mset_eq_imp_distinct_iff mset_map mset_sort)
  have "distinct (map ev_name (filter P extra))" for P
    using d by (simp add: distinct_map_filter)
  moreover have "ev_name ` set (operatorEnv ta (renderConfig ta allocs iid)) \<inter>
      ev_name ` set (filter (\<lambda>e. ev_name e \<notin> ev_name ` set (operatorEnv ta (renderConfig ta allocs iid))) extra) = {}"
    by (rule filter_image_disjoint)
  ultimately show ?thesis
    using operatorEnv_names[of ta allocs iid]
    by (simp add: Let_def withExtraEnv_env renderConfig_fields withExtraEnv_ignored)
qed

text \<open>The agent of the witness: autodiscovery on a pinned port.\<close>

definition probe_agent :: towonel_agent where
  "probe_agent = \<lparr>ta_meta = new_meta ''n'' ''a'', ta_spec = zero_agent_spec\<lparr>
     ag_connectivity := \<lparr>cn_autodiscover = True, cn_irohPort = 51, cn_extraLocalAddrs = [],
       cn_nodePort = \<lparr>np_create = True, np_name = [], np_port = 0\<rparr>\<rparr>\<rparr>, ta_status = zero_agent_status\<rparr>"

theorem agentEnv_distinct_witness:
  "let cfg = renderConfig probe_agent [] ''i''; extra = [env_val ''NODE_NAME'' ''x'', env_val ''RUST_LOG'' ''debug''];
       env = agentEnv probe_agent (withExtraEnv cfg probe_agent extra)
   in distinct (map ev_name env) \<and> env_val ''RUST_LOG'' ''debug'' \<in> set env \<and>
      ''NODE_NAME'' \<in> set (ac_ignoredEnv (withExtraEnv cfg probe_agent extra))"
proof -
  have p: "ParseAgentEnv (\<lambda>n. []) [''RUST_LOG=debug'', ''NODE_NAME=x''] =
      Inr [env_val ''NODE_NAME'' ''x'', env_val ''RUST_LOG'' ''debug'']"
    by code_simp
  have n: "''NODE_NAME'' \<in> set (map ev_name (operatorEnv probe_agent (renderConfig probe_agent [] ''i'')))"
    "''RUST_LOG'' \<notin> set (map ev_name (operatorEnv probe_agent (renderConfig probe_agent [] ''i'')))"
    by code_simp+
  show ?thesis using agentEnv_distinct[OF p, of probe_agent "[]" "''i''"] n
    by (simp add: Let_def)
qed

section \<open>The rollout trigger\<close>

text \<open>The parts of a configuration that reach the pod and its hash, as the caller filled them.\<close>

definition nul_free :: "agent_config \<Rightarrow> bool" where
  "nul_free c = list_all (\<lambda>s. nul \<notin> set s) (hash_parts c)"

lemma concat_sep_inject:
  assumes "\<forall>x \<in> set xs. c \<notin> set x" and "\<forall>x \<in> set ys. c \<notin> set x"
    and "concat (map (\<lambda>s. s @ [c]) xs) = concat (map (\<lambda>s. s @ [c]) ys)"
  shows "xs = ys"
  using assms
proof (induction xs arbitrary: ys)
  case Nil
  then show ?case by (cases ys) auto
next
  case (Cons x xs)
  then obtain y ys' where ys: "ys = y # ys'" by (cases ys) auto
  have "x @ c # concat (map (\<lambda>s. s @ [c]) xs) = y @ c # concat (map (\<lambda>s. s @ [c]) ys')"
    using Cons.prems(3) ys by simp
  moreover have "c \<notin> set x" "c \<notin> set y" using Cons.prems(1,2) ys by simp_all
  ultimately have "x = y \<and> concat (map (\<lambda>s. s @ [c]) xs) = concat (map (\<lambda>s. s @ [c]) ys')"
    by (intro append_char_inject)
  moreover then have "xs = ys'" using Cons.prems(1,2) ys by (intro Cons.IH) simp_all
  ultimately show ?case using ys by simp
qed

lemma env_text_head: "env = [] \<or> hd (env_text env) = CHR ''['' \<and> env_text env \<noteq> []"
  by (simp add: env_text_def)

lemma withExtraEnv_fields:
  "ac_extraEnvHash (withExtraEnv (renderConfig ta allocs iid) ta' extra) = [] \<or>
   hd (ac_extraEnvHash (withExtraEnv (renderConfig ta allocs iid) ta' extra)) = CHR ''[''"
  by (auto simp: withExtraEnv_def extra_loop_eq Let_def renderConfig_fields env_text_def)

text \<open>The optional tail of the hashed parts is unambiguous: an extra-environment text opens a JSON
  array, the marker of the UDP workaround does not.\<close>

definition hash_tail :: "agent_config \<Rightarrow> string list" where
  "hash_tail c = (if ac_disableUDPGSO c then [''TOWONEL_DISABLE_UDP_GSO=true''] else []) @
     (if ac_extraEnvHash c \<noteq> [] then [ac_extraEnvHash c] else [])"

lemma hash_tail_inject:
  assumes "ac_extraEnvHash c = [] \<or> hd (ac_extraEnvHash c) = CHR ''[''"
    and "ac_extraEnvHash d = [] \<or> hd (ac_extraEnvHash d) = CHR ''[''"
    and "hash_tail c = hash_tail d"
  shows "ac_disableUDPGSO c = ac_disableUDPGSO d \<and> ac_extraEnvHash c = ac_extraEnvHash d"
proof -
  have "hd ''TOWONEL_DISABLE_UDP_GSO=true'' \<noteq> CHR ''[''" by simp
  then have "ac_extraEnvHash c \<noteq> ''TOWONEL_DISABLE_UDP_GSO=true''"
    "ac_extraEnvHash d \<noteq> ''TOWONEL_DISABLE_UDP_GSO=true''"
    using assms(1,2) by auto
  then show ?thesis using assms(3) by (auto simp: hash_tail_def split: if_splits)
qed

text \<open>The text that is hashed into the rollout annotation changes exactly when the rendered
  configuration does: two configurations without NUL bytes hash the same text if and only if they
  agree in image, invite, service texts, relay, service account, connectivity, UDP workaround and
  extra environment. The zero byte after each part keeps fields from running into each other.\<close>

theorem hash_input_exact:
  assumes "c = withExtraEnv (renderConfig ta allocs iid) ta extra"
    and "d = withExtraEnv (renderConfig ta' allocs' iid') ta' extra'"
    and "nul_free c" and "nul_free d"
  shows "hash_input c = hash_input d \<longleftrightarrow>
    ac_image c = ac_image d \<and> ac_inviteID c = ac_inviteID d \<and> ac_servicesJSON c = ac_servicesJSON d \<and>
    ac_tcpJSON c = ac_tcpJSON d \<and> ac_udpJSON c = ac_udpJSON d \<and> ac_relayURL c = ac_relayURL d \<and>
    ac_saName c = ac_saName d \<and> ac_connEnvHash c = ac_connEnvHash d \<and>
    ac_disableUDPGSO c = ac_disableUDPGSO d \<and> ac_extraEnvHash c = ac_extraEnvHash d"
    (is "?l \<longleftrightarrow> ?r")
proof
  have parts: "hash_parts x = [ac_image x, ac_inviteID x, ac_servicesJSON x, ac_tcpJSON x, ac_udpJSON x,
     ac_relayURL x, ac_saName x, ac_connEnvHash x] @ hash_tail x" for x
    by (simp add: hash_parts_def hash_tail_def)
  assume ?l
  then have eq: "hash_parts c = hash_parts d"
    using assms(3,4) unfolding hash_input_def
    by (intro concat_sep_inject[of _ nul]) (auto simp: nul_free_def list_all_iff)
  then have "hash_tail c = hash_tail d" by (simp add: parts)
  then have "ac_disableUDPGSO c = ac_disableUDPGSO d \<and> ac_extraEnvHash c = ac_extraEnvHash d"
    using withExtraEnv_fields hash_tail_inject unfolding assms(1,2) by blast
  then show ?r using eq by (simp add: parts)
next
  assume ?r
  then show ?l by (simp add: hash_input_def hash_parts_def)
qed

theorem hash_input_exact_witness:
  "let c = withExtraEnv (renderConfig probe_agent [] ''i'') probe_agent [];
       d = withExtraEnv (renderConfig probe_agent [] ''j'') probe_agent []
   in hash_input c \<noteq> hash_input d"
proof -
  let ?c = "withExtraEnv (renderConfig probe_agent [] ''i'') probe_agent []"
  let ?d = "withExtraEnv (renderConfig probe_agent [] ''j'') probe_agent []"
  have free: "nul_free ?c" "nul_free ?d" and ne: "ac_inviteID ?c \<noteq> ac_inviteID ?d"
    by code_simp+
  show ?thesis using hash_input_exact[OF refl refl free] ne by (simp add: Let_def)
qed

section \<open>Connectivity and the pod\<close>

lemma planConnectivity_fields:
  "pl_irohPort (planConnectivity ta) = cn_irohPort (ag_connectivity (ta_spec ta))"
  "pl_extraLocalAddrs (planConnectivity ta) = cn_extraLocalAddrs (ag_connectivity (ta_spec ta))"
  "pl_autodiscover (planConnectivity ta) \<longleftrightarrow> cn_autodiscover (ag_connectivity (ta_spec ta)) \<and>
     np_create (cn_nodePort (ag_connectivity (ta_spec ta))) \<and> cn_irohPort (ag_connectivity (ta_spec ta)) \<noteq> 0"
  "pl_skipped (planConnectivity ta) \<longleftrightarrow>
     (cn_autodiscover (ag_connectivity (ta_spec ta)) \<and> (\<not> np_create (cn_nodePort (ag_connectivity (ta_spec ta))) \<or>
        cn_irohPort (ag_connectivity (ta_spec ta)) = 0)) \<or>
     (np_create (cn_nodePort (ag_connectivity (ta_spec ta))) \<and> \<not> cn_autodiscover (ag_connectivity (ta_spec ta)))"
  "pl_skipReason (planConnectivity ta) = [] \<longleftrightarrow> \<not> pl_skipped (planConnectivity ta)"
  "pl_nodePortName (planConnectivity ta) =
     (if pl_autodiscover (planConnectivity ta) then nodePortServiceName ta else [])"
  by (cases "cn_autodiscover (ag_connectivity (ta_spec ta))";
      cases "np_create (cn_nodePort (ag_connectivity (ta_spec ta)))";
      simp add: planConnectivity_def Let_def)+

lemma nodePortServiceName_not_Nil [simp]: "nodePortServiceName ta \<noteq> []"
  by (simp add: nodePortServiceName_def cmp_or_def)

text \<open>The managed direct path is taken exactly when it is requested completely, an incomplete
  request is skipped with a reason, and the pod's port and variables follow the plan: an iroh UDP
  port is exposed whenever one is pinned, the autodiscovery variables only on a valid plan.\<close>

theorem planConnectivity_sound:
  "let c = ag_connectivity (ta_spec ta); p = planConnectivity ta; env = connectivityEnv ta p in
    (pl_autodiscover p \<longleftrightarrow> cn_autodiscover c \<and> np_create (cn_nodePort c) \<and> cn_irohPort c \<noteq> 0) \<and>
    (pl_skipped p \<longleftrightarrow> \<not> pl_autodiscover p \<and> (cn_autodiscover c \<or> np_create (cn_nodePort c))) \<and>
    (pl_skipped p \<longleftrightarrow> pl_skipReason p \<noteq> []) \<and>
    (''TOWONEL_AGENT_K8S_AUTODISCOVER'' \<in> ev_name ` set env \<longleftrightarrow> pl_autodiscover p) \<and>
    (\<lparr>cp_name = ''iroh'', cp_port = cn_irohPort c, cp_protocol = ''UDP''\<rparr>
       \<in> set (agentContainerPorts (pl_irohPort p)) \<longleftrightarrow> cn_irohPort c \<noteq> 0) \<and>
    (pl_nodePortName p \<noteq> [] \<longleftrightarrow> pl_autodiscover p)"
proof -
  have "map ev_name (connectivityEnv ta p) =
      (if pl_irohPort p \<noteq> 0 then [''TOWONEL_AGENT_IROH_PORT''] else []) @
      (if pl_extraLocalAddrs p \<noteq> [] then [''TOWONEL_AGENT_EXTRA_LOCAL_ADDRS''] else []) @
      (if pl_autodiscover p then [''TOWONEL_AGENT_K8S_AUTODISCOVER'', ''TOWONEL_AGENT_K8S_SERVICE'',
         ''TOWONEL_AGENT_K8S_NAMESPACE'', ''NODE_NAME''] else [])" for p
    by (simp add: connectivityEnv_def env_val_def)
  note names = arg_cong[OF this, where f = set, unfolded set_map]
  have names: "ev_name ` set (connectivityEnv ta p) =
      (if pl_irohPort p \<noteq> 0 then {''TOWONEL_AGENT_IROH_PORT''} else {}) \<union>
      (if pl_extraLocalAddrs p \<noteq> [] then {''TOWONEL_AGENT_EXTRA_LOCAL_ADDRS''} else {}) \<union>
      (if pl_autodiscover p then {''TOWONEL_AGENT_K8S_AUTODISCOVER'', ''TOWONEL_AGENT_K8S_SERVICE'',
         ''TOWONEL_AGENT_K8S_NAMESPACE'', ''NODE_NAME''} else {})" for p
    unfolding names by auto
  show ?thesis
    by (auto simp: Let_def names planConnectivity_fields agentContainerPorts_def)
qed

lemma with_default_key: "has_key (with_default k v m) k"
  by (simp add: with_default_def has_key_map_of update_conv')

lemma with_default_keeps: "has_key m k' \<Longrightarrow> map_of (with_default k v m) k' = map_of m k'"
  by (auto simp: with_default_def update_conv')

text \<open>The Deployment the operator renders is stable: what it just built needs no further write.\<close>

lemma map_equal_refl: "(\<And>x. eq x x) \<Longrightarrow> map_equal eq m m"
  by (auto simp: map_equal_def list_all_iff split: option.splits dest: weak_map_of_SomeI)

lemma deploymentNeedsWrite_same: "(\<And>x. qeq x x) \<Longrightarrow> pt_containers (dp_template d) \<noteq> [] \<Longrightarrow>
    \<not> deploymentNeedsWrite qeq d d"
  by (cases "pt_containers (dp_template d)")
     (simp_all add: deploymentNeedsWrite_def resources_equal_def map_equal_refl)

end
