(* ===== verification/AgentModel.thy ===== *)
theory AgentModel
  imports AgentConfig TunnelController
begin

text \<open>
  \<open>TowonelAgentReconciler\<close> as a record of the client operations it performs, and its status
  helpers (\<open>towonelagent_status.go\<close>). The fields are reads and writes of the API server:
  reads that go through \<open>reader()\<close> (the uncached reader when it is set) are
  \<open>ar_get_agent\<close> and \<open>ar_get_tunnel\<close>. The controller makes no hub call, so there is no
  transport here.
\<close>

section \<open>The reconciler\<close>

text \<open>The objects an agent owns besides its Secret and its Deployment.\<close>

datatype owned_kind = KServiceAccount | KService | KRole | KRoleBinding

datatype owned_obj =
    OServiceAccount service_account
  | OService service_obj
  | ORole rbac_role
  | ORoleBinding role_binding

fun owned_kind_of :: "owned_obj \<Rightarrow> owned_kind" where
  "owned_kind_of (OServiceAccount x) = KServiceAccount"
| "owned_kind_of (OService x) = KService"
| "owned_kind_of (ORole x) = KRole"
| "owned_kind_of (ORoleBinding x) = KRoleBinding"

fun owned_meta :: "owned_obj \<Rightarrow> meta" where
  "owned_meta (OServiceAccount x) = sa_meta x"
| "owned_meta (OService x) = svc_meta x"
| "owned_meta (ORole x) = role_meta x"
| "owned_meta (ORoleBinding x) = rb_meta x"

fun with_owned_meta :: "meta \<Rightarrow> owned_obj \<Rightarrow> owned_obj" where
  "with_owned_meta m (OServiceAccount x) = OServiceAccount (x\<lparr>sa_meta := m\<rparr>)"
| "with_owned_meta m (OService x) = OService (x\<lparr>svc_meta := m\<rparr>)"
| "with_owned_meta m (ORole x) = ORole (x\<lparr>role_meta := m\<rparr>)"
| "with_owned_meta m (ORoleBinding x) = ORoleBinding (x\<lparr>rb_meta := m\<rparr>)"

text \<open>How \<open>%T\<close> prints an object of each kind.\<close>

fun kind_text :: "owned_kind \<Rightarrow> string" where
  "kind_text KServiceAccount = ''*v1.ServiceAccount''"
| "kind_text KService = ''*v1.Service''"
| "kind_text KRole = ''*v1.Role''"
| "kind_text KRoleBinding = ''*v1.RoleBinding''"

lemma owned_meta_with [simp]: "owned_meta (with_owned_meta m x) = m"
  by (cases x) simp_all

lemma owned_kind_with [simp]: "owned_kind_of (with_owned_meta m x) = owned_kind_of x"
  by (cases x) simp_all

record 'w agent_reconciler = k8s_lib +
  ar_get_agent :: "nn \<Rightarrow> ('w, goerr + towonel_agent) op"
  ar_get_tunnel :: "nn \<Rightarrow> ('w, goerr + towonel_tunnel) op"
  ar_get_secret :: "nn \<Rightarrow> ('w, goerr + secret_obj) op"
  ar_apply_secret :: "secret_obj \<Rightarrow> ('w, goerr option) op"
  ar_status_update :: "towonel_agent \<Rightarrow> ('w, goerr option) op"
  ar_apply_owned :: "owned_obj \<Rightarrow> ('w, goerr option) op"
  ar_get_owned :: "owned_kind \<Rightarrow> nn \<Rightarrow> ('w, goerr + meta) op"
  ar_delete_owned :: "owned_kind \<Rightarrow> nn \<Rightarrow> string \<Rightarrow> ('w, goerr option) op"
  ar_list_agents :: "('w, goerr + towonel_agent list) op"
  ar_list_indexed :: "string \<Rightarrow> ('w, goerr + towonel_agent list) op"
  ar_get_crb :: "string \<Rightarrow> ('w, goerr + cluster_role_binding) op"
  ar_update_crb :: "cluster_role_binding \<Rightarrow> ('w, goerr option) op"
  ar_get_deployment :: "nn \<Rightarrow> ('w, goerr + deployment) op"
  ar_apply_deployment :: "deployment \<Rightarrow> ('w, goerr + deployment) op"
  ar_recorder :: "(event \<Rightarrow> 'w \<Rightarrow> 'w) option"
  ar_agentEnv :: "env_var list"
  ar_quantity_eq :: "string \<Rightarrow> string \<Rightarrow> bool"
  ar_backoff_retries :: nat
  ar_default_retries :: nat

definition agent_event ::
  "('w, 'b) agent_reconciler_scheme \<Rightarrow> towonel_agent \<Rightarrow> event_type \<Rightarrow> string \<Rightarrow> string \<Rightarrow> 'w \<Rightarrow> 'w" where
  "agent_event r ta etype reason msg w = (case ar_recorder r of
     None \<Rightarrow> w
   | Some rec \<Rightarrow> rec \<lparr>ev_object = key_of (ta_meta ta), ev_type = etype, ev_reason = reason,
                      ev_message = msg\<rparr> w)"

text \<open>
  \<open>retry.RetryOnConflict\<close>: the function is run again while it fails with a conflict and its
  backoff has steps left; the number of further attempts comes from the library's backoff.
\<close>

fun retry_on_conflict :: "nat \<Rightarrow> ('w, goerr + 'a) op \<Rightarrow> ('w, goerr + 'a) op" where
  "retry_on_conflict 0 f w = f w"
| "retry_on_conflict (Suc n) f w = (case f w of
     (Inl e, w1) \<Rightarrow> if is_conflict e then retry_on_conflict n f w1 else (Inl e, w1)
   | (Inr a, w1) \<Rightarrow> (Inr a, w1))"

section \<open>Status (\<open>towonelagent_status.go\<close>)\<close>

definition setAgentCond ::
  "('a) k8s_lib_scheme \<Rightarrow> string \<Rightarrow> cond_status \<Rightarrow> string \<Rightarrow> string \<Rightarrow> towonel_agent \<Rightarrow> towonel_agent" where
  "setAgentCond L condType status reason msg ta =
     ta\<lparr>ta_status := (ta_status ta)\<lparr>as_conditions :=
       set_status_condition L (as_conditions (ta_status ta))
         \<lparr>c_type = condType, c_status = status, c_reason = reason, c_message = msg,
          c_generation = m_generation (ta_meta ta)\<rparr>\<rparr>\<rparr>"

definition agent_cond :: "('a) k8s_lib_scheme \<Rightarrow> towonel_agent \<Rightarrow> string \<Rightarrow> condition option" where
  "agent_cond L ta t = find_status_condition L (as_conditions (ta_status ta)) t"

definition agent_cond_true :: "('a) k8s_lib_scheme \<Rightarrow> towonel_agent \<Rightarrow> string \<Rightarrow> bool" where
  "agent_cond_true L ta t = is_status_condition_true L (as_conditions (ta_status ta)) t"

definition set_agent_phase :: "string \<Rightarrow> towonel_agent \<Rightarrow> towonel_agent" where
  "set_agent_phase p ta = ta\<lparr>ta_status := (ta_status ta)\<lparr>as_phase := p\<rparr>\<rparr>"

definition markAgentWaiting :: "towonel_agent \<Rightarrow> towonel_agent" where
  "markAgentWaiting = set_agent_phase ''WaitingForTunnel''"

definition deployment_available :: "deployment option \<Rightarrow> bool" where
  "deployment_available dep = (case dep of None \<Rightarrow> False
     | Some d \<Rightarrow> list_ex (\<lambda>(t, s). t = ''Available'' \<and> s = CTrue) (dp_conditions d))"

definition agent_gates :: "string list" where
  "agent_gates = [CondTunnelReady, CondConfigRendered, CondPortsAllocated, CondWorkloadAvailable]"

definition ports_condition :: "('a) k8s_lib_scheme \<Rightarrow> towonel_agent \<Rightarrow> agent_config \<Rightarrow> towonel_agent" where
  "ports_condition L ta cfg =
     (if length (ag_tcp (ta_spec ta)) + length (ag_udp (ta_spec ta)) = 0
      then setAgentCond L CondPortsAllocated CTrue ReasonNoL4Services ''no tcp/udp services declared'' ta
      else if ac_pending cfg \<noteq> []
      then setAgentCond L CondPortsAllocated CFalse ReasonPending
        (''awaiting port allocations: '' @ join '', '' (ac_pending cfg)) ta
      else setAgentCond L CondPortsAllocated CTrue ReasonSynced ''all l4 services allocated'' ta)"

definition workload_condition :: "('a) k8s_lib_scheme \<Rightarrow> towonel_agent \<Rightarrow> deployment option \<Rightarrow> towonel_agent" where
  "workload_condition L ta dep =
     (if deployment_available dep
      then setAgentCond L CondWorkloadAvailable CTrue ReasonAvailable ''deployment available'' ta
      else setAgentCond L CondWorkloadAvailable CFalse ReasonUnavailable ''deployment not yet available'' ta)"

definition set_config_hash :: "string \<Rightarrow> towonel_agent \<Rightarrow> towonel_agent" where
  "set_config_hash h ta = ta\<lparr>ta_status := (ta_status ta)\<lparr>as_observedConfigHash := h\<rparr>\<rparr>"

definition rollupAgentStatus ::
  "('a) k8s_lib_scheme \<Rightarrow> towonel_agent \<Rightarrow> agent_config \<Rightarrow> deployment option \<Rightarrow> towonel_agent" where
  "rollupAgentStatus L ta cfg dep =
     (let ta' = set_config_hash (config_hash cfg) (workload_condition L (ports_condition L ta cfg) dep)
      in if \<not> agent_cond_true L ta' CondTunnelReady then markAgentWaiting ta'
         else if list_all (agent_cond_true L ta') agent_gates then set_agent_phase ''Ready'' ta'
         else set_agent_phase ''Pending'' ta')"

definition observe_agent :: "towonel_agent \<Rightarrow> towonel_agent" where
  "observe_agent ta = ta\<lparr>ta_status := (ta_status ta)\<lparr>as_observedGeneration := m_generation (ta_meta ta)\<rparr>\<rparr>"

definition writeStatus_agent ::
  "('w, 'b) agent_reconciler_scheme \<Rightarrow> towonel_agent \<Rightarrow> agent_status \<Rightarrow> ('w, goerr option) op" where
  "writeStatus_agent r ta orig w =
     (if ta_status (observe_agent ta) = orig then (None, w) else ar_status_update r (observe_agent ta) w)"

definition setConnectivityCond ::
  "('a) k8s_lib_scheme \<Rightarrow> towonel_agent \<Rightarrow> connectivity_plan \<Rightarrow> bool \<Rightarrow> bool \<Rightarrow> towonel_agent" where
  "setConnectivityCond L ta p requested shellMissing =
     (if pl_skipped p
      then setAgentCond L CondIrohConnectivityReady CFalse ReasonConnectivitySkipped (pl_skipReason p) ta
      else if shellMissing
      then setAgentCond L CondIrohConnectivityReady CFalse ReasonNodeRBACShellMissing
        ''chart node-RBAC shell missing; enable agentNodeRBAC.create in the chart'' ta
      else if \<not> requested
      then ta\<lparr>ta_status := (ta_status ta)\<lparr>as_conditions :=
        remove_status_condition L (as_conditions (ta_status ta)) CondIrohConnectivityReady\<rparr>\<rparr>
      else setAgentCond L CondIrohConnectivityReady CTrue ReasonConnectivityReady
        ''direct-path connectivity applied'' ta)"

text \<open>The error \<open>failStatus\<close> returns: the cause joined with a failed status write.\<close>

definition failStatus ::
  "('w, 'b) agent_reconciler_scheme \<Rightarrow> towonel_agent \<Rightarrow> agent_status \<Rightarrow> goerr \<Rightarrow> ('w, goerr) op" where
  "failStatus r ta orig err w =
     (case writeStatus_agent r (set_agent_phase ''Pending''
             (setAgentCond r CondConfigRendered CFalse ReasonReconciling (err_text err) ta)) orig w of
        (None, w1) \<Rightarrow> (Joined [err], w1)
      | (Some werr, w1) \<Rightarrow> (Joined [err, werr], w1))"

section \<open>Facts on conditions\<close>

lemma setAgentCond_frame [frame_simps, simp]:
  "ta_meta (setAgentCond L t s rs m ta) = ta_meta ta"
  "ta_spec (setAgentCond L t s rs m ta) = ta_spec ta"
  "as_phase (ta_status (setAgentCond L t s rs m ta)) = as_phase (ta_status ta)"
  "as_renderedSecretRef (ta_status (setAgentCond L t s rs m ta)) = as_renderedSecretRef (ta_status ta)"
  "as_observedConfigHash (ta_status (setAgentCond L t s rs m ta)) = as_observedConfigHash (ta_status ta)"
  by (simp_all add: setAgentCond_def)

lemma set_agent_phase_frame [frame_simps, simp]:
  "ta_meta (set_agent_phase p ta) = ta_meta ta"
  "ta_spec (set_agent_phase p ta) = ta_spec ta"
  "as_phase (ta_status (set_agent_phase p ta)) = p"
  "agent_cond L (set_agent_phase p ta) t = agent_cond L ta t"
  "agent_cond_true L (set_agent_phase p ta) t = agent_cond_true L ta t"
  by (simp_all add: set_agent_phase_def agent_cond_def agent_cond_true_def)

lemma setAgentCond_cond [simp]:
  "lib_ok L \<Longrightarrow> agent_cond L (setAgentCond L t s rs m ta) t' =
     (if t' = t then Some \<lparr>c_type = t, c_status = s, c_reason = rs, c_message = m,
                           c_generation = m_generation (ta_meta ta)\<rparr>
      else agent_cond L ta t')"
  "lib_ok L \<Longrightarrow> agent_cond_true L (setAgentCond L t s rs m ta) t' =
     (if t' = t then s = CTrue else agent_cond_true L ta t')"
  by (simp_all add: agent_cond_def agent_cond_true_def setAgentCond_def lib_simps)

lemma set_config_hash_frame [simp]:
  "ta_meta (set_config_hash h ta) = ta_meta ta" "ta_spec (set_config_hash h ta) = ta_spec ta"
  "agent_cond_true L (set_config_hash h ta) t = agent_cond_true L ta t"
  "as_observedConfigHash (ta_status (set_config_hash h ta)) = h"
  "as_observedConfigHash (ta_status (set_agent_phase p ta)) = as_observedConfigHash (ta_status ta)"
  by (simp_all add: set_config_hash_def agent_cond_true_def set_agent_phase_def)

lemma ports_condition_true:
  "lib_ok L \<Longrightarrow> agent_cond_true L (ports_condition L ta cfg) t =
     (if t = CondPortsAllocated then ag_tcp (ta_spec ta) = [] \<and> ag_udp (ta_spec ta) = [] \<or> ac_pending cfg = []
      else agent_cond_true L ta t)"
  by (simp add: ports_condition_def)

lemma workload_condition_true:
  "lib_ok L \<Longrightarrow> agent_cond_true L (workload_condition L ta dep) t =
     (if t = CondWorkloadAvailable then deployment_available dep else agent_cond_true L ta t)"
  by (simp add: workload_condition_def)

lemma gate_names: "distinct agent_gates"
  by (simp add: agent_gates_def cond_names)

lemma rollupAgentStatus_facts:
  assumes "lib_ok L"
  shows "let ports = (ag_tcp (ta_spec ta) = [] \<and> ag_udp (ta_spec ta) = [] \<or> ac_pending cfg = []);
             ta' = rollupAgentStatus L ta cfg dep
         in as_phase (ta_status ta') =
           (if \<not> agent_cond_true L ta CondTunnelReady then ''WaitingForTunnel''
            else if agent_cond_true L ta CondConfigRendered \<and> ports \<and> deployment_available dep
            then ''Ready'' else ''Pending'') \<and>
           (agent_cond_true L ta' CondPortsAllocated \<longleftrightarrow> ports) \<and>
           as_observedConfigHash (ta_status ta') = config_hash cfg"
proof -
  have n: "CondWorkloadAvailable \<noteq> CondTunnelReady" "CondPortsAllocated \<noteq> CondTunnelReady"
    "CondWorkloadAvailable \<noteq> CondConfigRendered" "CondPortsAllocated \<noteq> CondConfigRendered"
    "CondWorkloadAvailable \<noteq> CondPortsAllocated"
    using gate_names by (auto simp: agent_gates_def)
  show ?thesis
    using assms
    by (simp add: rollupAgentStatus_def Let_def agent_gates_def n n[symmetric] markAgentWaiting_def
        workload_condition_true ports_condition_true) blast
qed

text \<open>\<open>rollupAgentStatus\<close> reports Ready exactly when the tunnel's token is available, the
  configuration is rendered, no TCP or UDP service waits for its port and the Deployment is
  available; without the tunnel it reports WaitingForTunnel, and Pending otherwise. The optional
  direct path never counts.\<close>

theorem rollupAgentStatus_ready:
  assumes "lib_ok L"
  shows "let ports = (ag_tcp (ta_spec ta) = [] \<and> ag_udp (ta_spec ta) = [] \<or> ac_pending cfg = []);
             ta' = rollupAgentStatus L ta cfg dep
         in as_phase (ta_status ta') =
           (if \<not> agent_cond_true L ta CondTunnelReady then ''WaitingForTunnel''
            else if agent_cond_true L ta CondConfigRendered \<and> ports \<and> deployment_available dep
            then ''Ready'' else ''Pending'') \<and>
           (agent_cond_true L ta' CondPortsAllocated \<longleftrightarrow> ports) \<and>
           as_observedConfigHash (ta_status ta') = config_hash cfg"
  by (rule rollupAgentStatus_facts[OF assms])

theorem rollupAgentStatus_ready_witness:
  "as_phase (ta_status (rollupAgentStatus std_lib (setAgentCond std_lib CondTunnelReady CTrue [] [] probe_agent)
     (renderConfig probe_agent [] ''i'') None)) = ''Pending''"
  using rollupAgentStatus_ready[OF std_lib_ok, of "setAgentCond std_lib CondTunnelReady CTrue [] [] probe_agent"
      "renderConfig probe_agent [] ''i''" None]
  by (simp add: Let_def std_lib_ok deployment_available_def)

end
