(* ===== verification/AgentChildren.thy ===== *)
theory AgentChildren
  imports AgentModel
begin

text \<open>
  What an agent's reconcile writes: the copy of the tunnel token
  (\<open>towonelagent_secret.go\<close>), the direct-path objects and the shared node-reader binding
  (\<open>towonelagent_connectivity.go\<close>) and the Deployment (\<open>towonelagent_deploy.go\<close>).
\<close>

section \<open>The token (\<open>towonelagent_secret.go\<close>)\<close>

text \<open>\<open>readTunnelToken\<close>: the tunnel and its token, or why the agent waits.\<close>

datatype tunnel_token =
    Gate "towonel_tunnel option" string string
  | Token towonel_tunnel string

definition readTunnelToken ::
  "('w, 'b) agent_reconciler_scheme \<Rightarrow> towonel_agent \<Rightarrow> ('w, goerr + tunnel_token) op" where
  "readTunnelToken r ta w =
     (let key = resolvedTunnelRef ta in
      case ar_get_tunnel r key w of
        (Inl e, w1) \<Rightarrow>
          (if is_not_found e
           then (Inr (Gate None ReasonTunnelNotFound (''tunnel '' @ nn_str key @ '' not found'')), w1)
           else (Inl (wrapf (''get tunnel '' @ nn_str key @ '': '') e), w1))
      | (Inr tt, w1) \<Rightarrow>
          (case st_tokenSecretRef (tt_status tt) of
             None \<Rightarrow> (Inr (Gate (Some tt) ReasonTokenSecretMissing
               (''tunnel '' @ nn_str key @ '' has no token secret yet'')), w1)
           | Some ref \<Rightarrow>
               if sr_name ref = [] then (Inr (Gate (Some tt) ReasonTokenSecretMissing
                 (''tunnel '' @ nn_str key @ '' has no token secret yet'')), w1)
               else
                 let secNS = cmp_or (sr_namespace ref) (m_ns (tt_meta tt));
                     skey = secNS @ ''/'' @ sr_name ref in
                 (case ar_get_secret r (secNS, sr_name ref) w1 of
                    (Inl e, w2) \<Rightarrow>
                      (if is_not_found e
                       then (Inr (Gate (Some tt) ReasonTokenSecretMissing
                         (''token secret '' @ skey @ '' not found'')), w2)
                       else (Inl (wrapf (''get token secret '' @ skey @ '': '') e), w2))
                  | (Inr sec, w2) \<Rightarrow>
                      let tok = mget (sec_data sec) tokenDataKey in
                      if tok = [] then (Inr (Gate (Some tt) ReasonTokenSecretMissing
                        (''token secret '' @ skey @ '' has no token'')), w2)
                      else if mget (m_annotations (sec_meta sec)) AnnotationInviteID \<noteq> st_inviteID (tt_status tt)
                      then (Inr (Gate (Some tt) ReasonTokenStale
                        ''token secret invite-id lags tunnel status (rotation in flight)''), w2)
                      else (Inr (Token tt tok), w2))))"

definition set_rendered_ref :: "string \<Rightarrow> string \<Rightarrow> towonel_agent \<Rightarrow> towonel_agent" where
  "set_rendered_ref name ns ta = ta\<lparr>ta_status := (ta_status ta)\<lparr>as_renderedSecretRef :=
     Some \<lparr>sr_name = name, sr_namespace = ns\<rparr>\<rparr>\<rparr>"

definition agent_secret_key :: "towonel_agent \<Rightarrow> nn" where
  "agent_secret_key ta = (m_ns (ta_meta ta), tokenSecretName (m_name (ta_meta ta)))"

definition write_agent_secret ::
  "('w, 'b) agent_reconciler_scheme \<Rightarrow> towonel_agent \<Rightarrow> string \<Rightarrow> string \<Rightarrow> ('w, goerr option \<times> towonel_agent) op"
  where
  "write_agent_secret r ta token inviteID w =
     (let desired = buildTokenSecret (m_name (ta_meta ta)) (m_ns (ta_meta ta)) token inviteID in
      case set_controller_reference r (ta_meta ta) (sec_meta desired) of
        Inl e \<Rightarrow> ((Some (wrapf ''set owner ref: '' e), ta), w)
      | Inr m \<Rightarrow>
          (case ar_apply_secret r (desired\<lparr>sec_meta := m\<rparr>) w of
             (Some e, w1) \<Rightarrow>
               ((Some (wrapf (''apply agent token secret '' @ nn_str (agent_secret_key ta) @ '': '') e), ta), w1)
           | (None, w1) \<Rightarrow> ((None, set_rendered_ref (m_name m) (m_ns m) ta), w1)))"

definition ensureAgentSecret ::
  "('w, 'b) agent_reconciler_scheme \<Rightarrow> towonel_agent \<Rightarrow> string \<Rightarrow> string \<Rightarrow> ('w, goerr option \<times> towonel_agent) op"
  where
  "ensureAgentSecret r ta token inviteID w =
     (let key = agent_secret_key ta in
      case ar_get_secret r key w of
        (Inl e, w1) \<Rightarrow>
          (if is_not_found e then write_agent_secret r ta token inviteID w1
           else ((Some (wrapf (''get agent token secret '' @ nn_str key @ '': '') e), ta), w1))
      | (Inr current, w1) \<Rightarrow>
          (if m_controller (sec_meta current) \<noteq> Some (m_uid (ta_meta ta))
           then ((Some (Sentinel ErrSecretClash), ta), w1)
           else if \<not> tokenSecretNeedsWrite (Some current) inviteID
           then ((None, set_rendered_ref (snd key) (fst key) ta), w1)
           else write_agent_secret r ta token inviteID w1))"

section \<open>Direct-path objects (\<open>towonelagent_connectivity.go\<close>)\<close>

definition agent_child_meta :: "towonel_agent \<Rightarrow> string \<Rightarrow> meta" where
  "agent_child_meta ta name = (new_meta (m_ns (ta_meta ta)) name)\<lparr>m_labels := agentLabels ta\<rparr>"

definition buildServiceAccount :: "towonel_agent \<Rightarrow> service_account" where
  "buildServiceAccount ta = \<lparr>sa_meta = agent_child_meta ta (agentSAName (m_name (ta_meta ta)))\<rparr>"

definition buildNodePortService :: "towonel_agent \<Rightarrow> connectivity_plan \<Rightarrow> service_obj" where
  "buildNodePortService ta p =
     \<lparr>svc_meta = agent_child_meta ta (pl_nodePortName p), svc_type = ''NodePort'',
      svc_externalTrafficPolicy = ''Local'', svc_clusterIP = [], svc_selector = agentSelector ta,
      svc_ports = [\<lparr>sp_name = ''iroh'', sp_protocol = ''UDP'', sp_port = pl_irohPort p,
        sp_targetPort = pl_irohPort p, sp_nodePort = pl_nodePortPort p\<rparr>]\<rparr>"

definition agent_subject :: "towonel_agent \<Rightarrow> rbac_subject" where
  "agent_subject ta = \<lparr>sub_kind = ''ServiceAccount'', sub_apiGroup = [],
     sub_name = agentSAName (m_name (ta_meta ta)), sub_namespace = m_ns (ta_meta ta)\<rparr>"

definition buildServicesRBAC :: "towonel_agent \<Rightarrow> rbac_role \<times> role_binding" where
  "buildServicesRBAC ta = (let name = servicesReaderName (m_name (ta_meta ta)) in
     (\<lparr>role_meta = agent_child_meta ta name, role_rules = [\<lparr>pr_apiGroups = [''''],
         pr_resources = [''services''], pr_verbs = [''get'', ''list'', ''watch'']\<rparr>]\<rparr>,
      \<lparr>rb_meta = agent_child_meta ta name, rb_roleRef = name, rb_subjects = [agent_subject ta]\<rparr>))"

definition applyOwned ::
  "('w, 'b) agent_reconciler_scheme \<Rightarrow> towonel_agent \<Rightarrow> owned_obj \<Rightarrow> ('w, goerr option) op" where
  "applyOwned r ta obj w =
     (let k = kind_text (owned_kind_of obj) in
      case set_controller_reference r (ta_meta ta) (owned_meta obj) of
        Inl e \<Rightarrow> (Some (wrapf (''set owner ref on '' @ k @ '': '') e), w)
      | Inr m \<Rightarrow>
          (case ar_apply_owned r (with_owned_meta m obj) w of
             (Some e, w1) \<Rightarrow> (Some (wrapf (''apply '' @ k @ '' '' @ nn_str (key_of m) @ '': '') e), w1)
           | (None, w1) \<Rightarrow> (None, w1)))"

definition deleteOwnedIfExists ::
  "('w, 'b) agent_reconciler_scheme \<Rightarrow> towonel_agent \<Rightarrow> owned_kind \<Rightarrow> nn \<Rightarrow> ('w, goerr option) op" where
  "deleteOwnedIfExists r ta k key w =
     (case ar_get_owned r k key w of
        (Inl e, w1) \<Rightarrow>
          (if is_not_found e then (None, w1)
           else (Some (wrapf (''get '' @ kind_text k @ '' '' @ nn_str key @ '' for prune: '') e), w1))
      | (Inr m, w1) \<Rightarrow>
          if m_controller m \<noteq> Some (m_uid (ta_meta ta)) then (None, w1)
          else
            (case ar_delete_owned r k key (m_rv m) w1 of
               (None, w2) \<Rightarrow> (None, w2)
             | (Some e, w2) \<Rightarrow>
                 if is_not_found e \<or> is_conflict e then (None, w2)
                 else (Some (wrapf (''delete '' @ kind_text k @ '' '' @ nn_str key @ '': '') e), w2)))"

text \<open>The service accounts of the live agents with a valid plan, by namespace and name.\<close>

definition node_reader_subjects :: "towonel_agent list \<Rightarrow> rbac_subject list" where
  "node_reader_subjects items = sort_key (\<lambda>s. [sub_namespace s, sub_name s])
     (map agent_subject (filter (\<lambda>a. \<not> m_deleting (ta_meta a) \<and> pl_autodiscover (planConnectivity a)) items))"

definition computeNodeReaderSubjects ::
  "('w, 'b) agent_reconciler_scheme \<Rightarrow> ('w, goerr + rbac_subject list) op" where
  "computeNodeReaderSubjects r w =
     (case ar_list_agents r w of
        (Inl e, w1) \<Rightarrow> (Inl (wrapf ''list agents for node-reader subjects: '' e), w1)
      | (Inr items, w1) \<Rightarrow> (Inr (node_reader_subjects items), w1))"

text \<open>One attempt at the shared binding: whether the chart's shell is missing.\<close>

definition patch_node_reader ::
  "('w, 'b) agent_reconciler_scheme \<Rightarrow> rbac_subject list \<Rightarrow> ('w, goerr + bool) op" where
  "patch_node_reader r desired w =
     (case ar_get_crb r nodeReaderName w of
        (Inl e, w1) \<Rightarrow> (if is_not_found e then (Inr True, w1) else (Inl e, w1))
      | (Inr crb, w1) \<Rightarrow>
          if crb_subjects crb = desired then (Inr False, w1)
          else
            (case ar_update_crb r (crb\<lparr>crb_subjects := desired\<rparr>) w1 of
               (Some e, w2) \<Rightarrow> (Inl e, w2)
             | (None, w2) \<Rightarrow> (Inr False, w2)))"

definition reconcileNodeReaderSubjects ::
  "('w, 'b) agent_reconciler_scheme \<Rightarrow> ('w, goerr + bool) op" where
  "reconcileNodeReaderSubjects r w =
     (case computeNodeReaderSubjects r w of
        (Inl e, w1) \<Rightarrow> (Inl e, w1)
      | (Inr desired, w1) \<Rightarrow>
          (case retry_on_conflict (ar_default_retries r) (patch_node_reader r desired) w1 of
             (Inl e, w2) \<Rightarrow> (Inl (wrapf ''patch node-reader subjects: '' e), w2)
           | (Inr missing, w2) \<Rightarrow> (Inr missing, w2)))"

text \<open>Running steps that may fail, in order, until the first error.\<close>

fun run_steps :: "('w, goerr option) op list \<Rightarrow> ('w, goerr option) op" where
  "run_steps [] w = (None, w)"
| "run_steps (f # fs) w = (case f w of (Some e, w1) \<Rightarrow> (Some e, w1) | (None, w1) \<Rightarrow> run_steps fs w1)"

definition connectivity_steps ::
  "('w, 'b) agent_reconciler_scheme \<Rightarrow> towonel_agent \<Rightarrow> connectivity_plan \<Rightarrow> ('w, goerr option) op list" where
  "connectivity_steps r ta p =
     applyOwned r ta (OServiceAccount (buildServiceAccount ta)) #
     (if pl_autodiscover p then
        [applyOwned r ta (OService (buildNodePortService ta p)),
         applyOwned r ta (ORole (fst (buildServicesRBAC ta))),
         applyOwned r ta (ORoleBinding (snd (buildServicesRBAC ta)))]
      else
        [deleteOwnedIfExists r ta KService (m_ns (ta_meta ta), nodePortServiceName ta),
         deleteOwnedIfExists r ta KRoleBinding (m_ns (ta_meta ta), servicesReaderName (m_name (ta_meta ta))),
         deleteOwnedIfExists r ta KRole (m_ns (ta_meta ta), servicesReaderName (m_name (ta_meta ta)))])"

definition ensureConnectivity ::
  "('w, 'b) agent_reconciler_scheme \<Rightarrow> towonel_agent \<Rightarrow> connectivity_plan \<Rightarrow> ('w, goerr + bool) op" where
  "ensureConnectivity r ta p w =
     (case run_steps (connectivity_steps r ta p) w of
        (Some e, w1) \<Rightarrow> (Inl e, w1)
      | (None, w1) \<Rightarrow> reconcileNodeReaderSubjects r w1)"

section \<open>The Deployment (\<open>towonelagent_deploy.go\<close>)\<close>

definition ensureDeployment ::
  "('w, 'b) agent_reconciler_scheme \<Rightarrow> towonel_agent \<Rightarrow> agent_config \<Rightarrow> ('w, goerr + deployment) op" where
  "ensureDeployment r ta cfg w =
     (let built = buildDeployment ta cfg in
      case set_controller_reference r (ta_meta ta) (dp_meta built) of
        Inl e \<Rightarrow> (Inl (wrapf ''set owner ref: '' e), w)
      | Inr m \<Rightarrow>
          let desired = built\<lparr>dp_meta := m\<rparr>; key = key_of m;
              apply = (\<lambda>w1. case ar_apply_deployment r desired w1 of
                 (Inl e, w2) \<Rightarrow> (Inl (wrapf (''apply deployment '' @ nn_str key @ '': '') e), w2)
               | (Inr applied, w2) \<Rightarrow>
                   (case ar_get_deployment r key w2 of
                      (Inl e, w3) \<Rightarrow> (Inr applied, w3)
                    | (Inr current, w3) \<Rightarrow> (Inr current, w3)))
          in (case ar_get_deployment r key w of
                (Inr current, w1) \<Rightarrow>
                  (if \<not> deploymentNeedsWrite (ar_quantity_eq r) current desired then (Inr current, w1)
                   else apply w1)
              | (Inl e, w1) \<Rightarrow>
                  (if is_not_found e then apply w1
                   else (Inl (wrapf (''get deployment '' @ nn_str key @ '': '') e), w1))))"

section \<open>The token copy never takes over a foreign Secret\<close>

text \<open>
  The API server's Secrets as the agent's reads and applies see them: reads change nothing, an
  applied Secret is stored with the keys, annotations and controller of the apply, and an apply
  that fails touches no other Secret.
\<close>

definition agent_secret_api ::
  "('w, 'b) agent_reconciler_scheme \<Rightarrow> ('w \<Rightarrow> nn \<Rightarrow> secret_obj option) \<Rightarrow> bool" where
  "agent_secret_api r secs \<longleftrightarrow>
     (\<forall>k w res w'. ar_get_secret r k w = (res, w') \<longrightarrow> secs w' = secs w \<and>
        (\<forall>s. res = Inr s \<longrightarrow> secs w k = Some s) \<and>
        (\<forall>e. res = Inl e \<and> is_not_found e \<longrightarrow> secs w k = None)) \<and>
     (\<forall>s w e w'. ar_apply_secret r s w = (e, w') \<longrightarrow>
        (case e of Some _ \<Rightarrow> \<forall>k. k \<noteq> key_of (sec_meta s) \<longrightarrow> secs w' k = secs w k
         | None \<Rightarrow> \<exists>s'. secs w' = (secs w)(key_of (sec_meta s) \<mapsto> s') \<and>
             m_controller (sec_meta s') = m_controller (sec_meta s) \<and>
             (\<forall>x. has_key (sec_data s) x \<longrightarrow> mget (sec_data s') x = mget (sec_data s) x) \<and>
             (\<forall>x. has_key (m_annotations (sec_meta s)) x \<longrightarrow>
                mget (m_annotations (sec_meta s')) x = mget (m_annotations (sec_meta s)) x)))"

lemma agent_secret_get:
  assumes "agent_secret_api r secs" and "ar_get_secret r k w = (res, w')"
  shows "secs w' = secs w \<and> (\<forall>s. res = Inr s \<longrightarrow> secs w k = Some s) \<and>
    (\<forall>e. res = Inl e \<and> is_not_found e \<longrightarrow> secs w k = None)"
  using assms unfolding agent_secret_api_def by blast

lemma agent_secret_apply:
  assumes "agent_secret_api r secs" and "ar_apply_secret r s w = (e, w')"
  shows "case e of Some _ \<Rightarrow> \<forall>k. k \<noteq> key_of (sec_meta s) \<longrightarrow> secs w' k = secs w k
    | None \<Rightarrow> \<exists>s'. secs w' = (secs w)(key_of (sec_meta s) \<mapsto> s') \<and>
        m_controller (sec_meta s') = m_controller (sec_meta s) \<and>
        (\<forall>x. has_key (sec_data s) x \<longrightarrow> mget (sec_data s') x = mget (sec_data s) x) \<and>
        (\<forall>x. has_key (m_annotations (sec_meta s)) x \<longrightarrow>
           mget (m_annotations (sec_meta s')) x = mget (m_annotations (sec_meta s)) x)"
  using assms unfolding agent_secret_api_def by blast

definition holds_token :: "secret_obj \<Rightarrow> towonel_agent \<Rightarrow> string \<Rightarrow> bool" where
  "holds_token s ta inviteID \<longleftrightarrow> m_controller (sec_meta s) = Some (m_uid (ta_meta ta)) \<and>
     mget (sec_data s) tokenDataKey \<noteq> [] \<and> mget (m_annotations (sec_meta s)) AnnotationInviteID = inviteID"

lemma write_agent_secret_effect:
  assumes api: "agent_secret_api r secs" and lib: "lib_ok r" and tok: "token \<noteq> []"
    and run: "write_agent_secret r ta token iid w = ((res, ta'), w')"
  shows "(\<forall>k. k \<noteq> agent_secret_key ta \<longrightarrow> secs w' k = secs w k) \<and>
    (res = None \<longrightarrow> (\<exists>s. secs w' (agent_secret_key ta) = Some s \<and> holds_token s ta iid))"
proof -
  let ?d = "buildTokenSecret (m_name (ta_meta ta)) (m_ns (ta_meta ta)) token iid"
  show ?thesis
  proof (cases "set_controller_reference r (ta_meta ta) (sec_meta ?d)")
    case (Inl e)
    then show ?thesis using run by (auto simp: write_agent_secret_def)
  next
    case (Inr m)
    have m: "m = (sec_meta ?d)\<lparr>m_controller := Some (m_uid (ta_meta ta))\<rparr>" by (rule lib_owner[OF lib Inr])
    have k: "key_of m = agent_secret_key ta"
      by (simp add: m key_of_def buildTokenSecret_def new_meta_def agent_secret_key_def)
    obtain e w1 where app: "ar_apply_secret r (?d\<lparr>sec_meta := m\<rparr>) w = (e, w1)" by (metis prod.exhaust)
    have data: "has_key (sec_data ?d) tokenDataKey" "mget (sec_data ?d) tokenDataKey = token"
      "has_key (m_annotations m) AnnotationInviteID" "mget (m_annotations m) AnnotationInviteID = iid"
      by (simp_all add: buildTokenSecret_def m)
    show ?thesis
    proof (cases e)
      case None
      then obtain s' where s': "secs w1 = (secs w)(agent_secret_key ta \<mapsto> s')"
        "m_controller (sec_meta s') = Some (m_uid (ta_meta ta))"
        "mget (sec_data s') tokenDataKey = token"
        "mget (m_annotations (sec_meta s')) AnnotationInviteID = iid"
        using agent_secret_apply[OF api app] data k m by auto
      have "w' = w1" "res = None" using run Inr app None by (simp_all add: write_agent_secret_def)
      then show ?thesis using s' tok by (simp add: holds_token_def)
    next
      case (Some x)
      then have "\<forall>k. k \<noteq> agent_secret_key ta \<longrightarrow> secs w1 k = secs w k"
        using agent_secret_apply[OF api app] k by simp
      then show ?thesis using run Inr app Some by (auto simp: write_agent_secret_def)
    qed
  qed
qed

lemma ensureAgentSecret_effect:
  assumes "agent_secret_api r secs" and "lib_ok r" and "token \<noteq> []"
    and "ensureAgentSecret r ta token iid w = ((res, ta'), w')"
  shows "(\<forall>k. k \<noteq> agent_secret_key ta \<longrightarrow> secs w' k = secs w k) \<and>
    (\<forall>s. secs w (agent_secret_key ta) = Some s \<and> m_controller (sec_meta s) \<noteq> Some (m_uid (ta_meta ta)) \<longrightarrow>
       secs w' = secs w \<and> res \<noteq> None) \<and>
    (res = None \<longrightarrow> (\<exists>s. secs w' (agent_secret_key ta) = Some s \<and> holds_token s ta iid))"
proof -
  obtain got w1 where get: "ar_get_secret r (agent_secret_key ta) w = (got, w1)" by (metis prod.exhaust)
  have g: "secs w1 = secs w" "\<And>s. got = Inr s \<Longrightarrow> secs w (agent_secret_key ta) = Some s"
    "\<And>e. got = Inl e \<Longrightarrow> is_not_found e \<Longrightarrow> secs w (agent_secret_key ta) = None"
    using agent_secret_get[OF assms(1) get] by auto
  have step: "write_agent_secret r ta token iid w1 = ((res, ta'), w') \<Longrightarrow> ?thesis"
    if "secs w (agent_secret_key ta) = None \<or>
      (\<exists>s. secs w (agent_secret_key ta) = Some s \<and> m_controller (sec_meta s) = Some (m_uid (ta_meta ta)))"
    using write_agent_secret_effect[OF assms(1,2,3), of ta iid w1 res ta' w'] that g(1) by auto
  show ?thesis
  proof (cases got)
    case (Inl e)
    show ?thesis
    proof (cases "is_not_found e")
      case True
      then show ?thesis using step g(3)[OF Inl True] assms(4) get Inl by (simp add: ensureAgentSecret_def)
    next
      case False
      then show ?thesis using assms(4) get Inl g(1) by (auto simp: ensureAgentSecret_def)
    qed
  next
    case (Inr s)
    note s = g(2)[OF Inr]
    show ?thesis
    proof (cases "m_controller (sec_meta s) = Some (m_uid (ta_meta ta))")
      case True
      show ?thesis
      proof (cases "tokenSecretNeedsWrite (Some s) iid")
        case need: True
        then show ?thesis using step s True assms(4) get Inr by (simp add: ensureAgentSecret_def)
      next
        case False
        then have "holds_token s ta iid" using True by (simp add: tokenSecretNeedsWrite_def holds_token_def)
        then show ?thesis using assms(4) get Inr True False g(1) s by (auto simp: ensureAgentSecret_def Let_def)
      qed
    next
      case False
      then show ?thesis using assms(4) get Inr g(1) s by (auto simp: ensureAgentSecret_def)
    qed
  qed
qed


text \<open>A cluster whose Secrets are the world, for the witness.\<close>

definition idle_agent_reconciler :: "'w agent_reconciler" where
  "idle_agent_reconciler = \<lparr>set_status_condition = set_status_condition std_lib,
     remove_status_condition = remove_status_condition std_lib,
     find_status_condition = find_status_condition std_lib,
     add_finalizer = add_finalizer std_lib, contains_finalizer = contains_finalizer std_lib,
     remove_finalizer = remove_finalizer std_lib,
     set_controller_reference = set_controller_reference std_lib,
     ar_get_agent = (\<lambda>k w. (Inl (KubeError RNotFound ''not found''), w)),
     ar_get_tunnel = (\<lambda>k w. (Inl (KubeError RNotFound ''not found''), w)),
     ar_get_secret = (\<lambda>k w. (Inl (KubeError RNotFound ''not found''), w)),
     ar_apply_secret = (\<lambda>s w. (None, w)), ar_status_update = (\<lambda>ta w. (None, w)),
     ar_apply_owned = (\<lambda>x w. (None, w)),
     ar_get_owned = (\<lambda>kd k w. (Inl (KubeError RNotFound ''not found''), w)),
     ar_delete_owned = (\<lambda>kd k rv w. (None, w)), ar_list_agents = (\<lambda>w. (Inr [], w)),
     ar_list_indexed = (\<lambda>x w. (Inr [], w)),
     ar_get_crb = (\<lambda>k w. (Inl (KubeError RNotFound ''not found''), w)),
     ar_update_crb = (\<lambda>x w. (None, w)),
     ar_get_deployment = (\<lambda>k w. (Inl (KubeError RNotFound ''not found''), w)),
     ar_apply_deployment = (\<lambda>d w. (Inr d, w)), ar_recorder = None, ar_agentEnv = [],
     ar_quantity_eq = (=), ar_backoff_retries = 3, ar_default_retries = 4\<rparr>"

lemma idle_agent_reconciler_lib: "lib_ok idle_agent_reconciler"
  using std_lib_ok by (simp add: lib_ok_def idle_agent_reconciler_def)

definition secrets_reconciler :: "(nn \<Rightarrow> secret_obj option) agent_reconciler" where
  "secrets_reconciler = idle_agent_reconciler\<lparr>
     ar_get_secret := \<lambda>k w. (case w k of Some s \<Rightarrow> Inr s | None \<Rightarrow> Inl (KubeError RNotFound ''not found''), w),
     ar_apply_secret := \<lambda>s w. (None, w(key_of (sec_meta s) \<mapsto> s))\<rparr>"

lemma secrets_reconciler_api: "agent_secret_api secrets_reconciler (\<lambda>w. w)"
  by (auto simp: agent_secret_api_def secrets_reconciler_def split: option.splits)

lemma secrets_reconciler_lib: "lib_ok secrets_reconciler"
  using std_lib_ok by (simp add: lib_ok_def secrets_reconciler_def idle_agent_reconciler_def)

text \<open>A user's Secret under the agent's name is left alone.\<close>

definition users_secret :: secret_obj where
  "users_secret = \<lparr>sec_meta = new_meta ''n'' ''a-token'', sec_data = [(''token'', ''mine'')]\<rparr>"


end
