(* ===== verification/AgentGuards.thy ===== *)
theory AgentGuards
  imports AgentChildren
begin

text \<open>
  What the agent's writes guarantee about the cluster: pruning touches only the agent's own
  objects even while others write, the shared node-reader binding ends up with exactly the live
  agents' service accounts, and applying an unchanged Deployment writes nothing.
\<close>

section \<open>Pruning\<close>

text \<open>
  The owned objects at each moment and the deletions the API server has carried out, with the
  metadata of the object each one removed. Between two calls other writers may do anything;
  a resource version identifies one state of an object, and a delete with a version precondition
  removes the object only in that state.
\<close>

definition owned_api :: "('w, 'b) agent_reconciler_scheme \<Rightarrow> ('w \<Rightarrow> owned_kind \<Rightarrow> nn \<Rightarrow> meta option)
    \<Rightarrow> ('w \<Rightarrow> (owned_kind \<times> nn \<times> meta) list) \<Rightarrow> bool" where
  "owned_api r objs dels \<longleftrightarrow>
     (\<forall>k key w res w'. ar_get_owned r k key w = (res, w') \<longrightarrow> dels w' = dels w \<and>
        (\<forall>m. res = Inr m \<longrightarrow> objs w k key = Some m)) \<and>
     (\<forall>k key rv w res w'. ar_delete_owned r k key rv w = (res, w') \<longrightarrow> dels w' = dels w \<or>
        (\<exists>m. objs w k key = Some m \<and> m_rv m = rv \<and> dels w' = dels w @ [(k, key, m)])) \<and>
     (\<forall>k key w m v m'. objs w k key = Some m \<and> objs v k key = Some m' \<and> m_rv m = m_rv m' \<longrightarrow>
        m_controller m = m_controller m')"

text \<open>The calls that delete nothing.\<close>

definition no_deletes :: "('w, 'b) agent_reconciler_scheme \<Rightarrow> ('w \<Rightarrow> 'd) \<Rightarrow> bool" where
  "no_deletes r dels \<longleftrightarrow> (\<forall>x w. dels (snd (ar_apply_owned r x w)) = dels w) \<and>
     (\<forall>w. dels (snd (ar_list_agents r w)) = dels w) \<and>
     (\<forall>n w. dels (snd (ar_get_crb r n w)) = dels w) \<and>
     (\<forall>c w. dels (snd (ar_update_crb r c w)) = dels w)"

lemma no_deletes_run:
  assumes "no_deletes r dels"
  shows "ar_apply_owned r x w = (a, w1) \<Longrightarrow> dels w1 = dels w"
    and "ar_list_agents r w = (b, w1) \<Longrightarrow> dels w1 = dels w"
    and "ar_get_crb r n w = (c, w1) \<Longrightarrow> dels w1 = dels w"
    and "ar_update_crb r d w = (e, w1) \<Longrightarrow> dels w1 = dels w"
  using assms unfolding no_deletes_def by (metis snd_conv)+

text \<open>A step that deletes only what the agent controls.\<close>

definition prunes_own :: "towonel_agent \<Rightarrow> ('w \<Rightarrow> (owned_kind \<times> nn \<times> meta) list) \<Rightarrow> ('w \<Rightarrow> 'a \<times> 'w) \<Rightarrow> bool" where
  "prunes_own ta dels f \<longleftrightarrow> (\<forall>w res w'. f w = (res, w') \<longrightarrow>
     (\<exists>ds. dels w' = dels w @ ds \<and> (\<forall>(k, key, m) \<in> set ds. m_controller m = Some (m_uid (ta_meta ta)))))"

lemma prunes_ownD: "prunes_own ta dels f \<Longrightarrow> f w = (res, w') \<Longrightarrow>
    \<exists>ds. dels w' = dels w @ ds \<and> (\<forall>(k, key, m) \<in> set ds. m_controller m = Some (m_uid (ta_meta ta)))"
  unfolding prunes_own_def by blast

lemma prunes_own_frame:
  "(\<And>w res w'. f w = (res, w') \<Longrightarrow> dels w' = dels w) \<Longrightarrow> prunes_own ta dels f"
  unfolding prunes_own_def by (metis append_Nil2 empty_iff list.set(1))

lemma prunes_own_run_steps:
  "(\<And>f. f \<in> set fs \<Longrightarrow> prunes_own ta dels f) \<Longrightarrow> prunes_own ta dels (run_steps fs)"
proof (induction fs)
  case Nil
  show ?case by (rule prunes_own_frame) simp
next
  case (Cons f fs)
  have f: "prunes_own ta dels f" and fs: "prunes_own ta dels (run_steps fs)" using Cons by auto
  show ?case unfolding prunes_own_def
  proof (intro allI impI)
    fix w res w' assume run: "run_steps (f # fs) w = (res, w')"
    obtain e w1 where e: "f w = (e, w1)" by (metis prod.exhaust)
    obtain ds where ds: "dels w1 = dels w @ ds" "\<forall>(k, key, m) \<in> set ds. m_controller m = Some (m_uid (ta_meta ta))"
      using prunes_ownD[OF f e] by blast
    show "\<exists>ds. dels w' = dels w @ ds \<and> (\<forall>(k, key, m) \<in> set ds. m_controller m = Some (m_uid (ta_meta ta)))"
    proof (cases e)
      case None
      then have "run_steps fs w1 = (res, w')" using run e by simp
      then obtain ds' where "dels w' = dels w1 @ ds'"
        "\<forall>(k, key, m) \<in> set ds'. m_controller m = Some (m_uid (ta_meta ta))"
        using prunes_ownD[OF fs] by blast
      then show ?thesis using ds by (intro exI[of _ "ds @ ds'"]) auto
    next
      case (Some x)
      then show ?thesis using run e ds by auto
    qed
  qed
qed

lemma prunes_own_delete:
  assumes "owned_api r objs dels"
  shows "prunes_own ta dels (deleteOwnedIfExists r ta k key)"
  unfolding prunes_own_def
proof (intro allI impI)
  fix w res w' assume run: "deleteOwnedIfExists r ta k key w = (res, w')"
  obtain got w1 where get: "ar_get_owned r k key w = (got, w1)" by (metis prod.exhaust)
  have g: "dels w1 = dels w" "\<And>m. got = Inr m \<Longrightarrow> objs w k key = Some m"
    using assms get unfolding owned_api_def by blast+
  show "\<exists>ds. dels w' = dels w @ ds \<and> (\<forall>(k, key, m) \<in> set ds. m_controller m = Some (m_uid (ta_meta ta)))"
  proof (cases "\<exists>m. got = Inr m \<and> m_controller m = Some (m_uid (ta_meta ta))")
    case False
    then have "w' = w1" using run get by (auto simp: deleteOwnedIfExists_def split: sum.splits if_splits)
    then show ?thesis using g by simp
  next
    case True
    then obtain m where m: "got = Inr m" "m_controller m = Some (m_uid (ta_meta ta))" by blast
    obtain e w2 where del: "ar_delete_owned r k key (m_rv m) w1 = (e, w2)" by (metis prod.exhaust)
    have w2: "w' = w2" using run get m del
      by (auto simp: deleteOwnedIfExists_def split: option.splits if_splits)
    consider "dels w2 = dels w1"
      | m' where "objs w1 k key = Some m'" "m_rv m' = m_rv m" "dels w2 = dels w1 @ [(k, key, m')]"
      using assms del unfolding owned_api_def by blast
    then show ?thesis
    proof cases
      case 2
      then have "m_controller m' = m_controller m"
        using assms g(2)[OF m(1)] unfolding owned_api_def by blast
      then show ?thesis using 2 m g(1) w2 by (intro exI[of _ "[(k, key, m')]"]) simp
    qed (use g w2 in simp)
  qed
qed

lemma applyOwned_frame:
  assumes "no_deletes r dels" and "applyOwned r ta x w = (res, w')"
  shows "dels w' = dels w"
  using assms(2) no_deletes_run(1)[OF assms(1)]
  by (auto simp: applyOwned_def Let_def split: sum.splits prod.splits option.splits)

lemma retry_frame:
  assumes "\<And>w res w'. f w = (res, w') \<Longrightarrow> obs w' = obs w"
  shows "retry_on_conflict n f w = (res, w') \<Longrightarrow> obs w' = obs w"
proof (induction n arbitrary: w)
  case (Suc n)
  obtain a w1 where a: "f w = (a, w1)" by (metis prod.exhaust)
  show ?case using Suc.prems Suc.IH[of w1] assms[OF a] a by (auto split: sum.splits if_splits)
qed (simp add: assms)

lemma nodeReader_frame:
  assumes "no_deletes r dels" and "reconcileNodeReaderSubjects r w = (res, w')"
  shows "dels w' = dels w"
proof -
  have p: "patch_node_reader r d v = (a, v') \<Longrightarrow> dels v' = dels v" for d v a v'
    using no_deletes_run(3,4)[OF assms(1)]
    by (auto simp: patch_node_reader_def split: sum.splits prod.splits option.splits if_splits)
  obtain l w1 where l: "ar_list_agents r w = (l, w1)" by (metis prod.exhaust)
  have w1: "dels w1 = dels w" by (rule no_deletes_run(2)[OF assms(1) l])
  have rt: "retry_on_conflict n (patch_node_reader r d) v = (a, v') \<Longrightarrow> dels v' = dels v" for n d v a v'
    by (rule retry_frame[where obs = dels]) (rule p)
  show ?thesis
    using assms(2) l w1 rt
    by (auto simp: reconcileNodeReaderSubjects_def computeNodeReaderSubjects_def
        split: sum.splits prod.splits)
qed

text \<open>C25: Whatever other writers do between the calls, every object \<open>ensureConnectivity\<close> deletes
  was controlled by this agent in the very state in which it was deleted; a foreign object that
  shares the name survives. With a valid plan nothing is deleted at all.\<close>

theorem ensureConnectivity_prunes_own:
  assumes "owned_api r objs dels" and "no_deletes r dels"
    and "ensureConnectivity r ta p w = (res, w')"
  shows "\<exists>ds. dels w' = dels w @ ds \<and>
    (\<forall>(k, key, m) \<in> set ds. m_controller m = Some (m_uid (ta_meta ta))) \<and>
    (pl_autodiscover p \<longrightarrow> ds = [])"
proof -
  obtain e w1 where steps: "run_steps (connectivity_steps r ta p) w = (e, w1)" by (metis prod.exhaust)
  have w': "dels w' = dels w1"
    using assms(3) steps nodeReader_frame[OF assms(2)]
    by (auto simp: ensureConnectivity_def split: option.splits)
  have ap: "prunes_own ta dels (applyOwned r ta x)" for x
    by (rule prunes_own_frame) (rule applyOwned_frame[OF assms(2)])
  have pr: "prunes_own ta dels (run_steps (connectivity_steps r ta p))"
    by (rule prunes_own_run_steps)
       (auto simp: connectivity_steps_def ap prunes_own_delete[OF assms(1)] split: if_splits)
  then obtain ds where ds: "dels w1 = dels w @ ds"
    "\<forall>(k, key, m) \<in> set ds. m_controller m = Some (m_uid (ta_meta ta))"
    using prunes_ownD[OF pr steps] by blast
  have "dels w1 = dels w" if "pl_autodiscover p"
    using steps that applyOwned_frame[OF assms(2)]
    by (auto simp: connectivity_steps_def split: option.splits prod.splits)
  then show ?thesis using ds w' by auto
qed

text \<open>The witness: objects are named by their version, which is also their controller's uid.\<close>

type_synonym owned_world = "(owned_kind \<times> nn \<rightharpoonup> string) \<times> (owned_kind \<times> nn \<times> meta) list"

definition owned_at :: "owned_world \<Rightarrow> owned_kind \<Rightarrow> nn \<Rightarrow> meta option" where
  "owned_at w k key = map_option (\<lambda>v. (new_meta (fst key) (snd key))\<lparr>m_rv := v, m_controller := Some v\<rparr>)
     (fst w (k, key))"

definition owned_reconciler :: "owned_world agent_reconciler" where
  "owned_reconciler = idle_agent_reconciler\<lparr>
     ar_get_owned := \<lambda>k key w. (case owned_at w k key of Some m \<Rightarrow> Inr m
        | None \<Rightarrow> Inl (KubeError RNotFound ''not found''), w),
     ar_delete_owned := \<lambda>k key rv w. (case owned_at w k key of
        None \<Rightarrow> (Some (KubeError RNotFound ''not found''), w)
      | Some m \<Rightarrow> if m_rv m = rv then (None, ((fst w)((k, key) := None), snd w @ [(k, key, m)]))
                  else (Some (KubeError RConflict ''changed''), w))\<rparr>"

lemma owned_reconciler_api: "owned_api owned_reconciler owned_at snd"
  by (auto simp: owned_api_def owned_reconciler_def owned_at_def split: option.splits if_splits)

lemma owned_reconciler_no_deletes: "no_deletes owned_reconciler snd"
  by (simp add: no_deletes_def owned_reconciler_def idle_agent_reconciler_def)

theorem ensureConnectivity_prunes_own_witness:
  "let w = ([(KService, (''n'', ''a-iroh'')) \<mapsto> ''u1'', (KRole, (''n'', ''a-iroh-svc-reader'')) \<mapsto> ''u2''], []);
       ta = (new_agent ''n'' ''a'')\<lparr>ta_meta := (new_meta ''n'' ''a'')\<lparr>m_uid := ''u1''\<rparr>\<rparr>;
       w' = snd (ensureConnectivity owned_reconciler ta (planConnectivity ta) w)
   in \<forall>d \<in> set (snd w'). m_controller (snd (snd d)) = Some ''u1''"
proof -
  let ?w = "([(KService, (''n'', ''a-iroh'')) \<mapsto> ''u1'', (KRole, (''n'', ''a-iroh-svc-reader'')) \<mapsto> ''u2''], []) :: owned_world"
  let ?ta = "(new_agent ''n'' ''a'')\<lparr>ta_meta := (new_meta ''n'' ''a'')\<lparr>m_uid := ''u1''\<rparr>\<rparr>"
  obtain res w' where run: "ensureConnectivity owned_reconciler ?ta (planConnectivity ?ta) ?w = (res, w')"
    by (metis prod.exhaust)
  show ?thesis
    using ensureConnectivity_prunes_own[OF owned_reconciler_api owned_reconciler_no_deletes run] run
    by (auto simp: Let_def)
qed

section \<open>The shared node-reader binding\<close>

text \<open>
  The chart's binding and the agents as the API server has them. A read returns the current state;
  an accepted update stores the subjects it carries. A refused update says nothing: the binding may
  have been changed by someone else, which is what a conflict reports.
\<close>

definition crb_api :: "('w, 'b) agent_reconciler_scheme \<Rightarrow> ('w \<Rightarrow> cluster_role_binding option)
    \<Rightarrow> ('w \<Rightarrow> towonel_agent list) \<Rightarrow> bool" where
  "crb_api r crb agents \<longleftrightarrow>
     (\<forall>w res w'. ar_list_agents r w = (res, w') \<longrightarrow> agents w' = agents w \<and>
        (\<forall>items. res = Inr items \<longrightarrow> items = agents w)) \<and>
     (\<forall>w res w'. ar_get_crb r nodeReaderName w = (res, w') \<longrightarrow> agents w' = agents w \<and> crb w' = crb w \<and>
        (\<forall>c. res = Inr c \<longrightarrow> crb w = Some c) \<and>
        (\<forall>e. res = Inl e \<and> is_not_found e \<longrightarrow> crb w = None)) \<and>
     (\<forall>c w res w'. ar_update_crb r c w = (res, w') \<longrightarrow> agents w' = agents w \<and>
        (res = None \<longrightarrow> (\<exists>c'. crb w' = Some c' \<and> crb_subjects c' = crb_subjects c)))"

lemmas crb_list = crb_api_def[THEN iffD1, THEN conjunct1, rule_format]
lemmas crb_get = crb_api_def[THEN iffD1, THEN conjunct2, THEN conjunct1, rule_format]
lemmas crb_update = crb_api_def[THEN iffD1, THEN conjunct2, THEN conjunct2, rule_format]

lemma patch_node_reader_effect:
  assumes "crb_api r crb agents" and "patch_node_reader r d w = (res, w')"
  shows "agents w' = agents w \<and> (\<forall>missing. res = Inr missing \<longrightarrow>
    (if missing then crb w' = None else \<exists>c. crb w' = Some c \<and> crb_subjects c = d))"
proof -
  obtain got w1 where get: "ar_get_crb r nodeReaderName w = (got, w1)" by (metis prod.exhaust)
  have g: "agents w1 = agents w" "crb w1 = crb w" "\<And>c. got = Inr c \<Longrightarrow> crb w = Some c"
    "\<And>e. got = Inl e \<Longrightarrow> is_not_found e \<Longrightarrow> crb w = None"
    using crb_get[OF assms(1) get] by simp_all
  have u: "ar_update_crb r c w1 = (e, w2) \<Longrightarrow> agents w2 = agents w1 \<and>
      (e = None \<longrightarrow> (\<exists>c'. crb w2 = Some c' \<and> crb_subjects c' = crb_subjects c))" for c e w2
    using crb_update[OF assms(1)] by metis
  show ?thesis
  proof (cases got)
    case (Inl e)
    then show ?thesis using assms(2) get g by (auto simp: patch_node_reader_def split: if_splits)
  next
    case (Inr c)
    show ?thesis
    proof (cases "crb_subjects c = d")
      case True
      then show ?thesis using assms(2) get g Inr by (auto simp: patch_node_reader_def)
    next
      case False
      obtain e w2 where up: "ar_update_crb r (c\<lparr>crb_subjects := d\<rparr>) w1 = (e, w2)" by (metis prod.exhaust)
      show ?thesis using assms(2) get g Inr False up u[OF up]
        by (cases e) (auto simp: patch_node_reader_def)
    qed
  qed
qed

lemma retry_effect:
  assumes "\<And>w res w'. f w = (res, w') \<Longrightarrow> obs w' = obs w \<and> (\<forall>a. res = Inr a \<longrightarrow> P a w')"
  shows "retry_on_conflict n f w = (res, w') \<Longrightarrow> obs w' = obs w \<and> (\<forall>a. res = Inr a \<longrightarrow> P a w')"
proof (induction n arbitrary: w)
  case 0
  then show ?case using assms by simp
next
  case (Suc n)
  obtain a w1 where a: "f w = (a, w1)" by (metis prod.exhaust)
  show ?case
  proof (cases "\<exists>e. a = Inl e \<and> is_conflict e")
    case True
    then have "retry_on_conflict n f w1 = (res, w')" using Suc.prems a by auto
    then show ?thesis using Suc.IH assms[OF a] by metis
  next
    case False
    then have "a = res" "w1 = w'" using Suc.prems a by (auto split: sum.splits)
    then show ?thesis using assms[OF a] by simp
  qed
qed

lemma set_node_reader_subjects:
  "set (node_reader_subjects items) =
     {agent_subject a | a. a \<in> set items \<and> \<not> m_deleting (ta_meta a) \<and> pl_autodiscover (planConnectivity a)}"
  by (auto simp: node_reader_subjects_def)

lemma nodeReader_effect:
  assumes "crb_api r crb agents" and "reconcileNodeReaderSubjects r w = (Inr missing, w')"
  shows "agents w' = agents w \<and> (if missing then crb w' = None
    else \<exists>c. crb w' = Some c \<and> crb_subjects c = node_reader_subjects (agents w))"
proof -
  obtain l w1 where l: "ar_list_agents r w = (l, w1)" by (metis prod.exhaust)
  have w1: "agents w1 = agents w" "\<And>items. l = Inr items \<Longrightarrow> items = agents w"
    using crb_list[OF assms(1) l] by simp_all
  obtain items where items: "l = Inr items" using assms(2) l
    unfolding reconcileNodeReaderSubjects_def computeNodeReaderSubjects_def by (cases l) auto
  have run: "retry_on_conflict (ar_default_retries r) (patch_node_reader r (node_reader_subjects (agents w))) w1 =
      (Inr missing, w')"
    using assms(2) l items w1(2)[OF items]
    by (simp add: reconcileNodeReaderSubjects_def computeNodeReaderSubjects_def split: sum.splits prod.splits)
  show ?thesis
    using retry_effect[where obs = agents and P = "\<lambda>missing w'. if missing then crb w' = None
        else \<exists>c. crb w' = Some c \<and> crb_subjects c = node_reader_subjects (agents w)",
        OF patch_node_reader_effect[OF assms(1)] run] w1 by auto
qed

text \<open>C24: When \<open>reconcileNodeReaderSubjects\<close> succeeds, the shared binding grants node access to
  the service accounts of exactly the agents that are alive and have a valid autodiscovery plan,
  in a deterministic order, whatever it held before and however often a concurrent writer made an
  update conflict; it reports the chart's shell as missing exactly when there is no binding.\<close>

theorem reconcileNodeReaderSubjects_exact:
  assumes "crb_api r crb agents" and "reconcileNodeReaderSubjects r w = (Inr missing, w')"
  shows "(missing \<longleftrightarrow> crb w' = None) \<and> (\<forall>c. crb w' = Some c \<longrightarrow>
    set (crb_subjects c) = {agent_subject a | a. a \<in> set (agents w) \<and> \<not> m_deleting (ta_meta a) \<and>
      cn_autodiscover (ag_connectivity (ta_spec a)) \<and> np_create (cn_nodePort (ag_connectivity (ta_spec a))) \<and>
      cn_irohPort (ag_connectivity (ta_spec a)) \<noteq> 0} \<and>
    sorted (map (\<lambda>s. [sub_namespace s, sub_name s]) (crb_subjects c)))"
proof (cases missing)
  case True
  then show ?thesis using nodeReader_effect[OF assms] by simp
next
  case False
  then obtain c where c: "crb w' = Some c" "crb_subjects c = node_reader_subjects (agents w)"
    using nodeReader_effect[OF assms] by auto
  have "sorted (map (\<lambda>s. [sub_namespace s, sub_name s]) (node_reader_subjects (agents w)))"
    unfolding node_reader_subjects_def by (rule sorted_sort_key)
  moreover have "set (node_reader_subjects (agents w)) = {agent_subject a | a. a \<in> set (agents w) \<and>
      \<not> m_deleting (ta_meta a) \<and> cn_autodiscover (ag_connectivity (ta_spec a)) \<and>
      np_create (cn_nodePort (ag_connectivity (ta_spec a))) \<and> cn_irohPort (ag_connectivity (ta_spec a)) \<noteq> 0}"
    unfolding set_node_reader_subjects planConnectivity_fields ..
  ultimately show ?thesis using c False by simp
qed

text \<open>The witness: one stale subject in the binding, and an update that conflicts once.\<close>

type_synonym crb_world = "nat \<times> rbac_subject list \<times> towonel_agent list"

definition crb_of :: "rbac_subject list \<Rightarrow> cluster_role_binding" where
  "crb_of ss = \<lparr>crb_meta = new_meta [] nodeReaderName, crb_subjects = ss\<rparr>"

definition crb_reconciler :: "crb_world agent_reconciler" where
  "crb_reconciler = idle_agent_reconciler\<lparr>
     ar_list_agents := \<lambda>w. (Inr (snd (snd w)), w),
     ar_get_crb := \<lambda>n w. (Inr (crb_of (fst (snd w))), w),
     ar_update_crb := \<lambda>c w. (case w of (0, ss, as) \<Rightarrow> (None, (0, crb_subjects c, as))
       | (Suc n, ss, as) \<Rightarrow> (Some (KubeError RConflict ''conflict''), (n, ss, as)))\<rparr>"

lemma crb_reconciler_api: "crb_api crb_reconciler (\<lambda>w. Some (crb_of (fst (snd w)))) (\<lambda>w. snd (snd w))"
  by (auto simp: crb_api_def crb_reconciler_def crb_of_def split: nat.splits)

theorem reconcileNodeReaderSubjects_exact_witness:
  "let w' = snd (reconcileNodeReaderSubjects crb_reconciler (1, [agent_subject (new_agent ''n'' ''gone'')], [probe_agent]))
   in agent_subject probe_agent \<in> set (fst (snd w'))"
proof -
  let ?w = "(1, [agent_subject (new_agent ''n'' ''gone'')], [probe_agent]) :: crb_world"
  have "\<exists>w'. reconcileNodeReaderSubjects crb_reconciler ?w = (Inr False, w')"
    by (simp add: reconcileNodeReaderSubjects_def computeNodeReaderSubjects_def crb_reconciler_def
        idle_agent_reconciler_def patch_node_reader_def node_reader_subjects_def crb_of_def
        agent_subject_def new_agent_def agentSAName_def new_meta_def numeral_eq_Suc probe_agent_def
        planConnectivity_fields)
  then obtain w' where run: "reconcileNodeReaderSubjects crb_reconciler ?w = (Inr False, w')" by blast
  have "cn_autodiscover (ag_connectivity (ta_spec probe_agent))"
    "np_create (cn_nodePort (ag_connectivity (ta_spec probe_agent)))"
    "cn_irohPort (ag_connectivity (ta_spec probe_agent)) \<noteq> 0" "\<not> m_deleting (ta_meta probe_agent)"
    by (simp_all add: probe_agent_def new_meta_def)
  then show ?thesis
    using reconcileNodeReaderSubjects_exact[OF crb_reconciler_api run] run
    by (auto simp: crb_of_def Let_def)
qed

section \<open>The Deployment settles\<close>

text \<open>An object the server stores keeps every field that was applied to it.\<close>

definition keeps_applied :: "deployment \<Rightarrow> deployment \<Rightarrow> bool" where
  "keeps_applied d s \<longleftrightarrow> dp_replicas s = dp_replicas d \<and>
     (\<forall>k. has_key (pt_annotations (dp_template d)) k \<longrightarrow>
        mget (pt_annotations (dp_template s)) k = mget (pt_annotations (dp_template d)) k) \<and>
     pt_nodeSelector (dp_template s) = pt_nodeSelector (dp_template d) \<and>
     pt_tolerations (dp_template s) = pt_tolerations (dp_template d) \<and>
     pt_affinity (dp_template s) = pt_affinity (dp_template d) \<and>
     pt_securityContext (dp_template s) = pt_securityContext (dp_template d) \<and>
     list_all2 (\<lambda>c c'. ct_resources c' = ct_resources c \<and> ct_securityContext c' = ct_securityContext c)
       (pt_containers (dp_template d)) (pt_containers (dp_template s))"

definition deployment_api :: "('w, 'b) agent_reconciler_scheme \<Rightarrow> ('w \<Rightarrow> nn \<Rightarrow> deployment option) \<Rightarrow> bool" where
  "deployment_api r deps \<longleftrightarrow>
     (\<forall>k w res w'. ar_get_deployment r k w = (res, w') \<longrightarrow> deps w' = deps w \<and>
        (\<forall>d. res = Inr d \<longrightarrow> deps w k = Some d) \<and>
        (\<forall>e. res = Inl e \<and> is_not_found e \<longrightarrow> deps w k = None)) \<and>
     (\<forall>d w res w'. ar_apply_deployment r d w = (res, w') \<longrightarrow>
        (\<forall>a. res = Inr a \<longrightarrow> (\<exists>s. deps w' = (deps w)(key_of (dp_meta d) \<mapsto> s) \<and> keeps_applied d s)))"

lemmas deployment_get = deployment_api_def[THEN iffD1, THEN conjunct1, rule_format]
lemmas deployment_apply = deployment_api_def[THEN iffD1, THEN conjunct2, rule_format]

lemma keeps_applied_settled:
  assumes "keeps_applied (buildDeployment ta cfg) s" and "\<And>x. qeq x x"
  shows "\<not> deploymentNeedsWrite qeq s ((buildDeployment ta cfg)\<lparr>dp_meta := m\<rparr>)"
proof -
  let ?d = "buildDeployment ta cfg"
  obtain c where c: "pt_containers (dp_template ?d) = [c]" by (simp add: buildDeployment_def Let_def)
  obtain c' where c': "pt_containers (dp_template s) = [c']" "ct_resources c' = ct_resources c"
    "ct_securityContext c' = ct_securityContext c"
    using assms(1) c by (auto simp: keeps_applied_def list_all2_Cons1)
  have h: "has_key (pt_annotations (dp_template ?d)) AnnotationConfigHash"
    by (simp add: buildDeployment_def Let_def)
  have k: "dp_replicas s = dp_replicas ?d" "pt_nodeSelector (dp_template s) = pt_nodeSelector (dp_template ?d)"
    "pt_tolerations (dp_template s) = pt_tolerations (dp_template ?d)"
    "pt_affinity (dp_template s) = pt_affinity (dp_template ?d)"
    "pt_securityContext (dp_template s) = pt_securityContext (dp_template ?d)"
    "mget (pt_annotations (dp_template s)) AnnotationConfigHash =
       mget (pt_annotations (dp_template ?d)) AnnotationConfigHash"
    using assms(1) h unfolding keeps_applied_def by blast+
  show ?thesis
    using c c' k assms(2) by (simp add: deploymentNeedsWrite_def Let_def resources_equal_def map_equal_refl)
qed

lemma ensureDeployment_effect:
  assumes api: "deployment_api r deps" and lib: "lib_ok r" and refl: "\<And>x. ar_quantity_eq r x x"
    and m: "set_controller_reference r (ta_meta ta) (dp_meta (buildDeployment ta cfg)) = Inr m"
    and run: "ensureDeployment r ta cfg w = (Inr d, w')"
  shows "\<exists>s. deps w' (key_of m) = Some s \<and>
    \<not> deploymentNeedsWrite (ar_quantity_eq r) s ((buildDeployment ta cfg)\<lparr>dp_meta := m\<rparr>)"
proof -
  let ?d = "(buildDeployment ta cfg)\<lparr>dp_meta := m\<rparr>"
  obtain got w1 where get: "ar_get_deployment r (key_of m) w = (got, w1)" by (metis prod.exhaust)
  have g: "deps w1 = deps w" "\<And>d. got = Inr d \<Longrightarrow> deps w (key_of m) = Some d"
    using deployment_get[OF api get] by simp_all
  show ?thesis
  proof (cases "\<exists>cur. got = Inr cur \<and> \<not> deploymentNeedsWrite (ar_quantity_eq r) cur ?d")
    case True
    then obtain cur where cur: "got = Inr cur" "\<not> deploymentNeedsWrite (ar_quantity_eq r) cur ?d" by blast
    then have "w' = w1" using run m get by (simp add: ensureDeployment_def Let_def)
    then show ?thesis using cur g by auto
  next
    case False
    obtain app w2 where app: "ar_apply_deployment r ?d w1 = (app, w2)" by (metis prod.exhaust)
    obtain got' w3 where get': "ar_get_deployment r (key_of m) w2 = (got', w3)" by (metis prod.exhaust)
    obtain a where a: "app = Inr a" "w' = w3"
      using run m get app get' False
      by (auto simp: ensureDeployment_def Let_def split: sum.splits if_splits)
    obtain s where s: "deps w2 = (deps w1)(key_of (dp_meta ?d) \<mapsto> s)" "keeps_applied ?d s"
      using deployment_apply[OF api app a(1)] by blast
    have "keeps_applied (buildDeployment ta cfg) s" using s(2) by (simp add: keeps_applied_def)
    then have "\<not> deploymentNeedsWrite (ar_quantity_eq r) s ?d" by (rule keeps_applied_settled) (rule refl)
    moreover have "deps w3 = deps w2" using deployment_get[OF api get'] by simp
    ultimately show ?thesis using s(1) a(2) by simp
  qed
qed


definition deployments_reconciler :: "(nn \<Rightarrow> deployment option) agent_reconciler" where
  "deployments_reconciler = idle_agent_reconciler\<lparr>
     ar_get_deployment := \<lambda>k w. (case w k of Some d \<Rightarrow> Inr d | None \<Rightarrow> Inl (KubeError RNotFound ''not found''), w),
     ar_apply_deployment := \<lambda>d w. (Inr d, w(key_of (dp_meta d) \<mapsto> d))\<rparr>"

lemma deployments_reconciler_api: "deployment_api deployments_reconciler (\<lambda>w. w)"
  by (auto simp: deployment_api_def deployments_reconciler_def keeps_applied_def list_all2_refl
      split: option.splits)

lemma deployments_reconciler_ok: "lib_ok deployments_reconciler" "ar_quantity_eq deployments_reconciler x x"
  using std_lib_ok by (simp_all add: lib_ok_def deployments_reconciler_def idle_agent_reconciler_def)


end
