(* ===== verification/AgentController.thy ===== *)
theory AgentController
  imports AgentGuards
begin

text \<open>
  \<open>TowonelAgentReconciler.Reconcile\<close> (\<open>towonelagent_controller.go\<close>): one attempt of the retried
  closure, the retry around it and the watch on tunnels. Logging has no counterpart.
\<close>

section \<open>Rechecks\<close>

definition conflict_error :: "string \<Rightarrow> string \<Rightarrow> string \<Rightarrow> goerr" where
  "conflict_error resource name what = KubeError RConflict
     (''Operation cannot be fulfilled on '' @ resource @ '' '' @ quote name @ '': '' @ what)"

definition checkAgentUnchanged ::
  "('w, 'b) agent_reconciler_scheme \<Rightarrow> towonel_agent \<Rightarrow> ('w, goerr option) op" where
  "checkAgentUnchanged r ta w =
     (case ar_get_agent r (key_of (ta_meta ta)) w of
        (Inl e, w1) \<Rightarrow> (Some (wrapf (''recheck agent '' @ nn_str (key_of (ta_meta ta)) @ '': '') e), w1)
      | (Inr cur, w1) \<Rightarrow>
          if m_uid (ta_meta cur) \<noteq> m_uid (ta_meta ta) \<or> m_generation (ta_meta cur) \<noteq> m_generation (ta_meta ta)
          then (Some (conflict_error ''towonelagents.towonel.io'' (m_name (ta_meta ta))
                  ''agent changed during reconcile; recomputing''), w1)
          else (None, w1))"

definition checkTunnelUnchanged ::
  "('w, 'b) agent_reconciler_scheme \<Rightarrow> towonel_tunnel \<Rightarrow> ('w, goerr option) op" where
  "checkTunnelUnchanged r tt w =
     (case ar_get_tunnel r (key_of (tt_meta tt)) w of
        (Inl e, w1) \<Rightarrow> (Some (wrapf (''recheck tunnel '' @ nn_str (key_of (tt_meta tt)) @ '': '') e), w1)
      | (Inr cur, w1) \<Rightarrow>
          if m_rv (tt_meta cur) \<noteq> m_rv (tt_meta tt)
          then (Some (conflict_error ''towoneltunnels.towonel.io'' (m_name (tt_meta tt))
                  ''tunnel changed during reconcile; recomputing''), w1)
          else (None, w1))"

section \<open>One attempt\<close>

datatype agent_outcome = AgentMissing | AgentDone int

text \<open>Leaving early: status, then the waiting delay.\<close>

definition park_agent ::
  "('w, 'b) agent_reconciler_scheme \<Rightarrow> towonel_agent \<Rightarrow> agent_status \<Rightarrow> int \<Rightarrow> ('w, goerr + agent_outcome) op"
  where
  "park_agent r ta orig delay w = (case writeStatus_agent r ta orig w of
     (Some e, w1) \<Rightarrow> (Inl e, w1) | (None, w1) \<Rightarrow> (Inr (AgentDone delay), w1))"

definition fail_agent ::
  "('w, 'b) agent_reconciler_scheme \<Rightarrow> towonel_agent \<Rightarrow> agent_status \<Rightarrow> goerr \<Rightarrow> ('w, goerr + agent_outcome) op"
  where
  "fail_agent r ta orig err w = (case failStatus r ta orig err w of (e, w1) \<Rightarrow> (Inl e, w1))"

definition connectivity_events ::
  "('w, 'b) agent_reconciler_scheme \<Rightarrow> towonel_agent \<Rightarrow> connectivity_plan \<Rightarrow> bool \<Rightarrow> 'w \<Rightarrow> 'w" where
  "connectivity_events r ta plan shellMissing w =
     (let w1 = (if pl_skipped plan
            then agent_event r ta EvWarning ReasonConnectivitySkipped (pl_skipReason plan) w else w);
          w2 = (if pl_portIgnored plan
            then agent_event r ta EvNormal ReasonPortIgnored
              ''nodePort.port ignored: nodePort.create is false'' w1 else w1)
      in if shellMissing \<and> pl_autodiscover plan
         then agent_event r ta EvWarning ReasonNodeRBACShellMissing
           ''chart node-RBAC shell missing; enable agentNodeRBAC.create'' w2 else w2)"

text \<open>From the rendered configuration to the end.\<close>

definition deploy_agent ::
  "('w, 'b) agent_reconciler_scheme \<Rightarrow> towonel_agent \<Rightarrow> agent_status \<Rightarrow> towonel_tunnel \<Rightarrow> ('w, goerr + agent_outcome) op"
  where
  "deploy_agent r ta orig tunnel w =
     (let cfg = withExtraEnv (renderConfig ta (st_portAllocations (tt_status tunnel)) (st_inviteID (tt_status tunnel)))
            ta (ar_agentEnv r);
          w0 = (if ac_ignoredEnv cfg \<noteq> []
            then agent_event r ta EvWarning ReasonEnvIgnored
              (''--agent-env entries ignored (operator-managed names): '' @ join '', '' (ac_ignoredEnv cfg)) w
            else w)
      in case checkAgentUnchanged r ta w0 of
           (Some e, w1) \<Rightarrow> (Inl e, w1)
         | (None, w1) \<Rightarrow>
             (case checkTunnelUnchanged r tunnel w1 of
                (Some e, w2) \<Rightarrow> (Inl e, w2)
              | (None, w2) \<Rightarrow>
                  (case ensureDeployment r ta cfg w2 of
                     (Inl e, w3) \<Rightarrow> fail_agent r ta orig e w3
                   | (Inr dep, w3) \<Rightarrow>
                       park_agent r (rollupAgentStatus r
                           (setAgentCond r CondConfigRendered CTrue ReasonRendered ''secret and deployment rendered'' ta)
                           cfg (Some dep)) orig 0 w3)))"

text \<open>From the token on.\<close>

definition render_agent ::
  "('w, 'b) agent_reconciler_scheme \<Rightarrow> towonel_agent \<Rightarrow> agent_status \<Rightarrow> towonel_tunnel \<Rightarrow> string
     \<Rightarrow> ('w, goerr + agent_outcome) op" where
  "render_agent r ta orig tunnel token w =
     (let ((serr, ta1), w1) = ensureAgentSecret r ta token (st_inviteID (tt_status tunnel)) w in
      case serr of
        Some e \<Rightarrow>
          if \<not> errors_is e ErrSecretClash then fail_agent r ta1 orig e w1
          else park_agent r (set_agent_phase ''Pending''
                 (setAgentCond r CondConfigRendered CFalse ReasonSecretClash (err_text e) ta1)) orig waitingRequeue
               (agent_event r ta1 EvWarning ReasonSecretClash (err_text e) w1)
      | None \<Rightarrow>
          let plan = planConnectivity ta1 in
          (case ensureConnectivity r ta1 plan w1 of
             (Inl e, w2) \<Rightarrow> fail_agent r ta1 orig e w2
           | (Inr shellMissing, w2) \<Rightarrow>
               let ta2 = setConnectivityCond r ta1 plan (connectivityRequested ta1) shellMissing in
               deploy_agent r ta2 orig tunnel (connectivity_events r ta2 plan shellMissing w2)))"

definition reconcile_agent ::
  "('w, 'b) agent_reconciler_scheme \<Rightarrow> towonel_agent \<Rightarrow> ('w, goerr + agent_outcome) op" where
  "reconcile_agent r ta w =
     (case readTunnelToken r ta w of
        (Inl e, w1) \<Rightarrow> (Inl e, w1)
      | (Inr (Gate tun reason msg), w1) \<Rightarrow>
          park_agent r (markAgentWaiting (setAgentCond r CondTunnelReady CFalse reason msg ta))
            (ta_status ta) waitingRequeue w1
      | (Inr (Token tunnel token), w1) \<Rightarrow>
          render_agent r (setAgentCond r CondTunnelReady CTrue ReasonReady ''tunnel token available'' ta)
            (ta_status ta) tunnel token w1)"

definition agent_attempt ::
  "('w, 'b) agent_reconciler_scheme \<Rightarrow> nn \<Rightarrow> ('w, goerr + agent_outcome) op" where
  "agent_attempt r req w =
     (case ar_get_agent r req w of
        (Inl e, w1) \<Rightarrow> (if is_not_found e then (Inr AgentMissing, w1) else (Inl e, w1))
      | (Inr ta, w1) \<Rightarrow> if m_deleting (ta_meta ta) then (Inr (AgentDone 0), w1) else reconcile_agent r ta w1)"

definition Reconcile_agent ::
  "('w, 'b) agent_reconciler_scheme \<Rightarrow> nn \<Rightarrow> ('w, reconcile_result) op" where
  "Reconcile_agent r req w =
     (case retry_on_conflict (ar_backoff_retries r) (agent_attempt r req) w of
        (Inl e, w1) \<Rightarrow> (Inl e, w1)
      | (Inr AgentMissing, w1) \<Rightarrow>
          (case reconcileNodeReaderSubjects r w1 of
             (Inl e, w2) \<Rightarrow> (Inl e, w2) | (Inr _, w2) \<Rightarrow> (Inr 0, w2))
      | (Inr (AgentDone delay), w1) \<Rightarrow> (Inr delay, w1))"

text \<open>The watch on tunnels; a failed list enqueues nothing.\<close>

definition agentsForTunnel ::
  "('w, 'b) agent_reconciler_scheme \<Rightarrow> towonel_tunnel \<Rightarrow> ('w, nn list) op" where
  "agentsForTunnel r tt w =
     (case ar_list_indexed r (nn_str (key_of (tt_meta tt))) w of
        (Inl e, w1) \<Rightarrow> ([], w1)
      | (Inr items, w1) \<Rightarrow> (map (\<lambda>a. key_of (ta_meta a)) items, w1))"

section \<open>Frames\<close>

text \<open>Everything but the writes of Secrets, Deployments and statuses leaves an observation alone.\<close>

definition agent_frame :: "('w, 'b) agent_reconciler_scheme \<Rightarrow> ('w \<Rightarrow> 'o) \<Rightarrow> bool" where
  "agent_frame r obs \<longleftrightarrow>
     (\<forall>k w. obs (snd (ar_get_agent r k w)) = obs w) \<and> (\<forall>k w. obs (snd (ar_get_tunnel r k w)) = obs w) \<and>
     (\<forall>k w. obs (snd (ar_get_secret r k w)) = obs w) \<and> (\<forall>x w. obs (snd (ar_apply_owned r x w)) = obs w) \<and>
     (\<forall>k n w. obs (snd (ar_get_owned r k n w)) = obs w) \<and>
     (\<forall>k n v w. obs (snd (ar_delete_owned r k n v w)) = obs w) \<and>
     (\<forall>w. obs (snd (ar_list_agents r w)) = obs w) \<and> (\<forall>n w. obs (snd (ar_get_crb r n w)) = obs w) \<and>
     (\<forall>c w. obs (snd (ar_update_crb r c w)) = obs w) \<and> (\<forall>k w. obs (snd (ar_get_deployment r k w)) = obs w) \<and>
     (\<forall>rec e w. ar_recorder r = Some rec \<longrightarrow> obs (rec e w) = obs w)"

lemma agent_frame_run:
  assumes "agent_frame r obs"
  shows "ar_get_agent r k w = (x1, w1) \<Longrightarrow> obs w1 = obs w"
    and "ar_get_tunnel r k w = (x2, w1) \<Longrightarrow> obs w1 = obs w"
    and "ar_get_secret r k w = (x3, w1) \<Longrightarrow> obs w1 = obs w"
    and "ar_get_owned r kd k w = (x4, w1) \<Longrightarrow> obs w1 = obs w"
    and "ar_delete_owned r kd k v w = (x5, w1) \<Longrightarrow> obs w1 = obs w"
    and "ar_get_deployment r k w = (x6, w1) \<Longrightarrow> obs w1 = obs w"
    and "ar_recorder r = Some rec \<Longrightarrow> obs (rec e w) = obs w"
  using assms unfolding agent_frame_def by (metis snd_conv)+

lemma agent_frame_no_deletes: "agent_frame r obs \<Longrightarrow> no_deletes r obs"
  by (simp add: agent_frame_def no_deletes_def)

lemma agent_event_frame [simp]: "agent_frame r obs \<Longrightarrow> obs (agent_event r ta t rs m w) = obs w"
  using agent_frame_run(7)[of r obs] by (auto simp: agent_event_def split: option.splits)

lemma connectivity_events_frame [simp]: "agent_frame r obs \<Longrightarrow> obs (connectivity_events r ta p s w) = obs w"
  by (simp add: connectivity_events_def Let_def)

lemma readTunnelToken_frame:
  assumes "agent_frame r obs" and "readTunnelToken r ta w = (res, w')"
  shows "obs w' = obs w"
  using assms(2) agent_frame_run(2,3)[OF assms(1)]
  by (auto simp: readTunnelToken_def Let_def split: sum.splits prod.splits option.splits if_splits)

lemma deleteOwned_frame:
  assumes "agent_frame r obs" and "deleteOwnedIfExists r ta k key w = (res, w')"
  shows "obs w' = obs w"
  using assms(2) agent_frame_run(4,5)[OF assms(1)]
  by (auto simp: deleteOwnedIfExists_def split: sum.splits prod.splits option.splits if_splits)

lemma run_steps_frame:
  assumes "\<And>f w res w'. f \<in> set fs \<Longrightarrow> f w = (res, w') \<Longrightarrow> obs w' = obs w"
  shows "run_steps fs w = (res, w') \<Longrightarrow> obs w' = obs w"
  using assms
proof (induction fs arbitrary: w)
  case (Cons f fs)
  obtain e w1 where e: "f w = (e, w1)" by (metis prod.exhaust)
  have w1: "obs w1 = obs w" using Cons.prems(2)[of f, OF _ e] by simp
  show ?case
  proof (cases e)
    case None
    then have "run_steps fs w1 = (res, w')" using Cons.prems(1) e by simp
    then have "obs w' = obs w1" using Cons.prems(2) by (intro Cons.IH) auto
    then show ?thesis using w1 by simp
  qed (use Cons.prems(1) e w1 in simp)
qed simp

lemma ensureConnectivity_frame:
  assumes "agent_frame r obs" and "ensureConnectivity r ta p w = (res, w')"
  shows "obs w' = obs w"
proof -
  note nd = agent_frame_no_deletes[OF assms(1)]
  obtain e w1 where e: "run_steps (connectivity_steps r ta p) w = (e, w1)" by (metis prod.exhaust)
  have "f v = (a, v') \<Longrightarrow> obs v' = obs v" if "f \<in> set (connectivity_steps r ta p)" for f v a v'
    using that applyOwned_frame[OF nd] deleteOwned_frame[OF assms(1)]
    by (auto simp: connectivity_steps_def split: if_splits)
  then have "obs w1 = obs w" using run_steps_frame[OF _ e] by blast
  then show ?thesis using assms(2) e nodeReader_frame[OF nd]
    by (auto simp: ensureConnectivity_def split: option.splits)
qed

text \<open>The frame of every write but one.\<close>

definition secret_frame :: "('w, 'b) agent_reconciler_scheme \<Rightarrow> ('w \<Rightarrow> 'o) \<Rightarrow> bool" where
  "secret_frame r obs \<longleftrightarrow> (\<forall>s w e w'. ar_apply_secret r s w = (e, w') \<longrightarrow> obs w' = obs w)"

definition deployment_frame :: "('w, 'b) agent_reconciler_scheme \<Rightarrow> ('w \<Rightarrow> 'o) \<Rightarrow> bool" where
  "deployment_frame r obs \<longleftrightarrow> (\<forall>d w e w'. ar_apply_deployment r d w = (e, w') \<longrightarrow> obs w' = obs w)"

definition status_frame :: "('w, 'b) agent_reconciler_scheme \<Rightarrow> ('w \<Rightarrow> 'o) \<Rightarrow> bool" where
  "status_frame r obs \<longleftrightarrow> (\<forall>ta w e w'. ar_status_update r ta w = (e, w') \<longrightarrow> obs w' = obs w)"

lemma ensureAgentSecret_frame:
  assumes "agent_frame r obs" and "secret_frame r obs" and "ensureAgentSecret r ta tok iid w = (res, w')"
  shows "obs w' = obs w"
proof -
  have wr: "write_agent_secret r ta tok iid v = (a, v') \<Longrightarrow> obs v' = obs v" for a v v'
    using assms(2) by (auto simp: write_agent_secret_def secret_frame_def Let_def
        split: sum.splits prod.splits option.splits)
  obtain got w1 where get: "ar_get_secret r (agent_secret_key ta) w = (got, w1)" by (metis prod.exhaust)
  have "obs w1 = obs w" by (rule agent_frame_run(3)[OF assms(1) get])
  then show ?thesis using assms(3) get
    by (auto simp: ensureAgentSecret_def Let_def dest: wr split: sum.splits if_splits)
qed

lemma ensureDeployment_frame:
  assumes "agent_frame r obs" and "deployment_frame r obs" and "ensureDeployment r ta cfg w = (res, w')"
  shows "obs w' = obs w"
  using assms(2,3) agent_frame_run(6)[OF assms(1)]
  by (auto simp: ensureDeployment_def deployment_frame_def Let_def split: sum.splits prod.splits if_splits)

lemma writeStatus_agent_frame:
  assumes "status_frame r obs" and "writeStatus_agent r ta orig w = (res, w')"
  shows "obs w' = obs w"
  using assms by (auto simp: writeStatus_agent_def status_frame_def split: if_splits)

lemma park_agent_frame:
  assumes "status_frame r obs" and "park_agent r ta orig d w = (res, w')"
  shows "obs w' = obs w"
  using assms(2) writeStatus_agent_frame[OF assms(1)] by (auto simp: park_agent_def split: prod.splits option.splits)

lemma fail_agent_frame:
  assumes "status_frame r obs" and "fail_agent r ta orig e w = (res, w')"
  shows "obs w' = obs w"
  using assms(2) writeStatus_agent_frame[OF assms(1)]
  by (auto simp: fail_agent_def failStatus_def split: prod.splits option.splits)

lemma check_frame:
  assumes "agent_frame r obs"
  shows "checkAgentUnchanged r ta w = (a, w') \<Longrightarrow> obs w' = obs w"
    and "checkTunnelUnchanged r tt w = (a, w') \<Longrightarrow> obs w' = obs w"
  using agent_frame_run(1,2)[OF assms]
  by (auto simp: checkAgentUnchanged_def checkTunnelUnchanged_def split: prod.splits sum.splits if_splits)

section \<open>The Deployment follows the rechecks\<close>

text \<open>Where one run of \<open>deploy_agent\<close> wrote the Deployment.\<close>

definition rechecked :: "('w, 'b) agent_reconciler_scheme \<Rightarrow> towonel_agent \<Rightarrow> towonel_tunnel \<Rightarrow> 'w \<Rightarrow> bool" where
  "rechecked r ta tunnel v \<longleftrightarrow> (\<exists>v1 v2 cur curt.
     ar_get_agent r (key_of (ta_meta ta)) v1 = (Inr cur, v2) \<and>
     ar_get_tunnel r (key_of (tt_meta tunnel)) v2 = (Inr curt, v) \<and>
     m_uid (ta_meta cur) = m_uid (ta_meta ta) \<and> m_generation (ta_meta cur) = m_generation (ta_meta ta) \<and>
     m_rv (tt_meta curt) = m_rv (tt_meta tunnel))"

lemma deploy_agent_writes:
  assumes fr: "agent_frame r deps" "status_frame r deps"
    and run: "deploy_agent r ta orig tunnel w = (res, w')" and ch: "deps w' \<noteq> deps w"
  shows "\<exists>v dep v'. rechecked r ta tunnel v \<and> deps v = deps w \<and> deps w' = deps v' \<and>
    ensureDeployment r ta (withExtraEnv (renderConfig ta (st_portAllocations (tt_status tunnel))
      (st_inviteID (tt_status tunnel))) ta (ar_agentEnv r)) v = (dep, v')"
proof -
  let ?cfg = "withExtraEnv (renderConfig ta (st_portAllocations (tt_status tunnel))
      (st_inviteID (tt_status tunnel))) ta (ar_agentEnv r)"
  define w0 where "w0 = (if ac_ignoredEnv ?cfg \<noteq> []
      then agent_event r ta EvWarning ReasonEnvIgnored
        (''--agent-env entries ignored (operator-managed names): '' @ join '', '' (ac_ignoredEnv ?cfg)) w else w)"
  have w0: "deps w0 = deps w" using fr by (simp add: w0_def)
  obtain c1 w1 where c1: "checkAgentUnchanged r ta w0 = (c1, w1)" by (metis prod.exhaust)
  obtain c2 w2 where c2: "checkTunnelUnchanged r tunnel w1 = (c2, w2)" by (metis prod.exhaust)
  obtain dep w3 where dep: "ensureDeployment r ta ?cfg w2 = (dep, w3)" by (metis prod.exhaust)
  have d1: "deps w1 = deps w" and d2: "deps w2 = deps w"
    using check_frame[OF fr(1)] c1 c2 w0 by metis+
  have none: "c1 = None" "c2 = None"
    using run ch c1 c2 d1 d2 by (auto simp: deploy_agent_def Let_def w0_def split: option.splits)
  have "deps w' = deps w3"
    using run c1 c2 dep none fail_agent_frame[OF fr(2)] park_agent_frame[OF fr(2)]
    by (auto simp: deploy_agent_def Let_def w0_def split: sum.splits)
  moreover have "rechecked r ta tunnel w2"
    using c1 c2 none unfolding rechecked_def
    by (auto simp: checkAgentUnchanged_def checkTunnelUnchanged_def split: sum.splits prod.splits if_splits)
  ultimately show ?thesis using dep d2 by blast
qed

lemma agent_config_meta:
  assumes "ensureAgentSecret r ta tok iid w = ((res, ta'), w')"
  shows "ta_meta ta' = ta_meta ta \<and> ta_spec ta' = ta_spec ta \<and>
    as_conditions (ta_status ta') = as_conditions (ta_status ta)"
  using assms
  by (auto simp: ensureAgentSecret_def write_agent_secret_def Let_def set_rendered_ref_def
      split: sum.splits prod.splits option.splits if_splits)

lemma setConnectivityCond_frame [simp]:
  "ta_meta (setConnectivityCond L ta p req s) = ta_meta ta"
  "ta_spec (setConnectivityCond L ta p req s) = ta_spec ta"
  by (simp_all add: setConnectivityCond_def)

lemma set_rendered_ref_cond [simp]:
  "agent_cond_true L (set_rendered_ref n ns ta) t = agent_cond_true L ta t"
  by (simp add: set_rendered_ref_def agent_cond_true_def)

lemma setConnectivityCond_true:
  assumes "lib_ok L" and "t \<noteq> CondIrohConnectivityReady"
  shows "agent_cond_true L (setConnectivityCond L ta p req s) t = agent_cond_true L ta t"
proof -
  have "agent_cond_true L (ta\<lparr>ta_status := (ta_status ta)\<lparr>as_conditions :=
      remove_status_condition L (as_conditions (ta_status ta)) CondIrohConnectivityReady\<rparr>\<rparr>) t = agent_cond_true L ta t"
    using assms by (simp add: agent_cond_true_def lib_simps)
  then show ?thesis using assms by (simp add: setConnectivityCond_def)
qed

lemma rechecked_meta: "ta_meta ta = ta_meta ta' \<Longrightarrow> rechecked r ta tun v = rechecked r ta' tun v"
  by (simp add: rechecked_def)


section \<open>Ready is never reported early\<close>

text \<open>The stored status of the agent: an accepted update stores the status it carries.\<close>

definition status_api :: "('w, 'b) agent_reconciler_scheme \<Rightarrow> ('w \<Rightarrow> agent_status) \<Rightarrow> bool" where
  "status_api r stat \<longleftrightarrow> agent_frame r stat \<and> secret_frame r stat \<and> deployment_frame r stat \<and>
     (\<forall>ta w w'. ar_status_update r ta w = (None, w') \<longrightarrow> stat w' = ta_status ta)"

lemma observe_agent_frame [simp]:
  "as_phase (ta_status (observe_agent ta)) = as_phase (ta_status ta)"
  "as_observedConfigHash (ta_status (observe_agent ta)) = as_observedConfigHash (ta_status ta)"
  "as_observedGeneration (ta_status (observe_agent ta)) = m_generation (ta_meta ta)"
  by (simp_all add: observe_agent_def)

lemma park_agent_status:
  assumes "status_api r stat" and "park_agent r ta orig d w = (Inr out, w')" and "stat w = orig"
  shows "stat w' = ta_status (observe_agent ta) \<and> out = AgentDone d"
  using assms
  by (auto simp: park_agent_def writeStatus_agent_def status_api_def split: prod.splits option.splits if_splits)

lemma deploy_agent_done:
  assumes fr: "agent_frame r obs" "deployment_frame r obs"
    and run: "deploy_agent r ta orig tunnel w = (Inr out, w')"
  shows "\<exists>dep v v'. let cfg = withExtraEnv (renderConfig ta (st_portAllocations (tt_status tunnel))
        (st_inviteID (tt_status tunnel))) ta (ar_agentEnv r) in
      ensureDeployment r ta cfg v = (Inr dep, v') \<and> obs v' = obs w \<and>
      park_agent r (rollupAgentStatus r
         (setAgentCond r CondConfigRendered CTrue ReasonRendered ''secret and deployment rendered'' ta)
         cfg (Some dep)) orig 0 v' = (Inr out, w')"
proof -
  let ?cfg = "withExtraEnv (renderConfig ta (st_portAllocations (tt_status tunnel))
      (st_inviteID (tt_status tunnel))) ta (ar_agentEnv r)"
  define w0 where "w0 = (if ac_ignoredEnv ?cfg \<noteq> []
      then agent_event r ta EvWarning ReasonEnvIgnored
        (''--agent-env entries ignored (operator-managed names): '' @ join '', '' (ac_ignoredEnv ?cfg)) w else w)"
  have w0: "obs w0 = obs w" using fr by (simp add: w0_def)
  obtain c1 w1 where c1: "checkAgentUnchanged r ta w0 = (c1, w1)" by (metis prod.exhaust)
  obtain c2 w2 where c2: "checkTunnelUnchanged r tunnel w1 = (c2, w2)" by (metis prod.exhaust)
  obtain dep w3 where dep: "ensureDeployment r ta ?cfg w2 = (dep, w3)" by (metis prod.exhaust)
  have "obs w3 = obs w"
    using check_frame[OF fr(1)] ensureDeployment_frame[OF fr dep] c1 c2 w0 by metis
  moreover have none: "c1 = None" "c2 = None"
    using run c1 c2 by (auto simp: deploy_agent_def Let_def w0_def split: option.splits)
  moreover obtain d where "dep = Inr d"
    using run c1 c2 dep none
    by (cases dep) (auto simp: deploy_agent_def Let_def w0_def fail_agent_def split: prod.splits)
  ultimately show ?thesis
    using run c1 c2 dep unfolding Let_def
    by (intro exI[of _ d] exI[of _ w2] exI[of _ w3]) (simp add: deploy_agent_def Let_def w0_def)
qed

lemma pair_frames:
  assumes "status_api r stat" and "agent_frame r secs" and "deployment_frame r secs"
  shows "agent_frame r (\<lambda>w. (stat w, secs w))" "deployment_frame r (\<lambda>w. (stat w, secs w))"
  using assms by (auto simp: status_api_def agent_frame_def deployment_frame_def)

lemma readTunnelToken_Token:
  "readTunnelToken r ta w = (Inr (Token tunnel token), w') \<Longrightarrow> token \<noteq> []"
  by (auto simp: readTunnelToken_def Let_def split: sum.splits prod.splits option.splits if_splits)

lemma planConnectivity_cong:
  assumes "ta_meta a = ta_meta b" and "ta_spec a = ta_spec b"
  shows "planConnectivity a = planConnectivity b"
proof -
  have "nodePortServiceName a = nodePortServiceName b" using assms by (simp add: nodePortServiceName_def)
  then show ?thesis using assms(2) by (simp only: planConnectivity_def)
qed

lemma config_cong:
  assumes "ta_meta a = ta_meta b" and "ta_spec a = ta_spec b"
  shows "withExtraEnv (renderConfig a allocs iid) a extra = withExtraEnv (renderConfig b allocs iid) b extra"
proof -
  have "connectivityEnv a p = connectivityEnv b p" "operatorEnv a c = operatorEnv b c" for p c
    using assms by (simp_all add: connectivityEnv_def operatorEnv_def)
  then show ?thesis
    using assms planConnectivity_cong[OF assms] by (simp add: withExtraEnv_def renderConfig_def)
qed

lemma pending_none:
  assumes "ac_pending (withExtraEnv (renderConfig ta allocs iid) ta extra) = []"
  shows "(\<forall>e \<in> set (ag_tcp (ta_spec ta)). \<exists>pa \<in> set allocs. al_key pa = allocKey ''tcp'' (l4_name e)) \<and>
    (\<forall>e \<in> set (ag_udp (ta_spec ta)). \<exists>pa \<in> set allocs. al_key pa = allocKey ''udp'' (l4_name e))"
proof -
  have "ac_pending (withExtraEnv c ta extra) = ac_pending c" for c
    by (simp add: withExtraEnv_def extra_loop_eq Let_def)
  then show ?thesis
    using assms
    by (simp add: renderConfig_fields marshalL4_eq Let_def filter_empty_conv alloc_ports_key)
qed

text \<open>C14: The status says Ready only when it is true: after an attempt whose stored status says
  Ready, the tunnel's token was available, the agent's own Secret holds a token of the tunnel's
  current invite, every TCP and UDP entry of the agent has its port among the tunnel's
  allocations, the Deployment is available, and the hash in the status is that of the
  configuration rendered from them.\<close>

theorem reconcile_agent_ready:
  assumes "status_api r stat" and "agent_secret_api r secs" and "lib_ok r"
    and "agent_frame r secs" and "deployment_frame r secs" and "status_frame r secs"
    and "stat w = ta_status ta" and "reconcile_agent r ta w = (Inr out, w')" and "as_phase (stat w') = ''Ready''"
  shows "\<exists>tunnel token w1 s dep v v' ta'. readTunnelToken r ta w = (Inr (Token tunnel token), w1) \<and>
    secs w' (agent_secret_key ta) = Some s \<and> holds_token s ta (st_inviteID (tt_status tunnel)) \<and>
    (let allocs = st_portAllocations (tt_status tunnel);
         cfg = withExtraEnv (renderConfig ta allocs (st_inviteID (tt_status tunnel))) ta (ar_agentEnv r)
     in ensureDeployment r ta' cfg v = (Inr dep, v') \<and> deployment_available (Some dep) \<and>
        as_observedConfigHash (stat w') = config_hash cfg \<and>
        (\<forall>e \<in> set (ag_tcp (ta_spec ta)). \<exists>pa \<in> set allocs. al_key pa = allocKey ''tcp'' (l4_name e)) \<and>
        (\<forall>e \<in> set (ag_udp (ta_spec ta)). \<exists>pa \<in> set allocs. al_key pa = allocKey ''udp'' (l4_name e)))"
proof -
  note fr = assms(1)[unfolded status_api_def, THEN conjunct1]
  note sfr = assms(1)[unfolded status_api_def, THEN conjunct2, THEN conjunct1]
  note dfr = assms(1)[unfolded status_api_def, THEN conjunct2, THEN conjunct2, THEN conjunct1]
  obtain tok w1 where tok: "readTunnelToken r ta w = (tok, w1)" by (metis prod.exhaust)
  have st1: "stat w1 = ta_status ta" using readTunnelToken_frame[OF fr tok] assms(7) by simp
  obtain tunnel token where tt: "tok = Inr (Token tunnel token)"
    using assms(8,9) tok park_agent_status[OF assms(1) _ st1]
    by (auto simp: reconcile_agent_def markAgentWaiting_def split: sum.splits tunnel_token.splits)
  let ?ta = "setAgentCond r CondTunnelReady CTrue ReasonReady ''tunnel token available'' ta"
  let ?iid = "st_inviteID (tt_status tunnel)"
  have run: "render_agent r ?ta (ta_status ta) tunnel token w1 = (Inr out, w')"
    using assms(8) tok tt by (simp add: reconcile_agent_def)
  have token: "token \<noteq> []" using readTunnelToken_Token tok tt by metis
  obtain serr ta1 w2 where sec: "ensureAgentSecret r ?ta token ?iid w1 = ((serr, ta1), w2)"
    by (metis prod.exhaust)
  have st2: "stat w2 = ta_status ta" using ensureAgentSecret_frame[OF fr sfr sec] st1 by simp
  have m1: "ta_meta ta1 = ta_meta ta" "ta_spec ta1 = ta_spec ta" using agent_config_meta[OF sec] by simp_all
  have ok: "serr = None"
    using run sec assms(9) park_agent_status[OF assms(1)] st2 fr
    by (cases serr) (auto simp: render_agent_def fail_agent_def split: if_splits prod.splits)
  have key: "agent_secret_key ?ta = agent_secret_key ta" by (simp add: agent_secret_key_def)
  obtain s where s: "secs w2 (agent_secret_key ta) = Some s" "holds_token s ta ?iid"
    using ensureAgentSecret_effect[OF assms(2,3) token sec] ok
    by (auto simp: key holds_token_def)
  obtain conn w3 where conn: "ensureConnectivity r ta1 (planConnectivity ta1) w2 = (conn, w3)" by (metis prod.exhaust)
  obtain missing where c: "conn = Inr missing"
    using run sec ok conn by (cases conn) (auto simp: render_agent_def Let_def fail_agent_def split: prod.splits)
  let ?ta2 = "setConnectivityCond r ta1 (planConnectivity ta1) (connectivityRequested ta1) missing"
  let ?w4 = "connectivity_events r ?ta2 (planConnectivity ta1) missing w3"
  let ?ta3 = "setAgentCond r CondConfigRendered CTrue ReasonRendered ''secret and deployment rendered'' ?ta2"
  let ?cfg = "withExtraEnv (renderConfig ta (st_portAllocations (tt_status tunnel)) ?iid) ta (ar_agentEnv r)"
  have cfg: "withExtraEnv (renderConfig ?ta2 (st_portAllocations (tt_status tunnel)) ?iid) ?ta2 (ar_agentEnv r) = ?cfg"
    by (rule config_cong) (simp_all add: m1)
  have dep_run: "deploy_agent r ?ta2 (ta_status ta) tunnel ?w4 = (Inr out, w')"
    using run sec ok conn c by (simp add: render_agent_def Let_def)
  then obtain dep v v' where dep: "ensureDeployment r ?ta2 ?cfg v = (Inr dep, v')"
    and frame: "(stat v', secs v') = (stat ?w4, secs ?w4)"
    and park: "park_agent r (rollupAgentStatus r ?ta3 ?cfg (Some dep)) (ta_status ta) 0 v' = (Inr out, w')"
    using deploy_agent_done[OF pair_frames[OF assms(1,4,5)] dep_run] by (auto simp: Let_def cfg)
  have w3: "stat w3 = ta_status ta" "secs w3 = secs w2"
    using ensureConnectivity_frame[OF fr conn] ensureConnectivity_frame[OF assms(4) conn] st2 by simp_all
  have v': "stat v' = ta_status ta" "secs v' = secs w2" using frame w3 fr assms(4) by simp_all
  have w': "secs w' = secs w2" using park_agent_frame[OF assms(6) park] v'(2) by simp
  have fin: "stat w' = ta_status (observe_agent (rollupAgentStatus r ?ta3 ?cfg (Some dep)))"
    using park_agent_status[OF assms(1) park v'(1)] by simp
  have ready: "deployment_available (Some dep)" "as_observedConfigHash (stat w') = config_hash ?cfg"
    "ag_tcp (ta_spec ta) = [] \<and> ag_udp (ta_spec ta) = [] \<or> ac_pending ?cfg = []"
    using rollupAgentStatus_facts[OF assms(3), of ?ta3 ?cfg "Some dep"] assms(9)
    by (auto simp: fin Let_def m1 split: if_splits)
  have ports: "(\<forall>e \<in> set (ag_tcp (ta_spec ta)). \<exists>pa \<in> set (st_portAllocations (tt_status tunnel)).
        al_key pa = allocKey ''tcp'' (l4_name e)) \<and>
      (\<forall>e \<in> set (ag_udp (ta_spec ta)). \<exists>pa \<in> set (st_portAllocations (tt_status tunnel)).
        al_key pa = allocKey ''udp'' (l4_name e))"
    using ready(3) pending_none[of ta "st_portAllocations (tt_status tunnel)" ?iid "ar_agentEnv r"] by auto
  show ?thesis
    using tok tt s w' dep ready(1,2) ports unfolding Let_def by metis
qed

section \<open>Deleted agents and conflicts\<close>

text \<open>C27: When an agent is gone, a successful \<open>Reconcile\<close> of its name leaves the shared
  node-reader binding without that agent's service account: there is no finalizer, and this pass is
  what revokes its node access.\<close>

theorem Reconcile_agent_revokes:
  assumes "crb_api r crb agents" and "ar_get_agent r req w = (Inl e, w1)" and "is_not_found e"
    and "agents w1 = agents w" and "\<forall>a \<in> set (agents w). key_of (ta_meta a) \<noteq> req"
    and "Reconcile_agent r req w = (Inr d, w')"
  shows "d = 0 \<and> (\<forall>c s. crb w' = Some c \<and> s \<in> set (crb_subjects c) \<longrightarrow> (sub_namespace s, sub_name s) \<noteq> req)"
proof -
  have "agent_attempt r req w = (Inr AgentMissing, w1)" using assms(2,3) by (simp add: agent_attempt_def)
  then have "retry_on_conflict n (agent_attempt r req) w = (Inr AgentMissing, w1)" for n by (cases n) simp_all
  then obtain missing where run: "reconcileNodeReaderSubjects r w1 = (Inr missing, w')" and d: "d = 0"
    using assms(6) by (auto simp: Reconcile_agent_def split: prod.splits sum.splits)
  have "(sub_namespace s, sub_name s) \<noteq> req" if "crb w' = Some c" "s \<in> set (crb_subjects c)" for c s
  proof -
    have "s \<in> set (node_reader_subjects (agents w))"
      using nodeReader_effect[OF assms(1) run] that assms(4) by (auto split: if_splits)
    then obtain a where "a \<in> set (agents w)" "s = agent_subject a" by (auto simp: set_node_reader_subjects)
    then show ?thesis using assms(5) by (auto simp: agent_subject_def key_of_def agentSAName_def)
  qed
  then show ?thesis using d by blast
qed

theorem Reconcile_agent_revokes_witness:
  "let w' = snd (Reconcile_agent crb_reconciler (''n'', ''gone'') (1, [agent_subject (new_agent ''n'' ''gone'')], [probe_agent]))
   in agent_subject (new_agent ''n'' ''gone'') \<notin> set (fst (snd w'))"
proof -
  let ?w = "(1, [agent_subject (new_agent ''n'' ''gone'')], [probe_agent]) :: crb_world"
  have get: "ar_get_agent crb_reconciler (''n'', ''gone'') ?w = (Inl (KubeError RNotFound ''not found''), ?w)"
    by (simp add: crb_reconciler_def idle_agent_reconciler_def)
  have "\<exists>w'. Reconcile_agent crb_reconciler (''n'', ''gone'') ?w = (Inr 0, w')"
    by (simp add: Reconcile_agent_def agent_attempt_def reconcileNodeReaderSubjects_def
        computeNodeReaderSubjects_def crb_reconciler_def
        idle_agent_reconciler_def patch_node_reader_def node_reader_subjects_def crb_of_def
        agent_subject_def new_agent_def agentSAName_def new_meta_def numeral_eq_Suc probe_agent_def
        planConnectivity_fields)
  then obtain w' where run: "Reconcile_agent crb_reconciler (''n'', ''gone'') ?w = (Inr 0, w')" by blast
  have "\<forall>a \<in> set [probe_agent]. key_of (ta_meta a) \<noteq> (''n'', ''gone'')"
    by (simp add: probe_agent_def key_of_def new_meta_def)
  then have "(sub_namespace s, sub_name s) \<noteq> (''n'', ''gone'')" if "s \<in> set (fst (snd w'))" for s
    using Reconcile_agent_revokes[OF crb_reconciler_api get _ _ _ run] that by (auto simp: crb_of_def)
  moreover have "(sub_namespace (agent_subject (new_agent ''n'' ''gone'')),
      sub_name (agent_subject (new_agent ''n'' ''gone''))) = (''n'', ''gone'')"
    by (simp add: agent_subject_def new_agent_def new_meta_def agentSAName_def)
  ultimately show ?thesis using run by (auto simp: Let_def)
qed

lemma retry_recovers:
  assumes "\<And>i. i < k \<Longrightarrow> \<exists>e. f (ws i) = (Inl e, ws (Suc i)) \<and> is_conflict e"
    and "f (ws k) = (Inr a, w')" and "k \<le> n"
  shows "retry_on_conflict n f (ws 0) = (Inr a, w')"
  using assms
proof (induction k arbitrary: n ws)
  case 0
  then show ?case by (cases n) simp_all
next
  case (Suc k)
  obtain m where n: "n = Suc m" using Suc.prems(3) by (cases n) auto
  obtain e where e: "f (ws 0) = (Inl e, ws 1)" "is_conflict e" using Suc.prems(1)[of 0] by auto
  have "retry_on_conflict m f (ws (Suc 0)) = (Inr a, w')"
    using Suc.IH[of "\<lambda>i. ws (Suc i)" m] Suc.prems n by auto
  then show ?case using e n by simp
qed

text \<open>Conflicts with other writers do not surface: as long as no more attempts conflict than
  the backoff allows, \<open>Reconcile\<close> succeeds with the outcome of the first attempt that does not,
  which has read everything afresh.\<close>

theorem Reconcile_agent_recovers:
  assumes "\<And>i. i < k \<Longrightarrow> \<exists>e. agent_attempt r req (ws i) = (Inl e, ws (Suc i)) \<and> is_conflict e"
    and "agent_attempt r req (ws k) = (Inr (AgentDone d), w')" and "k \<le> ar_backoff_retries r"
  shows "Reconcile_agent r req (ws 0) = (Inr d, w')"
  using retry_recovers[where f = "agent_attempt r req" and ws = ws, OF assms] by (simp add: Reconcile_agent_def)

text \<open>The witness: an agent whose status write conflicts twice before it is accepted.\<close>

definition busy_reconciler :: "nat agent_reconciler" where
  "busy_reconciler = idle_agent_reconciler\<lparr>
     ar_get_agent := \<lambda>k w. (Inr probe_agent, w),
     ar_status_update := \<lambda>ta w. (case w of 0 \<Rightarrow> (None, 0) | Suc n \<Rightarrow> (Some (KubeError RConflict ''conflict''), n))\<rparr>"

lemma busy_attempt:
  "agent_attempt busy_reconciler (''n'', ''a'') w = (case w of
     0 \<Rightarrow> (Inr (AgentDone waitingRequeue), 0)
   | Suc n \<Rightarrow> (Inl (KubeError RConflict ''conflict''), n))"
  by (simp add: agent_attempt_def busy_reconciler_def idle_agent_reconciler_def probe_agent_def reconcile_agent_def
      readTunnelToken_def park_agent_def writeStatus_agent_def setAgentCond_def markAgentWaiting_def
      set_agent_phase_def observe_agent_def std_lib_def zero_agent_status_def new_meta_def split: nat.split)

theorem Reconcile_agent_recovers_witness:
  "Reconcile_agent busy_reconciler (''n'', ''a'') 2 = (Inr waitingRequeue, 0)"
proof -
  let ?ws = "\<lambda>i::nat. 2 - i"
  have "\<exists>e. agent_attempt busy_reconciler (''n'', ''a'') (?ws i) = (Inl e, ?ws (Suc i)) \<and> is_conflict e"
    if "i < 2" for i
    using that by (auto simp: busy_attempt less_2_cases_iff)
  moreover have "agent_attempt busy_reconciler (''n'', ''a'') (?ws 2) = (Inr (AgentDone waitingRequeue), 0)"
    by (simp add: busy_attempt)
  moreover have "2 \<le> ar_backoff_retries busy_reconciler"
    by (simp add: busy_reconciler_def idle_agent_reconciler_def)
  ultimately show ?thesis using Reconcile_agent_recovers[where ws = ?ws] by (metis diff_zero)
qed

lemma retry_attempts:
  obtains k ws res where "k \<le> n" "ws 0 = w"
    "\<And>i. i < k \<Longrightarrow> \<exists>e. f (ws i) = (Inl e, ws (Suc i)) \<and> is_conflict e"
    "f (ws k) = (res, ws (Suc k))" "\<And>e. res = Inl e \<Longrightarrow> is_conflict e \<Longrightarrow> k = n"
    "retry_on_conflict n f w = (res, ws (Suc k))"
proof (induction n arbitrary: w thesis)
  case 0
  obtain res w1 where f: "f w = (res, w1)" by fastforce
  show ?case by (rule 0[of 0 "\<lambda>i. if i = 0 then w else w1" res]) (simp_all add: f)
next
  case (Suc n)
  obtain res w1 where f: "f w = (res, w1)" by fastforce
  show ?case
  proof (cases "\<exists>e. res = Inl e \<and> is_conflict e")
    case False
    then have "retry_on_conflict (Suc n) f w = (res, w1)" using f by (cases res) auto
    then show ?thesis using False
      by (intro Suc.prems[of 0 "\<lambda>i. if i = 0 then w else w1" res]) (auto simp: f)
  next
    case True
    then obtain e where e: "res = Inl e" "is_conflict e" by blast
    obtain k ws r where k: "k \<le> n" "ws 0 = w1"
      "\<And>i. i < k \<Longrightarrow> \<exists>e. f (ws i) = (Inl e, ws (Suc i)) \<and> is_conflict e"
      "f (ws k) = (r, ws (Suc k))" "\<And>e. r = Inl e \<Longrightarrow> is_conflict e \<Longrightarrow> k = n"
      "retry_on_conflict n f w1 = (r, ws (Suc k))" by (rule Suc.IH[of w1]) blast
    show ?thesis
    proof (rule Suc.prems[of "Suc k" "\<lambda>i. case i of 0 \<Rightarrow> w | Suc j \<Rightarrow> ws j" r])
      show "\<exists>e. f (case i of 0 \<Rightarrow> w | Suc j \<Rightarrow> ws j) = (Inl e, case Suc i of 0 \<Rightarrow> w | Suc j \<Rightarrow> ws j) \<and> is_conflict e"
        if "i < Suc k" for i using that k(2,3) f e by (cases i) auto
      show "retry_on_conflict (Suc n) f w = (r, case Suc (Suc k) of 0 \<Rightarrow> w | Suc j \<Rightarrow> ws j)"
        using f e k(6) by simp
    qed (use k in auto)
  qed
qed



text \<open>A small cluster for the other witnesses: one agent, its tunnel with a token, a scheduler that
  makes every Deployment available.\<close>

record agent_world =
  aw_secrets :: "nn \<Rightarrow> secret_obj option"
  aw_deployments :: "nn \<Rightarrow> deployment option"
  aw_status :: agent_status

definition small_agent :: "agent_world \<Rightarrow> towonel_agent" where
  "small_agent w = \<lparr>ta_meta = new_meta ''n'' ''a'',
     ta_spec = zero_agent_spec\<lparr>ag_tunnelRef := \<lparr>tr_name = ''t'', tr_namespace = []\<rparr>\<rparr>, ta_status = aw_status w\<rparr>"

definition small_tunnel :: towonel_tunnel where
  "small_tunnel = with_status (\<lambda>st. st\<lparr>st_inviteID := ''inv'',
     st_tokenSecretRef := Some \<lparr>sr_name = ''t-token'', sr_namespace = ''n''\<rparr>\<rparr>) (new_tunnel ''n'' ''t'')"

definition small_world :: agent_world where
  "small_world = \<lparr>aw_secrets = [(''n'', ''t-token'') \<mapsto> buildTokenSecret ''t'' ''n'' ''tok'' ''inv''],
     aw_deployments = (\<lambda>k. None), aw_status = zero_agent_status\<rparr>"

definition small_reconciler :: "agent_world agent_reconciler" where
  "small_reconciler = idle_agent_reconciler\<lparr>
     ar_get_agent := \<lambda>k w. (Inr (small_agent w), w),
     ar_get_tunnel := \<lambda>k w. (Inr small_tunnel, w),
     ar_get_secret := \<lambda>k w. (case aw_secrets w k of Some s \<Rightarrow> Inr s
        | None \<Rightarrow> Inl (KubeError RNotFound ''not found''), w),
     ar_apply_secret := \<lambda>s w. (None, w\<lparr>aw_secrets := (aw_secrets w)(key_of (sec_meta s) \<mapsto> s)\<rparr>),
     ar_get_deployment := \<lambda>k w. (case aw_deployments w k of Some d \<Rightarrow> Inr d
        | None \<Rightarrow> Inl (KubeError RNotFound ''not found''), w),
     ar_apply_deployment := \<lambda>d w. (let d' = d\<lparr>dp_conditions := [(''Available'', CTrue)]\<rparr>
        in (Inr d', w\<lparr>aw_deployments := (aw_deployments w)(key_of (dp_meta d) \<mapsto> d')\<rparr>)),
     ar_status_update := \<lambda>ta w. (None, w\<lparr>aw_status := ta_status ta\<rparr>)\<rparr>"

lemma small_frames:
  "agent_frame small_reconciler aw_secrets" "agent_frame small_reconciler aw_deployments"
  "agent_frame small_reconciler aw_status" "deployment_frame small_reconciler aw_secrets"
  "status_frame small_reconciler aw_secrets" "secret_frame small_reconciler aw_deployments"
  "status_frame small_reconciler aw_deployments"
  by (auto simp: agent_frame_def deployment_frame_def status_frame_def secret_frame_def Let_def
      small_reconciler_def idle_agent_reconciler_def)

lemma small_status: "status_api small_reconciler aw_status"
  using small_frames(3)
  by (auto simp: status_api_def secret_frame_def deployment_frame_def small_reconciler_def Let_def)

lemma small_secrets: "agent_secret_api small_reconciler aw_secrets"
  by (auto simp: agent_secret_api_def small_reconciler_def split: option.splits)

lemma small_lib: "lib_ok small_reconciler"
  using std_lib_ok by (simp add: lib_ok_def small_reconciler_def idle_agent_reconciler_def)

lemma small_connectivity:
  "ta_spec ta = zero_agent_spec\<lparr>ag_tunnelRef := x\<rparr> \<Longrightarrow>
   ensureConnectivity small_reconciler ta (planConnectivity ta) w = (Inr True, w)"
  by (simp add: ensureConnectivity_def connectivity_steps_def planConnectivity_fields zero_agent_spec_def
      zero_connectivity_def applyOwned_def deleteOwnedIfExists_def small_reconciler_def idle_agent_reconciler_def
      std_lib_def reconcileNodeReaderSubjects_def computeNodeReaderSubjects_def numeral_eq_Suc
      patch_node_reader_def Let_def)

lemma small_reads:
  "ar_get_agent small_reconciler k w = (Inr (small_agent w), w)"
  "ar_get_tunnel small_reconciler k w = (Inr small_tunnel, w)"
  "ta_meta (small_agent w) = new_meta ''n'' ''a''"
  by (simp_all add: small_reconciler_def small_agent_def)

lemma small_token:
  "readTunnelToken small_reconciler (small_agent small_world) small_world =
     (Inr (Token small_tunnel ''tok''), small_world)"
  by (simp add: readTunnelToken_def small_reconciler_def small_tunnel_def small_world_def small_agent_def
      buildTokenSecret_def AnnotationInviteID_def tokenDataKey_def Let_def)

lemma small_secret:
  "\<exists>w1. ensureAgentSecret small_reconciler (setAgentCond small_reconciler CondTunnelReady CTrue rs m (small_agent small_world))
       ''tok'' ''inv'' small_world =
     ((None, set_rendered_ref ''a-token'' ''n''
        (setAgentCond small_reconciler CondTunnelReady CTrue rs m (small_agent small_world))), w1) \<and>
     aw_deployments w1 = (\<lambda>k. None) \<and> aw_status w1 = zero_agent_status"
  by (simp add: ensureAgentSecret_def small_reconciler_def agent_secret_key_def small_world_def small_agent_def
      new_meta_def tokenSecretName_def write_agent_secret_def idle_agent_reconciler_def std_lib_def
      buildTokenSecret_def key_of_def Let_def)

lemma small_deployment:
  assumes "ta_meta ta = new_meta ''n'' ''a''" and "aw_deployments w = (\<lambda>k. None)"
  shows "\<exists>d w'. ensureDeployment small_reconciler ta cfg w = (Inr d, w') \<and> deployment_available (Some d) \<and>
    aw_deployments w' (''n'', ''a'') = Some d \<and> aw_status w' = aw_status w"
  using assms
  by (simp add: ensureDeployment_def buildDeployment_def small_reconciler_def idle_agent_reconciler_def std_lib_def
      new_meta_def key_of_def deployment_available_def Let_def)

lemma small_run:
  "\<exists>out w'. reconcile_agent small_reconciler (small_agent small_world) small_world = (Inr out, w') \<and>
     as_phase (aw_status w') = ''Ready'' \<and> aw_deployments w' (''n'', ''a'') \<noteq> None"
proof -
  let ?r = small_reconciler
  let ?ta = "setAgentCond ?r CondTunnelReady CTrue ReasonReady ''tunnel token available'' (small_agent small_world)"
  let ?ta1 = "set_rendered_ref ''a-token'' ''n'' ?ta"
  have inv: "st_inviteID (tt_status small_tunnel) = ''inv''" "st_portAllocations (tt_status small_tunnel) = []"
    by (simp_all add: small_tunnel_def new_tunnel_def zero_defs)
  obtain w1 where sec: "ensureAgentSecret ?r ?ta ''tok'' ''inv'' small_world = ((None, ?ta1), w1)"
      and w1: "aw_deployments w1 = (\<lambda>k. None)" "aw_status w1 = zero_agent_status"
    using small_secret by blast
  have meta: "ta_meta ?ta1 = new_meta ''n'' ''a''"
      "ta_spec ?ta1 = zero_agent_spec\<lparr>ag_tunnelRef := \<lparr>tr_name = ''t'', tr_namespace = []\<rparr>\<rparr>"
    by (simp_all add: set_rendered_ref_def small_agent_def)
  have conn: "ensureConnectivity ?r ?ta1 (planConnectivity ?ta1) w1 = (Inr True, w1)"
    by (rule small_connectivity[OF meta(2)])
  let ?ta2 = "setConnectivityCond ?r ?ta1 (planConnectivity ?ta1) (connectivityRequested ?ta1) True"
  let ?cfg = "withExtraEnv (renderConfig ?ta2 [] ''inv'') ?ta2 []"
  have ev: "connectivity_events ?r ?ta2 p True w1 = w1" for p
    by (simp add: connectivity_events_def agent_event_def small_reconciler_def idle_agent_reconciler_def Let_def)
  have m2: "ta_meta ?ta2 = new_meta ''n'' ''a''" using meta by simp
  obtain d w2 where dep: "ensureDeployment ?r ?ta2 ?cfg w1 = (Inr d, w2)" "deployment_available (Some d)"
      and w2: "aw_deployments w2 (''n'', ''a'') = Some d" "aw_status w2 = zero_agent_status"
    using small_deployment[OF m2 w1(1)] w1(2) by metis
  have checks: "checkAgentUnchanged ?r ?ta2 w1 = (None, w1)" "checkTunnelUnchanged ?r small_tunnel w1 = (None, w1)"
    using small_reads by (simp_all add: checkAgentUnchanged_def checkTunnelUnchanged_def meta)
  let ?ta3 = "rollupAgentStatus ?r (setAgentCond ?r CondConfigRendered CTrue ReasonRendered ''secret and deployment rendered'' ?ta2)
      ?cfg (Some d)"
  have "agent_cond_true ?r ?ta2 CondTunnelReady"
    using setConnectivityCond_true[OF small_lib, of CondTunnelReady] by (simp add: small_lib cond_names)
  then have ready: "as_phase (ta_status ?ta3) = ''Ready''"
    using rollupAgentStatus_facts[OF small_lib, of "setAgentCond ?r CondConfigRendered CTrue ReasonRendered
        ''secret and deployment rendered'' ?ta2" ?cfg "Some d"] dep(2) meta
    by (simp add: Let_def small_lib zero_agent_spec_def cond_names)
  have env: "ar_agentEnv ?r = []" "ac_ignoredEnv ?cfg = []"
    by (simp_all add: small_reconciler_def idle_agent_reconciler_def withExtraEnv_ignored renderConfig_fields)
  have upd: "ar_status_update ?r ta w = (None, w\<lparr>aw_status := ta_status ta\<rparr>)" for ta w
    by (simp add: small_reconciler_def)
  have ne: "ta_status (observe_agent ?ta3) \<noteq> ta_status (small_agent small_world)"
    using ready by (metis observe_agent_frame(1) zero_agent_status_def small_agent_def small_world_def
      agent_status.select_convs(1) towonel_agent.select_convs(3) agent_world.select_convs(3) list.distinct(1))
  have "reconcile_agent ?r (small_agent small_world) small_world =
      (Inr (AgentDone 0), w2\<lparr>aw_status := ta_status (observe_agent ?ta3)\<rparr>)"
    using ne
    by (simp add: reconcile_agent_def small_token render_agent_def sec conn inv ev deploy_agent_def env checks dep
        park_agent_def writeStatus_agent_def upd Let_def)
  then show ?thesis using ready w2 by simp
qed


theorem reconcile_agent_ready_witness:
  "\<exists>out w' s. reconcile_agent small_reconciler (small_agent small_world) small_world = (Inr out, w') \<and>
     as_phase (aw_status w') = ''Ready'' \<and>
     aw_secrets w' (''n'', ''a-token'') = Some s \<and> holds_token s (small_agent small_world) ''inv''"
proof -
  obtain out w' where run: "reconcile_agent small_reconciler (small_agent small_world) small_world = (Inr out, w')"
    and ready: "as_phase (aw_status w') = ''Ready''" using small_run by blast
  have st: "aw_status small_world = ta_status (small_agent small_world)" by (simp add: small_agent_def)
  have "agent_secret_key (small_agent small_world) = (''n'', ''a-token'')"
    by (simp add: agent_secret_key_def small_agent_def new_meta_def tokenSecretName_def)
  moreover have "st_inviteID (tt_status small_tunnel) = ''inv''" by (simp add: small_tunnel_def)
  ultimately show ?thesis
    using reconcile_agent_ready[OF small_status small_secrets small_lib small_frames(1,4,5) st run ready] run ready
      small_token by auto
qed

end
