(* ===== verification/SourceEvents.thy ===== *)
theory SourceEvents
  imports Conventions "HOL-Library.Multiset"
begin

text \<open>
  \<open>saferecorder.go\<close> and \<open>redact.go\<close>: the nil-safe event recorder, the map that collapses repeated
  events of a source (\<open>eventDedupe\<close>) and the self-redacting token type. The map lives in the
  reconciler's memory: it is read and replaced through two fields, \<open>sb_recent\<close> and
  \<open>sb_put_recent\<close>, whose argument is the world. Times are nanoseconds of the process clock.
\<close>

section \<open>The recorder\<close>

text \<open>A \<open>*SafeRecorder\<close> is nil, or wraps a recorder that is nil or not.\<close>

type_synonym 'w safe_recorder = "(event \<Rightarrow> 'w \<Rightarrow> 'w) option option"

definition NewSafeRecorder :: "(event \<Rightarrow> 'w \<Rightarrow> 'w) option \<Rightarrow> 'w safe_recorder" where
  "NewSafeRecorder rec = Some rec"

definition safe_Event :: "'w safe_recorder \<Rightarrow> event \<Rightarrow> 'w \<Rightarrow> 'w" where
  "safe_Event s e w = (case s of Some (Some rec) \<Rightarrow> rec e w | _ \<Rightarrow> w)"

section \<open>The deduplication map\<close>

type_synonym recent = "(string \<times> int) list"

definition eventDedupeTTL :: int where "eventDedupeTTL = 60 * minute"
definition eventDedupeMaxSize :: nat where "eventDedupeMaxSize = 1024"

definition newEventDedupe :: recent where "newEventDedupe = []"

definition dedupe_key :: "string \<Rightarrow> string \<Rightarrow> string \<Rightarrow> string" where
  "dedupe_key uid reason msg = uid @ ''|'' @ reason @ ''|'' @ msg"

text \<open>The scan for the oldest entry, from the entry seen so far.\<close>

fun oldest_from :: "string \<times> int \<Rightarrow> recent \<Rightarrow> string \<times> int" where
  "oldest_from old [] = old"
| "oldest_from old (e # d) = oldest_from (if snd e < snd old then e else old) d"

definition evict_oldest :: "recent \<Rightarrow> recent" where
  "evict_oldest d = (case d of [] \<Rightarrow> d
     | e # d' \<Rightarrow> filter (\<lambda>p. fst p \<noteq> fst (oldest_from e d')) d)"

text \<open>The map after an admitted event, or nothing when the event is collapsed.\<close>

definition dedupe_admit :: "int \<Rightarrow> string \<Rightarrow> recent \<Rightarrow> recent option" where
  "dedupe_admit now k d =
     (if (case map_of d k of Some t \<Rightarrow> now - t < eventDedupeTTL | None \<Rightarrow> False) then None
      else Some (AList.update k now (if length d \<ge> eventDedupeMaxSize then evict_oldest d else d)))"

record 'w source_base =
  sb_recorder :: "'w safe_recorder"
  sb_now :: "('w, int) op"
  sb_recent :: "'w \<Rightarrow> recent"
  sb_put_recent :: "recent \<Rightarrow> 'w \<Rightarrow> 'w"

definition dedupe_emit ::
  "('w, 'b) source_base_scheme \<Rightarrow> meta \<Rightarrow> event_type \<Rightarrow> string \<Rightarrow> string \<Rightarrow> 'w \<Rightarrow> 'w" where
  "dedupe_emit b target etype reason msg w =
     (case sb_recorder b of
        None \<Rightarrow> w
      | Some rec \<Rightarrow>
          let (now, w1) = sb_now b w in
          (case dedupe_admit now (dedupe_key (m_uid target) reason msg) (sb_recent b w1) of
             None \<Rightarrow> w1
           | Some d \<Rightarrow>
               safe_Event (Some rec) \<lparr>ev_object = key_of target, ev_type = etype, ev_reason = reason,
                 ev_message = msg\<rparr> (sb_put_recent b d w1)))"

text \<open>\<open>sourceBase.ensure\<close>: the recorder is wrapped once, before the first use.\<close>

definition ensure :: "(event \<Rightarrow> 'w \<Rightarrow> 'w) option \<Rightarrow> ('w, 'b) source_base_scheme \<Rightarrow> ('w, 'b) source_base_scheme" where
  "ensure rec b = (if sb_recorder b = None then b\<lparr>sb_recorder := NewSafeRecorder rec\<rparr> else b)"

section \<open>The bounded map\<close>

lemma oldest_from_in: "oldest_from e d \<in> set (e # d)"
  by (induction d arbitrary: e) (auto split: if_splits)

lemma oldest_from_least: "p \<in> set (e # d) \<Longrightarrow> snd (oldest_from e d) \<le> snd p"
proof (induction d arbitrary: e p)
  case (Cons x d)
  show ?case
  proof (cases "p \<in> set d")
    case True
    then show ?thesis using Cons.IH by simp
  next
    case False
    let ?m = "if snd x < snd e then x else e"
    have "snd (oldest_from ?m d) \<le> snd ?m" by (rule Cons.IH) simp
    then show ?thesis using Cons.prems False by (auto split: if_splits)
  qed
qed simp

lemma evict_oldest_facts:
  assumes "d \<noteq> []" and "distinct (map fst d)"
  obtains k t where "(k, t) \<in> set d" "\<forall>p\<in>set d. t \<le> snd p"
    "evict_oldest d = filter (\<lambda>p. fst p \<noteq> k) d" "length (evict_oldest d) < length d"
proof -
  obtain e d' where d: "d = e # d'" using assms(1) by (cases d) auto
  obtain k t where o: "oldest_from e d' = (k, t)" by fastforce
  have ev: "evict_oldest d = filter (\<lambda>p. fst p \<noteq> k) d" by (simp add: evict_oldest_def d o)
  have m: "(k, t) \<in> set d" using oldest_from_in[of e d'] o d by simp
  have "\<forall>p\<in>set d. t \<le> snd p" using oldest_from_least[of _ e d'] o d by fastforce
  moreover have "length (evict_oldest d) < length d"
    unfolding ev using m by (auto intro!: length_filter_less)
  ultimately show thesis using that m ev by blast
qed

lemma length_update_le: "length (AList.update k v d) \<le> Suc (length d)"
  by (induction d) auto

lemma distinct_filter_fst: "distinct (map fst d) \<Longrightarrow> distinct (map fst (filter P d))"
  by (induction d) auto

lemma map_of_filter_other:
  "distinct (map fst d) \<Longrightarrow> (k', t) \<in> set (filter (\<lambda>p. fst p \<noteq> k) d) \<longleftrightarrow> (k', t) \<in> set d \<and> k' \<noteq> k"
  by auto

lemma in_update: "(k', t) \<in> set (AList.update k v d) \<Longrightarrow> (k', t) = (k, v) \<or> (k', t) \<in> set d"
  by (induction d) (auto split: if_splits)

lemma update_keeps: "(k', t) \<in> set d \<Longrightarrow> k' \<noteq> k \<Longrightarrow> (k', t) \<in> set (AList.update k v d)"
  by (induction d) auto

lemma update_has: "(k, v) \<in> set (AList.update k v d)"
  by (induction d) auto

section \<open>Every history of the map\<close>

text \<open>
  \<open>dedupe_run now d log\<close>: a map \<open>d\<close> reached at time \<open>now\<close>, and the events recorded on the way,
  latest first. The clock does not run backwards, and the runtime may visit the map in another
  order at any time.
\<close>

inductive dedupe_run :: "int \<Rightarrow> recent \<Rightarrow> (int \<times> string) list \<Rightarrow> bool" where
  start: "dedupe_run now newEventDedupe []"
| reorder: "dedupe_run now d log \<Longrightarrow> mset d' = mset d \<Longrightarrow> dedupe_run now d' log"
| recorded: "dedupe_run now d log \<Longrightarrow> now \<le> now' \<Longrightarrow> dedupe_admit now' k d = Some d'
    \<Longrightarrow> dedupe_run now' d' ((now', k) # log)"
| collapse: "dedupe_run now d log \<Longrightarrow> now \<le> now' \<Longrightarrow> dedupe_admit now' k d = None
    \<Longrightarrow> dedupe_run now' d log"

inductive_cases dedupe_run_recordE: "dedupe_run now d ((t, k) # log)"

text \<open>The records made at or after a time.\<close>

definition since :: "int \<Rightarrow> (int \<times> string) list \<Rightarrow> (int \<times> string) set" where
  "since t log = {e \<in> set log. t \<le> fst e}"

lemma since_Cons: "since t log \<subseteq> since t (e # log)" and finite_since [simp]: "finite (since t log)"
  by (auto simp: since_def)

text \<open>What holds of every reachable map: at most 1024 keys, each with the time of a record; and
  a record is still remembered, under its own or a later time, unless 1024 records are as late.\<close>

definition dedupe_inv :: "int \<Rightarrow> recent \<Rightarrow> (int \<times> string) list \<Rightarrow> bool" where
  "dedupe_inv now d log \<longleftrightarrow>
     distinct (map fst d) \<and> length d \<le> eventDedupeMaxSize \<and>
     (\<forall>(k, t)\<in>set d. (t, k) \<in> set log \<and> t \<le> now) \<and>
     (\<forall>(t, k)\<in>set log. t \<le> now \<and>
        ((\<exists>t'. (k, t') \<in> set d \<and> t \<le> t') \<or> eventDedupeMaxSize \<le> card (since t log)))"

lemma dedupe_inv_full:
  assumes "distinct (map fst d)" and "\<forall>(k, t)\<in>set d. (t, k) \<in> set log" and "\<forall>p\<in>set d. s \<le> snd p"
  shows "length d \<le> card (since s log)"
proof -
  have "length d = card (set d)" using assms(1) by (simp add: distinct_card distinct_map)
  also have "\<dots> = card ((\<lambda>(k, t). (t, k)) ` set d)"
    by (rule card_image[symmetric]) (auto simp: inj_on_def)
  also have "\<dots> \<le> card (since s log)"
    by (rule card_mono) (use assms(2,3) in \<open>auto simp: since_def\<close>)
  finally show ?thesis .
qed

lemma dedupe_inv_record:
  assumes inv: "dedupe_inv now d log" and le: "now \<le> now'" and ad: "dedupe_admit now' k d = Some d'"
  shows "dedupe_inv now' d' ((now', k) # log)"
proof -
  let ?log = "(now', k) # log"
  let ?full = "length d \<ge> eventDedupeMaxSize"
  let ?e = "if ?full then evict_oldest d else d"
  have d': "d' = AList.update k now' ?e" using ad by (auto simp: dedupe_admit_def split: if_splits)
  have dist: "distinct (map fst d)" and len: "length d \<le> eventDedupeMaxSize"
    and inlog: "\<And>k t. (k, t) \<in> set d \<Longrightarrow> (t, k) \<in> set log \<and> t \<le> now"
    and kept: "\<And>t k. (t, k) \<in> set log \<Longrightarrow> t \<le> now \<and>
        ((\<exists>t'. (k, t') \<in> set d \<and> t \<le> t') \<or> eventDedupeMaxSize \<le> card (since t log))"
    using inv by (auto simp: dedupe_inv_def)
  have pos: "d \<noteq> []" if ?full using that by (auto simp: eventDedupeMaxSize_def)
  have "\<exists>x s. ?full \<longrightarrow> (x, s) \<in> set d \<and> (\<forall>p\<in>set d. s \<le> snd p) \<and>
      evict_oldest d = filter (\<lambda>p. fst p \<noteq> x) d \<and> length (evict_oldest d) < length d"
  proof (cases ?full)
    case True
    from evict_oldest_facts[OF pos[OF True] dist] show ?thesis by metis
  qed simp
  then obtain x s where x: "?full \<Longrightarrow> (x, s) \<in> set d \<and> (\<forall>p\<in>set d. s \<le> snd p) \<and>
      ?e = filter (\<lambda>p. fst p \<noteq> x) d \<and> length ?e < length d"
    by auto
  have e: "set ?e \<subseteq> set d \<and> distinct (map fst ?e) \<and> length ?e < eventDedupeMaxSize"
  proof (cases ?full)
    case True
    from x[OF True] have "?e = filter (\<lambda>p. fst p \<noteq> x) d" and "length ?e < length d" by blast+
    then show ?thesis using dist len distinct_filter_fst[of d] by auto
  next
    case False
    then show ?thesis using dist by simp
  qed
  then have sub: "set ?e \<subseteq> set d" by blast
  have 1: "distinct (map fst d')" using e by (simp add: d' distinct_update)
  have "length ?e < eventDedupeMaxSize" using e by blast
  then have 2: "length d' \<le> eventDedupeMaxSize" using length_update_le[of k now' ?e] unfolding d' by linarith
  have 3: "(t, k') \<in> set ?log \<and> t \<le> now'" if "(k', t) \<in> set d'" for k' t
  proof (cases "(k', t) = (k, now')")
    case False
    then have "(k', t) \<in> set d" using in_update[of k' t k now' ?e] that sub unfolding d' by blast
    then show ?thesis using inlog[of k' t] le by simp
  qed simp
  have 4: "t \<le> now' \<and> ((\<exists>t'. (k', t') \<in> set d' \<and> t \<le> t') \<or> eventDedupeMaxSize \<le> card (since t ?log))"
    if "(t, k') \<in> set ?log" for t k'
  proof (cases "k' = k")
    case True
    then show ?thesis using that kept le update_has[of k now' ?e] unfolding d' by fastforce
  next
    case False
    then have old: "(t, k') \<in> set log" using that by simp
    have mono: "card (since t log) \<le> card (since t ?log)" by (intro card_mono since_Cons) simp
    from kept[OF old] consider (gone) "eventDedupeMaxSize \<le> card (since t log)"
      | (held) t' where "(k', t') \<in> set d" "t \<le> t'" by blast
    then show ?thesis
    proof cases
      case gone
      then show ?thesis using mono kept[OF old] le by simp
    next
      case held
      show ?thesis
      proof (cases "(k', t') \<in> set ?e")
        case True
        then show ?thesis using held update_keeps[OF True False] kept[OF old] le unfolding d' by fastforce
      next
        case out: False
        then have full: ?full using held by (auto split: if_splits)
        then have "k' = x" using out held x by auto
        then have "t' = s" using held x[OF full] dist by (meson eq_key_imp_eq_value)
        then have "\<forall>p\<in>set d. t \<le> snd p" using x[OF full] held by fastforce
        then have "length d \<le> card (since t log)" using dedupe_inv_full[OF dist] inlog by blast
        then show ?thesis using full mono kept[OF old] le by simp
      qed
    qed
  qed
  show ?thesis using 1 2 3 4 unfolding dedupe_inv_def by blast
qed

lemma dedupe_run_inv: "dedupe_run now d log \<Longrightarrow> dedupe_inv now d log"
proof (induction rule: dedupe_run.induct)
  case (start now)
  then show ?case by (simp add: dedupe_inv_def newEventDedupe_def)
next
  case (reorder now d log d')
  have "set d' = set d" "length d' = length d" "mset (map fst d') = mset (map fst d)"
    using reorder.hyps(2) by (auto dest: mset_eq_setD mset_eq_length)
  moreover have "distinct (map fst d') = distinct (map fst d)"
    using calculation(3) by (metis mset_eq_imp_distinct_iff)
  ultimately show ?case using reorder.IH by (simp add: dedupe_inv_def)
next
  case (recorded now d log now' k d')
  then show ?case using dedupe_inv_record by blast
next
  case (collapse now d log now' k)
  then show ?case unfolding dedupe_inv_def by fastforce
qed

text \<open>C30: in every history of the event map, under every order in which the runtime visits it, the
  map holds at most 1024 keys, no key twice; and an event is recorded again within an hour of one
  of its earlier records only when at least 1024 events were recorded since that record.\<close>

theorem dedupe_window:
  assumes "dedupe_run now d log"
  shows "length d \<le> 1024 \<and> distinct (map fst d) \<and>
    (\<forall>now' k t. now \<le> now' \<longrightarrow> dedupe_admit now' k d \<noteq> None \<longrightarrow> (t, k) \<in> set log \<longrightarrow>
       now' - t < 60 * minute \<longrightarrow> 1024 \<le> card (since t log))"
proof -
  note inv = dedupe_run_inv[OF assms]
  have "1024 \<le> card (since t log)"
    if ad: "dedupe_admit now' k d \<noteq> None" and old: "(t, k) \<in> set log" and "now' - t < 60 * minute"
    for now' k t
  proof (rule ccontr)
    assume "\<not> 1024 \<le> card (since t log)"
    then obtain t' where t': "(k, t') \<in> set d" "t \<le> t'"
      using inv old by (fastforce simp: dedupe_inv_def eventDedupeMaxSize_def)
    then have "map_of d k = Some t'" using inv by (auto simp: dedupe_inv_def)
    then show False using that t'(2) by (simp add: dedupe_admit_def eventDedupeTTL_def split: if_splits)
  qed
  then show ?thesis using inv by (auto simp: dedupe_inv_def eventDedupeMaxSize_def)
qed

theorem dedupe_window_witness:
  "dedupe_run 7 [(''u|R|m'', 5)] [(5, ''u|R|m'')] \<and> length [(''u|R|m'', 5 :: int)] \<le> 1024"
proof -
  have "dedupe_admit 5 ''u|R|m'' newEventDedupe = Some [(''u|R|m'', 5)]"
    by (simp add: dedupe_admit_def newEventDedupe_def eventDedupeMaxSize_def)
  then have "dedupe_run 5 [(''u|R|m'', 5)] [(5, ''u|R|m'')]"
    using dedupe_run.recorded[OF dedupe_run.start, of 0 5] by simp
  moreover have "dedupe_admit 7 ''u|R|m'' [(''u|R|m'', 5)] = None"
    by (simp add: dedupe_admit_def eventDedupeTTL_def minute_def second_def)
  ultimately have run: "dedupe_run 7 [(''u|R|m'', 5)] [(5, ''u|R|m'')]"
    using dedupe_run.collapse[of 5 _ _ 7] by simp
  then show ?thesis using dedupe_window[OF run] by simp
qed

section \<open>Event sinks\<close>

text \<open>
  What the source controllers rely on when they emit an event: whatever they emit, a quiet
  observation of the cluster is the same before and after.
\<close>

locale event_sink =
  fixes emit :: "string \<Rightarrow> string \<Rightarrow> 'w \<Rightarrow> 'w"
    and quiet :: "('w \<Rightarrow> 'o) \<Rightarrow> bool"
  assumes emit_quiet: "quiet obs \<Longrightarrow> obs (emit reason msg w) = obs w"

definition base_frame :: "('w, 'b) source_base_scheme \<Rightarrow> ('w \<Rightarrow> 'o) \<Rightarrow> bool" where
  "base_frame b obs \<longleftrightarrow>
     (\<forall>w. obs (snd (sb_now b w)) = obs w) \<and> (\<forall>d w. obs (sb_put_recent b d w) = obs w) \<and>
     (\<forall>rec e w. sb_recorder b = Some (Some rec) \<longrightarrow> obs (rec e w) = obs w)"

lemma dedupe_emit_frame:
  assumes "base_frame b obs"
  shows "obs (dedupe_emit b m t rs msg w) = obs w"
proof -
  obtain now w1 where n: "sb_now b w = (now, w1)" by fastforce
  then have "obs w1 = obs w" using assms unfolding base_frame_def by (metis snd_conv)
  then show ?thesis using assms n
    by (auto simp: dedupe_emit_def safe_Event_def base_frame_def split: option.splits)
qed

interpretation dedupe_sink: event_sink "dedupe_emit b m t" "base_frame b" for b m t
  by unfold_locales (rule dedupe_emit_frame)

section \<open>Redaction\<close>

text \<open>A token prints as a fixed text on every formatting path; only \<open>Expose\<close> gives the plaintext.\<close>

datatype secret = Secret string

fun Expose :: "secret \<Rightarrow> string" where "Expose (Secret s) = s"

fun secret_String :: "secret \<Rightarrow> string" where "secret_String (Secret s) = ''[REDACTED]''"

fun secret_GoString :: "secret \<Rightarrow> string" where "secret_GoString (Secret s) = ''[REDACTED]''"

fun secret_MarshalText :: "secret \<Rightarrow> string" where "secret_MarshalText (Secret s) = ''[REDACTED]''"

fun secret_MarshalJSON :: "secret \<Rightarrow> string" where
  "secret_MarshalJSON (Secret s) = [CHR 0x22] @ ''[REDACTED]'' @ [CHR 0x22]"

end
