(* ===== verification/SourceTarget.thy ===== *)
theory SourceTarget
  imports SourceEvents TunnelModel
begin

text \<open>
  \<open>source_target.go\<close>: the tunnel and the agent a source (a Service, a Gateway or an HTTPRoute)
  contributes to, and the watch functions that queue the sources again when a tunnel or an agent
  changes. The three source reconcilers share one record of client operations; reads of the
  uncached reader have their own field.
\<close>

section \<open>The reconcilers' environment\<close>

record 'w source_reconciler = "'w source_base" +
  sr_get_agent :: "nn \<Rightarrow> ('w, goerr + towonel_agent) op"
  sr_get_agent_live :: "nn \<Rightarrow> ('w, goerr + towonel_agent) op"
  sr_list_agents :: "('w, goerr + towonel_agent list) op"
  sr_list_agents_labelled :: "string \<times> string \<Rightarrow> ('w, goerr + towonel_agent list) op"
  sr_create_agent :: "towonel_agent \<Rightarrow> ('w, goerr + towonel_agent) op"
  sr_apply_agent :: "json \<Rightarrow> string \<Rightarrow> ('w, goerr option) op"
  sr_delete_agent :: "nn \<Rightarrow> string \<Rightarrow> ('w, goerr option) op"
  sr_list_tunnels :: "('w, goerr + towonel_tunnel list) op"
  sr_get_service :: "nn \<Rightarrow> ('w, goerr + service_obj) op"
  sr_get_gateway :: "nn \<Rightarrow> ('w, goerr + gateway) op"
  sr_get_route :: "nn \<Rightarrow> ('w, goerr + http_route) op"
  sr_list_services :: "('w, goerr + service_obj list) op"
  sr_list_gateways :: "('w, goerr + gateway list) op"
  sr_list_routes :: "('w, goerr + http_route list) op"
  sr_range :: "'w \<Rightarrow> string list \<Rightarrow> string list"
  sr_agentNamespace :: string
  sr_defaultReplicas :: "int option"

type_synonym 'w emitter = "string \<Rightarrow> string \<Rightarrow> 'w \<Rightarrow> 'w"

section \<open>Agents\<close>

text \<open>The agent a source works on and how: contribute, only validate, or nothing.\<close>

datatype target = TargetWrite towonel_agent | TargetObserve towonel_agent | TargetSkip

definition agentIsOperatorOwned :: "towonel_agent \<Rightarrow> bool" where
  "agentIsOperatorOwned ta \<longleftrightarrow> mget (m_labels (ta_meta ta)) LabelManagedBy = ManagedByValue"

definition agentMode :: "towonel_agent \<Rightarrow> string" where
  "agentMode ta = cmp_or (ag_mode (ta_spec ta)) ModeManaged"

section \<open>Tunnel references\<close>

definition parseTunnelRef :: "string \<Rightarrow> string \<Rightarrow> goerr + nn" where
  "parseTunnelRef raw0 srcNS =
     (let raw = trim_space raw0 in
      if raw = [] then Inl (PlainError ''empty tunnel-ref'')
      else (case cut raw ''/'' of
         Some (ns, name) \<Rightarrow>
           if ns = [] \<or> name = [] then Inl (PlainError (''malformed tunnel-ref '' @ quote raw))
           else Inr (ns, name)
       | None \<Rightarrow> Inr (srcNS, raw)))"

text \<open>The resolved tunnel, nothing after an event has told why, or a failed list.\<close>

definition resolveTunnel ::
  "('w, 'b) source_reconciler_scheme \<Rightarrow> 'w emitter \<Rightarrow> string \<Rightarrow> string \<Rightarrow> ('w, goerr + nn option) op" where
  "resolveTunnel r emit raw srcNS w =
     (if trim_space raw \<noteq> [] then
        (case parseTunnelRef raw srcNS of
           Inl e \<Rightarrow> (Inr None, emit ReasonTunnelRefMissing (err_text e) w)
         | Inr k \<Rightarrow> (Inr (Some k), w))
      else (case sr_list_tunnels r w of
         (Inl e, w1) \<Rightarrow> (Inl e, w1)
       | (Inr items, w1) \<Rightarrow>
           (case items of
              [t] \<Rightarrow> (Inr (Some (key_of (tt_meta t))), w1)
            | _ \<Rightarrow> (Inr None, emit ReasonTunnelRefMissing
                 (''no '' @ AnnotationTunnelRef @ '' set and '' @ itoa (int (length items)) @
                  '' TowonelTunnels exist'') w1))))"

definition agentNamespaceFor :: "string \<Rightarrow> nn \<Rightarrow> string" where
  "agentNamespaceFor configured tunnel = cmp_or configured (fst tunnel)"

definition sourceTargetsAgent :: "strmap \<Rightarrow> string \<Rightarrow> string \<Rightarrow> towonel_agent \<Rightarrow> bool" where
  "sourceTargetsAgent ann srcNS agentNSConfig ta =
     (let agentRef = mget ann AnnotationAgentRef in
      if agentRef = [] \<or> agentRef \<noteq> m_name (ta_meta ta) then False
      else (case parseTunnelRef (mget ann AnnotationTunnelRef) srcNS of
         Inl e \<Rightarrow> False
       | Inr tunnel \<Rightarrow> agentNamespaceFor agentNSConfig tunnel = m_ns (ta_meta ta)))"

definition sourceTargetsTunnel :: "strmap \<Rightarrow> string \<Rightarrow> nn \<Rightarrow> bool" where
  "sourceTargetsTunnel ann srcNS tunnelNN =
     (let raw = mget ann AnnotationTunnelRef in
      if trim_space raw \<noteq> [] then
        (case parseTunnelRef raw srcNS of Inl e \<Rightarrow> False | Inr k \<Rightarrow> k = tunnelNN)
      else True)"

section \<open>The default agent\<close>

definition default_agent :: "string \<Rightarrow> int option \<Rightarrow> nn \<Rightarrow> towonel_agent" where
  "default_agent agentNS replicas tunnel =
     \<lparr>ta_meta = (new_meta agentNS (defaultAgentName (fst tunnel) (snd tunnel)))
        \<lparr>m_labels := [(LabelManagedBy, ManagedByValue), (LabelPartOf, PartOfValue)],
         m_annotations := [(AnnotationAutoCreated, ''true'')]\<rparr>,
      ta_spec = zero_agent_spec
        \<lparr>ag_mode := ModeManaged,
         ag_tunnelRef := \<lparr>tr_name = snd tunnel, tr_namespace = fst tunnel\<rparr>,
         ag_workload := zero_workload\<lparr>wl_replicas := replicas\<rparr>\<rparr>,
      ta_status = zero_agent_status\<rparr>"

definition owned_default :: "towonel_agent \<Rightarrow> goerr + towonel_agent" where
  "owned_default ta = (if \<not> agentIsOperatorOwned ta then Inl (Sentinel ErrDefaultAgentNameClash) else Inr ta)"

definition ensureDefaultAgent ::
  "('w, 'b) source_reconciler_scheme \<Rightarrow> string \<Rightarrow> int option \<Rightarrow> nn \<Rightarrow> ('w, goerr + towonel_agent) op" where
  "ensureDefaultAgent r agentNS replicas tunnel w =
     (let key = (agentNS, defaultAgentName (fst tunnel) (snd tunnel)) in
      case sr_get_agent r key w of
        (Inr existing, w1) \<Rightarrow> (owned_default existing, w1)
      | (Inl e, w1) \<Rightarrow>
          if \<not> is_not_found e then (Inl e, w1)
          else (case sr_create_agent r (default_agent agentNS replicas tunnel) w1 of
             (Inr ta, w2) \<Rightarrow> (Inr ta, w2)
           | (Inl e2, w2) \<Rightarrow>
               if is_already_exists e2 then
                 (case sr_get_agent r key w2 of
                    (Inl e3, w3) \<Rightarrow> (Inl e3, w3)
                  | (Inr existing, w3) \<Rightarrow> (owned_default existing, w3))
               else (Inl e2, w2)))"

definition resolveTarget ::
  "('w, 'b) source_reconciler_scheme \<Rightarrow> 'w emitter \<Rightarrow> string \<Rightarrow> int option \<Rightarrow> nn \<Rightarrow> string
     \<Rightarrow> ('w, goerr + target) op" where
  "resolveTarget r emit agentNSConfig replicas tunnel agentRef w =
     (let agentNS = agentNamespaceFor agentNSConfig tunnel in
      if agentRef = [] then
        (case ensureDefaultAgent r agentNS replicas tunnel w of
           (Inl e, w1) \<Rightarrow>
             if errors_is e ErrDefaultAgentNameClash
             then (Inr TargetSkip, emit ReasonDefaultAgentClash (err_text e) w1)
             else (Inl e, w1)
         | (Inr ta, w1) \<Rightarrow> (Inr (TargetWrite ta), w1))
      else (case sr_get_agent r (agentNS, agentRef) w of
         (Inl e, w1) \<Rightarrow>
           if is_not_found e
           then (Inr TargetSkip, emit ReasonAgentRefNotFound
             (''agent-ref '' @ quote agentRef @ '' not found in namespace '' @ quote agentNS @
              '' (agents are never auto-created via agent-ref)'') w1)
           else (Inl e, w1)
       | (Inr ta, w1) \<Rightarrow>
           if agentMode ta = ModeObserveOnly then (Inr (TargetObserve ta), w1)
           else if resolvedTunnelRef ta \<noteq> tunnel
           then (Inr TargetSkip, emit ReasonAgentRefConflict
             (''agent-ref '' @ quote agentRef @ '' targets tunnel '' @ nn_str (resolvedTunnelRef ta) @
              '', not '' @ nn_str tunnel) w1)
           else (Inr (TargetWrite ta), w1)))"

section \<open>Watches\<close>

text \<open>The list of one source kind is read through its metadata; a failed list queues nothing.\<close>

definition list_meta :: "('a \<Rightarrow> meta) \<Rightarrow> ('w, goerr + 'a list) op \<Rightarrow> ('w, goerr + meta list) op" where
  "list_meta f l w = (case l w of (Inl e, w1) \<Rightarrow> (Inl e, w1) | (Inr xs, w1) \<Rightarrow> (Inr (map f xs), w1))"

definition optedSourceRequests ::
  "('w, goerr + meta list) op \<Rightarrow> (meta \<Rightarrow> bool) \<Rightarrow> ('w, goerr + nn list) op" where
  "optedSourceRequests l match w = (case l w of
     (Inl e, w1) \<Rightarrow> (Inl e, w1)
   | (Inr items, w1) \<Rightarrow>
       (Inr (map key_of (filter (\<lambda>m. has_key (m_annotations m) AnnotationTunnel \<and> match m) items)), w1))"

definition agentSourceRequests ::
  "('w, goerr + meta list) op \<Rightarrow> string \<Rightarrow> towonel_agent \<Rightarrow> ('w, nn list) op" where
  "agentSourceRequests l agentNSConfig ta w =
     (case optedSourceRequests l (\<lambda>m. sourceTargetsAgent (m_annotations m) (m_ns m) agentNSConfig ta) w of
        (Inl e, w1) \<Rightarrow> ([], w1) | (Inr reqs, w1) \<Rightarrow> (reqs, w1))"

definition tunnelSourceRequests ::
  "('w, goerr + meta list) op \<Rightarrow> towonel_tunnel \<Rightarrow> ('w, nn list) op" where
  "tunnelSourceRequests l tunnel w =
     (case optedSourceRequests l (\<lambda>m. sourceTargetsTunnel (m_annotations m) (m_ns m) (key_of (tt_meta tunnel))) w of
        (Inl e, w1) \<Rightarrow> ([], w1) | (Inr reqs, w1) \<Rightarrow> (reqs, w1))"

section \<open>A cluster with a few agents, for the witnesses\<close>

definition agents_source :: "towonel_agent list \<Rightarrow> 'w source_reconciler" where
  "agents_source as = \<lparr>sb_recorder = Some None, sb_now = (\<lambda>w. (0, w)), sb_recent = (\<lambda>w. []),
     sb_put_recent = (\<lambda>d w. w),
     sr_get_agent = (\<lambda>k w. (case find (\<lambda>ta. key_of (ta_meta ta) = k) as of
        Some ta \<Rightarrow> Inr ta | None \<Rightarrow> Inl (KubeError RNotFound ''not found''), w)),
     sr_get_agent_live = (\<lambda>k w. (case find (\<lambda>ta. key_of (ta_meta ta) = k) as of
        Some ta \<Rightarrow> Inr ta | None \<Rightarrow> Inl (KubeError RNotFound ''not found''), w)),
     sr_list_agents = (\<lambda>w. (Inr as, w)), sr_list_agents_labelled = (\<lambda>l w. (Inr as, w)),
     sr_create_agent = (\<lambda>ta w. (Inr ta, w)), sr_apply_agent = (\<lambda>u m w. (None, w)),
     sr_delete_agent = (\<lambda>k rv w. (None, w)), sr_list_tunnels = (\<lambda>w. (Inr [], w)),
     sr_get_service = (\<lambda>k w. (Inl (KubeError RNotFound ''not found''), w)),
     sr_get_gateway = (\<lambda>k w. (Inl (KubeError RNotFound ''not found''), w)),
     sr_get_route = (\<lambda>k w. (Inl (KubeError RNotFound ''not found''), w)),
     sr_list_services = (\<lambda>w. (Inr [], w)), sr_list_gateways = (\<lambda>w. (Inr [], w)),
     sr_list_routes = (\<lambda>w. (Inr [], w)), sr_range = (\<lambda>w ks. ks),
     sr_agentNamespace = [], sr_defaultReplicas = None\<rparr>"

definition bound_agent :: "string \<Rightarrow> string \<Rightarrow> nn \<Rightarrow> towonel_agent" where
  "bound_agent ns name tunnel =
     (let ta = new_agent ns name
      in ta\<lparr>ta_spec := (ta_spec ta)\<lparr>ag_tunnelRef := \<lparr>tr_name = snd tunnel, tr_namespace = fst tunnel\<rparr>\<rparr>\<rparr>)"

section \<open>References\<close>

lemma parseTunnelRef_qualified:
  assumes "list_all plain_char (ns @ name)" and "ns \<noteq> []" and "name \<noteq> []" and "CHR ''/'' \<notin> set ns"
  shows "parseTunnelRef (nn_str (ns, name)) src = Inr (ns, name)"
proof -
  have "trim_space (ns @ CHR ''/'' # name) = ns @ CHR ''/'' # name"
    using assms(1) by (intro trim_space_plain) (simp add: plain_char_def)
  then show ?thesis using assms by (simp add: parseTunnelRef_def nn_str_def)
qed

lemma parseTunnelRef_bare:
  assumes "list_all plain_char name" and "name \<noteq> []" and "CHR ''/'' \<notin> set name"
  shows "parseTunnelRef name src = Inr (src, name)"
proof -
  have "cut name ''/'' = None" using assms(3) by simp
  show ?thesis using assms by (simp add: parseTunnelRef_def \<open>cut name ''/'' = None\<close>)
qed

text \<open>A parsed reference never names an empty namespace or tunnel, unless the source's own
  namespace is empty.\<close>

lemma parseTunnelRef_nonempty:
  "parseTunnelRef raw src = Inr (ns, name) \<Longrightarrow> name \<noteq> [] \<and> (ns = [] \<longrightarrow> src = [])"
  by (auto simp: parseTunnelRef_def Let_def split: option.splits if_splits)

lemma parseTunnelRef_blank: "trim_space raw = [] \<Longrightarrow> parseTunnelRef raw src = Inl (PlainError ''empty tunnel-ref'')"
  by (simp add: parseTunnelRef_def)

section \<open>Frames\<close>

text \<open>Reads of the API server and of the clock leave an observation alone.\<close>

definition source_reads :: "('w, 'b) source_reconciler_scheme \<Rightarrow> ('w \<Rightarrow> 'o) \<Rightarrow> bool" where
  "source_reads r obs \<longleftrightarrow> base_frame r obs \<and>
     (\<forall>k w. obs (snd (sr_get_agent r k w)) = obs w) \<and> (\<forall>k w. obs (snd (sr_get_agent_live r k w)) = obs w) \<and>
     (\<forall>w. obs (snd (sr_list_agents r w)) = obs w) \<and> (\<forall>l w. obs (snd (sr_list_agents_labelled r l w)) = obs w) \<and>
     (\<forall>w. obs (snd (sr_list_tunnels r w)) = obs w) \<and> (\<forall>k w. obs (snd (sr_get_service r k w)) = obs w) \<and>
     (\<forall>k w. obs (snd (sr_get_gateway r k w)) = obs w) \<and> (\<forall>k w. obs (snd (sr_get_route r k w)) = obs w)"

lemma source_reads_run:
  assumes "source_reads r obs"
  shows "sr_get_agent r k w = (x1, w1) \<Longrightarrow> obs w1 = obs w"
    and "sr_get_agent_live r k w = (x2, w1) \<Longrightarrow> obs w1 = obs w"
    and "sr_list_agents r w = (x3, w1) \<Longrightarrow> obs w1 = obs w"
    and "sr_list_agents_labelled r l w = (x4, w1) \<Longrightarrow> obs w1 = obs w"
    and "sr_list_tunnels r w = (x5, w1) \<Longrightarrow> obs w1 = obs w"
    and "sr_get_service r k w = (x6, w1) \<Longrightarrow> obs w1 = obs w"
    and "sr_get_gateway r k w = (x7, w1) \<Longrightarrow> obs w1 = obs w"
    and "sr_get_route r k w = (x8, w1) \<Longrightarrow> obs w1 = obs w"
  using assms unfolding source_reads_def by (metis snd_conv)+

lemma source_reads_base: "source_reads r obs \<Longrightarrow> base_frame r obs"
  by (simp add: source_reads_def)

text \<open>Creating the default agent leaves an observation alone.\<close>

definition create_frame :: "('w, 'b) source_reconciler_scheme \<Rightarrow> ('w \<Rightarrow> 'o) \<Rightarrow> bool" where
  "create_frame r obs \<longleftrightarrow>
     (\<forall>ns n tun w x w'. sr_create_agent r (default_agent ns n tun) w = (x, w') \<longrightarrow> obs w' = obs w)"

lemma create_frame_run:
  "create_frame r obs \<Longrightarrow> sr_create_agent r (default_agent ns n tun) w = (x, w') \<Longrightarrow> obs w' = obs w"
  by (cases tun) (simp add: create_frame_def)

lemma ensureDefaultAgent_frame:
  assumes "source_reads r obs" and "create_frame r obs"
    and "ensureDefaultAgent r ns n tun w = (res, w')"
  shows "obs w' = obs w"
  using assms(3)
  by (auto simp: ensureDefaultAgent_def Let_def
      dest!: create_frame_run[OF assms(2)] source_reads_run(1)[OF assms(1)]
      split: sum.splits prod.splits if_splits)

context event_sink
begin

lemma resolveTunnel_quiet:
  assumes "quiet obs" and "source_reads r obs" and "resolveTunnel r emit raw ns w = (res, w')"
  shows "obs w' = obs w"
  using assms(3) source_reads_run(5)[OF assms(2)] emit_quiet[OF assms(1)]
  by (auto simp: resolveTunnel_def split: sum.splits prod.splits if_splits list.splits)

lemma resolveTarget_quiet:
  assumes "quiet obs" and "source_reads r obs" and "create_frame r obs"
    and "resolveTarget r emit cfg n tun ref w = (res, w')"
  shows "obs w' = obs w"
  using assms(4)
  by (auto simp: resolveTarget_def Let_def emit_quiet[OF assms(1)]
      dest!: source_reads_run(1)[OF assms(2)] ensureDefaultAgent_frame[OF assms(2,3)]
      split: sum.splits prod.splits if_splits)

lemma resolveTarget_ref_quiet:
  assumes "quiet obs" and "source_reads r obs" and "ref \<noteq> []"
    and "resolveTarget r emit cfg n tun ref w = (res, w')"
  shows "obs w' = obs w"
  using assms(3,4) source_reads_run(1)[OF assms(2)] emit_quiet[OF assms(1)]
  by (auto simp: resolveTarget_def Let_def split: sum.splits prod.splits if_splits)

end

section \<open>Which agent a source may write to\<close>

text \<open>What the API server documents of the two operations: a read returns the object that was asked
  for, a create returns the object that was sent, completed by the server.\<close>

definition agent_store :: "('w, 'b) source_reconciler_scheme \<Rightarrow> bool" where
  "agent_store r \<longleftrightarrow>
     (\<forall>k w ta w'. sr_get_agent r k w = (Inr ta, w') \<longrightarrow> key_of (ta_meta ta) = k) \<and>
     (\<forall>ta w tb w'. sr_create_agent r ta w = (Inr tb, w') \<longrightarrow>
        key_of (ta_meta tb) = key_of (ta_meta ta) \<and> m_labels (ta_meta tb) = m_labels (ta_meta ta))"

lemma default_agent_owned:
  "m_labels m = m_labels (ta_meta (default_agent ns n tun)) \<Longrightarrow> mget (m_labels m) LabelManagedBy = ManagedByValue"
  by (simp add: default_agent_def)

lemma ensureDefaultAgent_owned:
  assumes "agent_store r" and "ensureDefaultAgent r ns n tun w = (Inr ta, w')"
  shows "agentIsOperatorOwned ta \<and> key_of (ta_meta ta) = (ns, defaultAgentName (fst tun) (snd tun))"
proof -
  have get: "sr_get_agent r k v = (Inr tb, v') \<Longrightarrow> key_of (ta_meta tb) = k" for k v tb v'
    using assms(1) unfolding agent_store_def by blast
  have create: "sr_create_agent r a v = (Inr tb, v') \<Longrightarrow>
      key_of (ta_meta tb) = key_of (ta_meta a) \<and> m_labels (ta_meta tb) = m_labels (ta_meta a)" for a v tb v'
    using assms(1) unfolding agent_store_def by blast
  show ?thesis using assms(2)
    by (auto simp: ensureDefaultAgent_def owned_default_def agentIsOperatorOwned_def Let_def
        dest!: get create default_agent_owned
        split: sum.splits prod.splits if_splits)
      (simp_all add: default_agent_def key_of_def new_meta_def)
qed


lemma agents_source_store: "agent_store (agents_source as)"
  by (auto simp: agent_store_def agents_source_def dest!: find_in split: option.splits)


section \<open>Which sources an event queues\<close>

text \<open>No source is lost on the tunnel watch: whatever tunnel a reconcile of an opted-in source
  resolves, an event of that tunnel queues the source, provided the list of its kind shows it.\<close>

theorem tunnelSourceRequests_complete:
  assumes "resolveTunnel r emit (mget (m_annotations m) AnnotationTunnelRef) (m_ns m) v = (Inr (Some k), v')"
    and "key_of (tt_meta tunnel) = k" and "has_key (m_annotations m) AnnotationTunnel"
    and "l w = (Inr items, w')" and "m \<in> set items"
  shows "key_of m \<in> set (fst (tunnelSourceRequests l tunnel w))"
  using assms
  by (auto simp: resolveTunnel_def tunnelSourceRequests_def optedSourceRequests_def
      sourceTargetsTunnel_def Let_def split: sum.splits prod.splits if_splits list.splits)

theorem tunnelSourceRequests_complete_witness:
  "(''app'', ''web'') \<in> set (fst (tunnelSourceRequests
     (\<lambda>w. (Inr [(new_meta ''app'' ''web'')\<lparr>m_annotations := [(AnnotationTunnel, ''true''),
        (AnnotationTunnelRef, ''prod/main'')]\<rparr>], w)) (new_tunnel ''prod'' ''main'') ()))"
proof -
  let ?m = "(new_meta ''app'' ''web'')\<lparr>m_annotations := [(AnnotationTunnel, ''true''),
        (AnnotationTunnelRef, ''prod/main'')]\<rparr>"
  have ref: "mget (m_annotations ?m) AnnotationTunnelRef = nn_str (''prod'', ''main'')"
    by (simp add: AnnotationTunnel_def AnnotationTunnelRef_def nn_str_def)
  have "parseTunnelRef (nn_str (''prod'', ''main'')) ''app'' = Inr (''prod'', ''main'')"
    by (rule parseTunnelRef_qualified) (simp_all add: plain_char_def)
  moreover have "trim_space (nn_str (''prod'', ''main'')) = nn_str (''prod'', ''main'')"
    by (rule trim_space_plain) (simp add: nn_str_def plain_char_def)
  ultimately have run: "resolveTunnel (agents_source []) (\<lambda>rs m w. w)
      (mget (m_annotations ?m) AnnotationTunnelRef) (m_ns ?m) () = (Inr (Some (''prod'', ''main'')), ())"
    unfolding ref by (simp add: resolveTunnel_def nn_str_def new_meta_def)
  show ?thesis
    using tunnelSourceRequests_complete[OF run, of "new_tunnel ''prod'' ''main''" "\<lambda>w. (Inr [?m], w)" "()" "[?m]" "()"]
    by (simp add: new_tunnel_def key_of_def new_meta_def)
qed



end
