(* ===== verification/SourceContribute.thy ===== *)
theory SourceContribute
  imports SourceTarget TunnelController
begin

text \<open>
  \<open>source_contribute.go\<close> and \<open>source_base.go\<close>: a source's routing, its server-side apply into an
  agent under the field manager of that source, its release from the other agents, the removal of
  empty auto-created agents, and the flow the three source reconcilers share. An unstructured
  object is a JSON value; an entry of a routing is the association list of its keys.
\<close>

section \<open>Routing\<close>

type_synonym entry = "(string \<times> json) list"

record routing =
  rt_services :: "entry list"
  rt_tcp :: "entry list"
  rt_udp :: "entry list"

definition no_routing :: routing where
  "no_routing = \<lparr>rt_services = [], rt_tcp = [], rt_udp = []\<rparr>"

definition routing_empty :: "routing \<Rightarrow> bool" where
  "routing_empty rt \<longleftrightarrow> rt_services rt = [] \<and> rt_tcp rt = [] \<and> rt_udp rt = []"

definition toSlice :: "entry list \<Rightarrow> json" where
  "toSlice ms = JArr (map JObj ms)"

definition newAgentApply :: "nn \<Rightarrow> entry" where
  "newAgentApply k =
     [(''apiVersion'', JStr ''towonel.io/v1alpha1''), (''kind'', JStr ''TowonelAgent''),
      (''metadata'', JObj [(''namespace'', JStr (fst k)), (''name'', JStr (snd k))])]"

definition routing_spec :: "routing \<Rightarrow> entry" where
  "routing_spec rt =
     (if rt_services rt \<noteq> [] then [(''services'', toSlice (rt_services rt))] else []) @
     (if rt_tcp rt \<noteq> [] then [(''tcp'', toSlice (rt_tcp rt))] else []) @
     (if rt_udp rt \<noteq> [] then [(''udp'', toSlice (rt_udp rt))] else [])"

definition agent_apply :: "nn \<Rightarrow> entry \<Rightarrow> json" where
  "agent_apply k spec = JObj (newAgentApply k @ (if spec \<noteq> [] then [(''spec'', JObj spec)] else []))"

definition contributeRouting ::
  "('w, 'b) source_reconciler_scheme \<Rightarrow> nn \<Rightarrow> string \<Rightarrow> routing \<Rightarrow> ('w, goerr option) op" where
  "contributeRouting r k fieldMgr rt w =
     (case sr_apply_agent r (agent_apply k (routing_spec rt)) fieldMgr w of
        (None, w1) \<Rightarrow> (None, w1)
      | (Some e, w1) \<Rightarrow>
          if is_conflict e
          then (Some (Errorf (sentinel_text ErrRoutingConflict @ '': '' @ err_text e) [Sentinel ErrRoutingConflict]), w1)
          else (Some (wrapf (''apply routing to '' @ nn_str k @ '' as '' @ fieldMgr @ '': '') e), w1))"

definition releaseRouting ::
  "('w, 'b) source_reconciler_scheme \<Rightarrow> nn \<Rightarrow> string \<Rightarrow> ('w, goerr option) op" where
  "releaseRouting r k fieldMgr w =
     (case sr_apply_agent r (agent_apply k []) fieldMgr w of
        (None, w1) \<Rightarrow> (None, w1)
      | (Some e, w1) \<Rightarrow>
          if is_not_found e then (None, w1)
          else (Some (wrapf (''release '' @ fieldMgr @ '' on '' @ nn_str k @ '': '') e), w1))"

section \<open>Managed fields\<close>

definition ownsAnyField :: "meta \<Rightarrow> string \<Rightarrow> bool" where
  "ownsAnyField m fieldMgr = list_ex (\<lambda>mf. mf_manager mf = fieldMgr \<and> mf_apply mf) (m_managed m)"

definition hasSourceManager :: "meta \<Rightarrow> bool" where
  "hasSourceManager m = list_ex (\<lambda>mf. mf_apply mf \<and> has_prefix (mf_manager mf) ''towonel-src:'') (m_managed m)"

fun release_loop ::
  "('w, 'b) source_reconciler_scheme \<Rightarrow> string \<Rightarrow> nn option \<Rightarrow> towonel_agent list \<Rightarrow> ('w, goerr option) op" where
  "release_loop r fieldMgr keep [] w = (None, w)"
| "release_loop r fieldMgr keep (a # as) w =
     (let k = key_of (ta_meta a) in
      if keep = Some k then release_loop r fieldMgr keep as w
      else if \<not> ownsAnyField (ta_meta a) fieldMgr then release_loop r fieldMgr keep as w
      else (case releaseRouting r k fieldMgr w of
         (Some e, w1) \<Rightarrow> (Some e, w1)
       | (None, w1) \<Rightarrow> release_loop r fieldMgr keep as w1))"

definition releaseFromOtherAgents ::
  "('w, 'b) source_reconciler_scheme \<Rightarrow> string \<Rightarrow> nn option \<Rightarrow> ('w, goerr option) op" where
  "releaseFromOtherAgents r fieldMgr keep w =
     (case sr_list_agents r w of
        (Inl e, w1) \<Rightarrow> (Some (wrapf ''list agents: '' e), w1)
      | (Inr as, w1) \<Rightarrow> release_loop r fieldMgr keep as w1)"

section \<open>Empty agents\<close>

definition orphanGCIfEmpty ::
  "('w, 'b) source_reconciler_scheme \<Rightarrow> nn \<Rightarrow> ('w, goerr option) op" where
  "orphanGCIfEmpty r k w =
     (case sr_get_agent_live r k w of
        (Inl e, w1) \<Rightarrow> (ignore_not_found e, w1)
      | (Inr ta, w1) \<Rightarrow>
          if mget (m_annotations (ta_meta ta)) AnnotationAutoCreated \<noteq> ''true'' then (None, w1)
          else if ag_services (ta_spec ta) \<noteq> [] \<or> ag_tcp (ta_spec ta) \<noteq> [] \<or> ag_udp (ta_spec ta) \<noteq> []
          then (None, w1)
          else if hasSourceManager (ta_meta ta) then (Some (Sentinel ErrOrphanInFlight), w1)
          else (case sr_delete_agent r (key_of (ta_meta ta)) (m_rv (ta_meta ta)) w1 of
             (None, w2) \<Rightarrow> (None, w2)
           | (Some e, w2) \<Rightarrow> ((if is_not_found e \<or> is_conflict e then None else Some e), w2)))"

section \<open>Publication\<close>

definition applyDNSRecordAnnotation ::
  "routing \<Rightarrow> strmap \<Rightarrow> 'w emitter \<Rightarrow> 'w \<Rightarrow> routing \<times> 'w" where
  "applyDNSRecordAnnotation rt ann emit w =
     (let out = rt\<lparr>rt_services := map (AList.update ''dnsRecord'' (JBool False)) (rt_services rt)\<rparr> in
      case map_of ann AnnotationDNSRecord of
        None \<Rightarrow> (rt, w)
      | Some v \<Rightarrow>
          (case ParseTruthy v of
             Inl e \<Rightarrow> (out, emit ReasonInvalidAnnotation
               (AnnotationDNSRecord @ '' '' @ quote v @
                '' is not a recognized true/false value; keeping this object's hostnames out of DNS'') w)
           | Inr publish \<Rightarrow> if publish then (rt, w) else (out, w)))"

section \<open>Observing and advising\<close>

definition entry_hostname :: "entry \<Rightarrow> string" where
  "entry_hostname s = (case map_of s ''hostname'' of Some (JStr h) \<Rightarrow> h | _ \<Rightarrow> [])"

definition served_by :: "towonel_agent \<Rightarrow> string \<Rightarrow> agent_service option" where
  "served_by ta = map_of (rev (map (\<lambda>s. (as_hostname s, s)) (ag_services (ta_spec ta))))"

definition observe_entry :: "'w emitter \<Rightarrow> towonel_agent \<Rightarrow> entry \<Rightarrow> 'w \<Rightarrow> 'w" where
  "observe_entry emit target s w =
     (let h = entry_hostname s in
      if h = [] then w
      else (case served_by target h of
         None \<Rightarrow> emit ReasonObserveOnly
           (''hostname '' @ quote h @ '' is annotated here but not served by agent '' @
            quote (m_name (ta_meta target)) @ '', which is in observe-only mode; set its spec.mode: Managed to let the operator manage routing'') w
       | Some svc \<Rightarrow>
           if map_of s ''dnsRecord'' = Some (JBool False) \<and> as_dnsRecord svc \<noteq> Some False
           then emit ReasonObserveOnly
             (quote h @ '' is annotated '' @ AnnotationDNSRecord @ '' but agent '' @
              quote (m_name (ta_meta target)) @ '' serves it without dnsRecord: false; set it on the agent'') w
           else w))"

definition observeUserAgent :: "'w emitter \<Rightarrow> towonel_agent \<Rightarrow> nn \<Rightarrow> routing \<Rightarrow> 'w \<Rightarrow> 'w" where
  "observeUserAgent emit target tunnel rt w =
     (if resolvedTunnelRef target \<noteq> tunnel
      then emit ReasonObserveOnly
        (''agent-ref '' @ quote (m_name (ta_meta target)) @ '' references tunnel '' @
         nn_str (resolvedTunnelRef target) @ '', not '' @ nn_str tunnel @
         ''; operator is observe-only and will not modify it'') w
      else fold (observe_entry emit target) (rt_services rt) w)"

definition adviseIfMultipleAgents ::
  "('w, 'b) source_reconciler_scheme \<Rightarrow> 'w emitter \<Rightarrow> nn \<Rightarrow> nn \<Rightarrow> 'w \<Rightarrow> 'w" where
  "adviseIfMultipleAgents r emit tunnel targetNN w =
     (case sr_list_agents r w of
        (Inl e, w1) \<Rightarrow> w1
      | (Inr as, w1) \<Rightarrow>
          if list_ex (\<lambda>a. key_of (ta_meta a) \<noteq> targetNN \<and> resolvedTunnelRef a = tunnel) as
          then emit ReasonMultipleAgents
            (''multiple TowonelAgents reference this tunnel; Towonel routing is tenant-global and divergent hostname sets will clobber at the hub '' @
             [CHR 0xE2, CHR 0x80, CHR 0x94] @ '' consolidate to one agent'') w1
          else w1)"

section \<open>The shared flow\<close>

definition result_of :: "('w, goerr option) op \<Rightarrow> ('w, reconcile_result) op" where
  "result_of f w = (case f w of (None, w1) \<Rightarrow> (Inr 0, w1) | (Some e, w1) \<Rightarrow> (Inl e, w1))"

text \<open>The write branch, for a resolved target.\<close>

definition write_contribution ::
  "('w, 'b) source_reconciler_scheme \<Rightarrow> string \<Rightarrow> meta \<Rightarrow> nn \<Rightarrow> towonel_agent \<Rightarrow> routing
     \<Rightarrow> ('w, reconcile_result) op" where
  "write_contribution r fieldMgr src tunnel target rt w =
     (let emit = dedupe_emit r src EvWarning; targetNN = key_of (ta_meta target) in
      case contributeRouting r targetNN fieldMgr rt w of
        (Some e, w1) \<Rightarrow>
          if errors_is e ErrRoutingConflict then (Inr 0, emit ReasonHostnameConflict (err_text e) w1)
          else (Inl e, w1)
      | (None, w1) \<Rightarrow>
          (case releaseFromOtherAgents r fieldMgr (Some targetNN) w1 of
             (Some e, w2) \<Rightarrow> (Inl e, w2)
           | (None, w2) \<Rightarrow>
               let w3 = (if \<not> agentIsOperatorOwned target
                     then dedupe_emit r src EvNormal ReasonReconcilingAgent
                       (''operator is reconciling routing into hand-authored agent '' @ nn_str targetNN @
                        '' (effective spec.mode: Managed); it manages routing only, never this agent's lifecycle'') w2
                     else w2)
               in (Inr 0, adviseIfMultipleAgents r emit tunnel targetNN w3)))"

definition applyContribution ::
  "('w, 'b) source_reconciler_scheme \<Rightarrow> string \<Rightarrow> int option \<Rightarrow> string \<Rightarrow> meta \<Rightarrow> nn \<Rightarrow> string \<Rightarrow> routing
     \<Rightarrow> ('w, reconcile_result) op" where
  "applyContribution r agentNSConfig replicas kind src tunnel agentRef rt w =
     (let fieldMgr = srcFieldManager kind (m_ns src) (m_name src);
          emit = dedupe_emit r src EvWarning;
          (rt1, w0) = applyDNSRecordAnnotation rt (m_annotations src) emit w
      in case resolveTarget r emit agentNSConfig replicas tunnel agentRef w0 of
           (Inl e, w1) \<Rightarrow> (Inl e, w1)
         | (Inr TargetSkip, w1) \<Rightarrow> result_of (releaseFromOtherAgents r fieldMgr None) w1
         | (Inr (TargetObserve target), w1) \<Rightarrow>
             result_of (releaseFromOtherAgents r fieldMgr None) (observeUserAgent emit target tunnel rt1 w1)
         | (Inr (TargetWrite target), w1) \<Rightarrow> write_contribution r fieldMgr src tunnel target rt1 w1)"

section \<open>Opting out\<close>

fun gc_loop ::
  "('w, 'b) source_reconciler_scheme \<Rightarrow> towonel_agent list \<Rightarrow> bool \<Rightarrow> ('w, goerr + bool) op" where
  "gc_loop r [] inFlight w = (Inr inFlight, w)"
| "gc_loop r (a # as) inFlight w =
     (case orphanGCIfEmpty r (key_of (ta_meta a)) w of
        (Some e, w1) \<Rightarrow> if errors_is e ErrOrphanInFlight then gc_loop r as True w1 else (Inl e, w1)
      | (None, w1) \<Rightarrow> gc_loop r as inFlight w1)"

definition releaseEverywhere ::
  "('w, 'b) source_reconciler_scheme \<Rightarrow> string \<Rightarrow> string \<Rightarrow> string \<Rightarrow> ('w, goerr option) op" where
  "releaseEverywhere r kind srcNS srcName w =
     (case releaseFromOtherAgents r (srcFieldManager kind srcNS srcName) None w of
        (Some e, w1) \<Rightarrow> (Some e, w1)
      | (None, w1) \<Rightarrow>
          (case sr_list_agents_labelled r (LabelManagedBy, ManagedByValue) w1 of
             (Inl e, w2) \<Rightarrow> (Some e, w2)
           | (Inr as, w2) \<Rightarrow>
               (case gc_loop r as False w2 of
                  (Inl e, w3) \<Rightarrow> (Some e, w3)
                | (Inr inFlight, w3) \<Rightarrow> ((if inFlight then Some (Sentinel ErrOrphanInFlight) else None), w3))))"

definition releaseResult :: "goerr option \<Rightarrow> reconcile_result" where
  "releaseResult err = (case err of None \<Rightarrow> Inr 0
     | Some e \<Rightarrow> if errors_is e ErrOrphanInFlight then Inr waitingRequeue else Inl e)"

definition release_source ::
  "('w, 'b) source_reconciler_scheme \<Rightarrow> string \<Rightarrow> nn \<Rightarrow> ('w, reconcile_result) op" where
  "release_source r kind k w = (case releaseEverywhere r kind (fst k) (snd k) w of (e, w1) \<Rightarrow> (releaseResult e, w1))"

end
