(* ===== verification/SourceFlow.thy ===== *)
theory SourceFlow
  imports SourceContribute
begin

text \<open>
  What the shared flow of the source controllers does to the routing a source owns: the claims of
  its field manager move with the source, appear on the new agent before they leave the old one,
  and are gone everywhere after an opt-out; nothing else of the cluster is written.
\<close>

section \<open>What a field manager owns\<close>

text \<open>
  \<open>mine w k\<close> is the spec the source's field manager holds on agent \<open>k\<close>, nothing when it holds no
  field there. The API server documents of server-side apply: a successful apply replaces what the
  manager held by what it sent, a conflict changes nothing, an object that does not exist holds
  nothing; after any other failure the request has had its effect or none. Its errors are never
  the operator's own. A delete can only take
  claims away. A list of agents shows the manager on every agent where it holds fields. Nobody
  else writes under this field manager, so a claim only changes through these operations.
\<close>

definition claim :: "entry \<Rightarrow> entry option" where
  "claim spec = (if spec = [] then None else Some spec)"

definition own_api ::
  "('w, 'b) source_reconciler_scheme \<Rightarrow> string \<Rightarrow> ('w \<Rightarrow> nn \<Rightarrow> entry option) \<Rightarrow> bool" where
  "own_api r me mine \<longleftrightarrow> source_reads r mine \<and> create_frame r mine \<and>
     (\<forall>k spec w e w'. sr_apply_agent r (agent_apply k spec) me w = (e, w') \<longrightarrow>
        (case e of None \<Rightarrow> mine w' = (mine w)(k := claim spec)
         | Some x \<Rightarrow> (mine w' = mine w \<or> mine w' = (mine w)(k := claim spec)) \<and>
             (is_conflict x \<longrightarrow> mine w' = mine w) \<and> (is_not_found x \<longrightarrow> mine w' k = None) \<and>
             \<not> errors_is x ErrRoutingConflict)) \<and>
     (\<forall>k rv w e w'. sr_delete_agent r k rv w = (e, w') \<longrightarrow> mine w' = mine w \<or> mine w' = (mine w)(k := None)) \<and>
     (\<forall>w as w'. sr_list_agents r w = (Inr as, w') \<longrightarrow>
        (\<forall>k. mine w k \<noteq> None \<longrightarrow> (\<exists>a\<in>set as. key_of (ta_meta a) = k \<and> ownsAnyField (ta_meta a) me)))"

lemma own_reads: "own_api r me mine \<Longrightarrow> source_reads r mine"
  and own_create: "own_api r me mine \<Longrightarrow> create_frame r mine"
  by (simp_all add: own_api_def)

lemma own_apply:
  assumes "own_api r me mine" and "sr_apply_agent r (agent_apply k spec) me w = (e, w')"
  shows "case e of None \<Rightarrow> mine w' = (mine w)(k := claim spec)
         | Some x \<Rightarrow> (mine w' = mine w \<or> mine w' = (mine w)(k := claim spec)) \<and>
             (is_conflict x \<longrightarrow> mine w' = mine w) \<and> (is_not_found x \<longrightarrow> mine w' k = None) \<and>
             \<not> errors_is x ErrRoutingConflict"
  using assms unfolding own_api_def by blast

lemma own_delete:
  "own_api r me mine \<Longrightarrow> sr_delete_agent r k rv w = (e, w') \<Longrightarrow> mine w' = mine w \<or> mine w' = (mine w)(k := None)"
  unfolding own_api_def by blast

lemma own_list:
  "own_api r me mine \<Longrightarrow> sr_list_agents r w = (Inr as, w') \<Longrightarrow> mine w k \<noteq> None \<Longrightarrow>
     \<exists>a\<in>set as. key_of (ta_meta a) = k \<and> ownsAnyField (ta_meta a) me"
  unfolding own_api_def by blast

text \<open>Every step of a release only takes claims away, and none of the kept agent.\<close>

definition only_clears :: "nn option \<Rightarrow> (nn \<Rightarrow> entry option) \<Rightarrow> (nn \<Rightarrow> entry option) \<Rightarrow> bool" where
  "only_clears keep m m' \<longleftrightarrow> (\<forall>k. m' k = m k \<or> m' k = None \<and> keep \<noteq> Some k)"

lemma only_clears_refl [simp]: "only_clears keep m m"
  by (simp add: only_clears_def)

lemma only_clears_trans: "only_clears keep m m1 \<Longrightarrow> only_clears keep m1 m2 \<Longrightarrow> only_clears keep m m2"
  unfolding only_clears_def by metis

lemma only_clears_keep: "only_clears (Some k) m m' \<Longrightarrow> m' k = m k"
  unfolding only_clears_def by metis

lemma only_clears_delete: "only_clears None m (m(k := None))"
  unfolding only_clears_def by (metis fun_upd_apply option.distinct(1))

lemma releaseRouting_effect:
  assumes "own_api r me mine" and "releaseRouting r k me w = (res, w')" and "keep \<noteq> Some k"
  shows "only_clears keep (mine w) (mine w') \<and> (res = None \<longrightarrow> mine w' k = None)"
proof -
  obtain e w1 where e: "sr_apply_agent r (agent_apply k []) me w = (e, w1)" by fastforce
  have w': "w' = w1" using assms(2) e by (auto simp: releaseRouting_def split: option.splits if_splits)
  have c: "claim [] = None" by (simp add: claim_def)
  show ?thesis using assms(2,3) own_apply[OF assms(1) e] e c w'
    by (cases e) (auto simp: releaseRouting_def only_clears_def split: if_splits)
qed

lemma release_loop_effect:
  assumes "own_api r me mine"
  shows "release_loop r me keep as w = (res, w') \<Longrightarrow> only_clears keep (mine w) (mine w') \<and>
    (res = None \<longrightarrow> (\<forall>a\<in>set as. ownsAnyField (ta_meta a) me \<longrightarrow> keep \<noteq> Some (key_of (ta_meta a))
       \<longrightarrow> mine w' (key_of (ta_meta a)) = None))"
proof (induction as arbitrary: w)
  case (Cons a as)
  let ?k = "key_of (ta_meta a)"
  show ?case
  proof (cases "keep = Some ?k \<or> \<not> ownsAnyField (ta_meta a) me")
    case True
    then have "release_loop r me keep as w = (res, w')" using Cons.prems by (auto simp: Let_def split: if_splits)
    from Cons.IH[OF this] show ?thesis using True by auto
  next
    case False
    obtain e w1 where e: "releaseRouting r ?k me w = (e, w1)" by fastforce
    have step: "only_clears keep (mine w) (mine w1) \<and> (e = None \<longrightarrow> mine w1 ?k = None)"
      using releaseRouting_effect[OF assms e] False by blast
    show ?thesis
    proof (cases e)
      case None
      then have "release_loop r me keep as w1 = (res, w')" using Cons.prems False e by (auto simp: Let_def)
      note ih = Cons.IH[OF this]
      then have "mine w' ?k = None" using step None by (metis only_clears_def)
      then show ?thesis using ih step only_clears_trans by auto
    next
      case (Some x)
      then show ?thesis using Cons.prems False e step by (auto simp: Let_def)
    qed
  qed
qed simp

lemma releaseFromOtherAgents_effect:
  assumes "own_api r me mine" and "releaseFromOtherAgents r me keep w = (res, w')"
  shows "only_clears keep (mine w) (mine w') \<and> (res = None \<longrightarrow> (\<forall>k. keep \<noteq> Some k \<longrightarrow> mine w' k = None))"
proof -
  obtain l w1 where l: "sr_list_agents r w = (l, w1)" by fastforce
  have w1: "mine w1 = mine w" using source_reads_run(3)[OF own_reads[OF assms(1)] l] .
  show ?thesis
  proof (cases l)
    case (Inr as)
    then have "release_loop r me keep as w1 = (res, w')" using assms(2) l by (simp add: releaseFromOtherAgents_def)
    note loop = release_loop_effect[OF assms(1) this]
    have "mine w' k = None" if "res = None" "keep \<noteq> Some k" for k
    proof (cases "mine w k")
      case None
      then show ?thesis using loop w1 by (metis only_clears_def)
    next
      case (Some x)
      then obtain a where "a \<in> set as" "key_of (ta_meta a) = k" "ownsAnyField (ta_meta a) me"
        using own_list[OF assms(1)] l Inr by blast
      then show ?thesis using loop that by metis
    qed
    then show ?thesis using loop w1 by metis
  qed (use assms(2) l w1 in \<open>auto simp: releaseFromOtherAgents_def\<close>)
qed

section \<open>Contributing\<close>

lemma contributeRouting_effect:
  assumes "own_api r me mine" and "contributeRouting r k me rt w = (res, w')" and "\<not> routing_empty rt"
  shows "(res = None \<longrightarrow> mine w' = (mine w)(k := Some (routing_spec rt))) \<and>
    (\<forall>e. res = Some e \<longrightarrow> (mine w' = mine w \<or> mine w' = (mine w)(k := Some (routing_spec rt))) \<and>
       (errors_is e ErrRoutingConflict \<longrightarrow> mine w' = mine w))"
proof -
  have c: "claim (routing_spec rt) = Some (routing_spec rt)"
    using assms(3) by (auto simp: claim_def routing_spec_def routing_empty_def)
  obtain e w1 where e: "sr_apply_agent r (agent_apply k (routing_spec rt)) me w = (e, w1)" by fastforce
  have "w' = w1" using assms(2) e by (auto simp: contributeRouting_def split: option.splits if_splits)
  then show ?thesis using assms(2) own_apply[OF assms(1) e] e c
    by (cases e) (auto simp: contributeRouting_def split: if_splits)
qed

lemma emit_own [simp]: "own_api r me mine \<Longrightarrow> mine (dedupe_emit r m t rs msg w) = mine w"
  by (rule dedupe_sink.emit_quiet) (simp add: own_reads source_reads_base)

lemma advise_quiet:
  assumes "source_reads r obs"
  shows "obs (adviseIfMultipleAgents r (dedupe_emit r m t) tun k w) = obs w"
  using source_reads_run(3)[OF assms] dedupe_emit_frame[OF source_reads_base[OF assms]]
  by (auto simp: adviseIfMultipleAgents_def split: prod.splits sum.splits)

lemma write_contribution_effect:
  assumes own: "own_api r me mine" and ne: "\<not> routing_empty rt"
    and run: "write_contribution r me src tunnel target rt w = (res, w')"
  defines "k \<equiv> key_of (ta_meta target)"
  shows "(mine w' = mine w \<or> only_clears (Some k) ((mine w)(k \<mapsto> routing_spec rt)) (mine w')) \<and>
    (is_ok res \<longrightarrow> mine w' =
      (case contributeRouting r k me rt w of
         (None, v) \<Rightarrow> (\<lambda>j. if j = k then Some (routing_spec rt) else None)
       | (Some e, v) \<Rightarrow> mine w))"
proof -
  obtain c w1 where c: "contributeRouting r k me rt w = (c, w1)" by fastforce
  note ce = contributeRouting_effect[OF own c ne]
  show ?thesis
  proof (cases c)
    case (Some e)
    then have "mine w' = mine w1" and "is_ok res \<Longrightarrow> errors_is e ErrRoutingConflict"
      using run c own by (auto simp: write_contribution_def k_def Let_def split: if_splits)
    then show ?thesis using ce Some c by (metis (no_types, lifting) only_clears_refl option.simps(5) case_prod_conv)
  next
    case None
    then have w1: "mine w1 = (mine w)(k \<mapsto> routing_spec rt)" using ce by simp
    obtain e w2 where e: "releaseFromOtherAgents r me (Some k) w1 = (e, w2)" by fastforce
    have rel: "only_clears (Some k) (mine w1) (mine w2)"
      "e = None \<Longrightarrow> j \<noteq> k \<Longrightarrow> mine w2 j = None" for j
      using releaseFromOtherAgents_effect[OF own e] by (blast, metis option.inject)
    have w': "mine w' = mine w2" and ok: "is_ok res \<longleftrightarrow> e = None"
      using run c e None own
      by (auto simp: write_contribution_def k_def Let_def advise_quiet[OF own_reads[OF own]]
          split: option.splits)
    have "mine w2 k = Some (routing_spec rt)" using only_clears_keep[OF rel(1)] w1 by simp
    then have "is_ok res \<Longrightarrow> mine w' = (\<lambda>j. if j = k then Some (routing_spec rt) else None)"
      using rel(2) ok w' by auto
    then show ?thesis using rel(1) w1 w' c None by auto
  qed
qed

lemma applyDNS_quiet:
  assumes "base_frame r obs" and "applyDNSRecordAnnotation rt ann (dedupe_emit r m t) w = (rt', w')"
  shows "obs w' = obs w"
  using assms(2) dedupe_emit_frame[OF assms(1)]
  by (auto simp: applyDNSRecordAnnotation_def Let_def split: option.splits sum.splits if_splits)

lemma applyDNS_empty:
  "applyDNSRecordAnnotation rt ann emit w = (rt', w') \<Longrightarrow> routing_empty rt' = routing_empty rt"
  by (auto simp: applyDNSRecordAnnotation_def routing_empty_def Let_def split: option.splits sum.splits if_splits)

lemma observe_quiet:
  assumes "base_frame r obs"
  shows "obs (observeUserAgent (dedupe_emit r m t) ta tun rt w) = obs w"
proof -
  have "obs (fold (observe_entry (dedupe_emit r m t) ta) es v) = obs v" for es v
    by (induction es arbitrary: v)
      (auto simp: observe_entry_def Let_def dedupe_emit_frame[OF assms] split: option.splits)
  then show ?thesis by (simp add: observeUserAgent_def dedupe_emit_frame[OF assms])
qed

lemma result_of_ok: "result_of f w = (res, w') \<Longrightarrow> \<exists>e. f w = (e, w') \<and> (is_ok res \<longleftrightarrow> e = None)"
  by (auto simp: result_of_def split: prod.splits option.splits)


section \<open>Nothing else is written\<close>

text \<open>Applies under one field manager leave an observation alone.\<close>

definition apply_frame :: "('w, 'b) source_reconciler_scheme \<Rightarrow> string \<Rightarrow> ('w \<Rightarrow> 'o) \<Rightarrow> bool" where
  "apply_frame r me obs \<longleftrightarrow> (\<forall>u w e w'. sr_apply_agent r u me w = (e, w') \<longrightarrow> obs w' = obs w)"

lemma apply_frame_steps:
  assumes "apply_frame r me obs"
  shows "contributeRouting r k me rt w = (e, w') \<Longrightarrow> obs w' = obs w"
    and "releaseRouting r k me w = (e, w') \<Longrightarrow> obs w' = obs w"
    and "release_loop r me keep as w = (e, w') \<Longrightarrow> obs w' = obs w"
proof -
  have ap: "sr_apply_agent r u me v = (x, v') \<Longrightarrow> obs v' = obs v" for u v x v'
    using assms by (auto simp: apply_frame_def)
  show "contributeRouting r k me rt w = (e, w') \<Longrightarrow> obs w' = obs w"
    by (auto simp: contributeRouting_def dest!: ap split: prod.splits option.splits if_splits)
  have rel: "releaseRouting r k me v = (x, v') \<Longrightarrow> obs v' = obs v" for k v x v'
    by (auto simp: releaseRouting_def dest!: ap split: prod.splits option.splits if_splits)
  then show "releaseRouting r k me w = (e, w') \<Longrightarrow> obs w' = obs w" .
  show "release_loop r me keep as w = (e, w') \<Longrightarrow> obs w' = obs w"
    by (induction as arbitrary: w)
      (auto simp: Let_def dest!: rel split: prod.splits option.splits if_splits)
qed

lemma releaseFromOtherAgents_frame:
  assumes "source_reads r obs" and "apply_frame r me obs" and "releaseFromOtherAgents r me keep w = (e, w')"
  shows "obs w' = obs w"
  using assms(3)
  by (auto simp: releaseFromOtherAgents_def dest!: source_reads_run(3)[OF assms(1)] apply_frame_steps(3)[OF assms(2)]
      split: prod.splits sum.splits)

lemma write_contribution_frame:
  assumes "source_reads r obs" and "apply_frame r me obs"
    and "write_contribution r me src tunnel target rt w = (res, w')"
  shows "obs w' = obs w"
proof -
  note quiet = dedupe_emit_frame[OF source_reads_base[OF assms(1)]] advise_quiet[OF assms(1)]
  show ?thesis using assms(3)
    by (auto simp: write_contribution_def Let_def quiet
        dest!: apply_frame_steps(1)[OF assms(2)] releaseFromOtherAgents_frame[OF assms(1,2)]
        split: prod.splits option.splits if_splits)
qed

text \<open>C28: a contribution writes under the source's own field manager and nowhere else: whatever those
  applies leave alone is the same after the run, whatever its outcome. Agents are never deleted
  on this path, and the only other write is the creation of the default agent, which a source
  with an agent reference never causes.\<close>

theorem applyContribution_isolated:
  assumes "source_reads r obs" and "ref = [] \<Longrightarrow> create_frame r obs"
    and "apply_frame r (srcFieldManager kind (m_ns src) (m_name src)) obs"
    and "applyContribution r cfg n kind src tunnel ref rt w = (res, w')"
  shows "obs w' = obs w"
proof -
  note base = source_reads_base[OF assms(1)]
  obtain rt1 w0 where dns: "applyDNSRecordAnnotation rt (m_annotations src) (dedupe_emit r src EvWarning) w = (rt1, w0)"
    by fastforce
  obtain t w1 where t: "resolveTarget r (dedupe_emit r src EvWarning) cfg n tunnel ref w0 = (t, w1)" by fastforce
  have "obs w1 = obs w0"
    using dedupe_sink.resolveTarget_quiet[OF base assms(1) assms(2) t]
      dedupe_sink.resolveTarget_ref_quiet[OF base assms(1) _ t] by blast
  then have w1: "obs w1 = obs w" using applyDNS_quiet[OF base dns] by simp
  show ?thesis using assms(4) dns t w1
    by (auto simp: applyContribution_def Let_def observe_quiet[OF base]
        dest!: write_contribution_frame[OF assms(1,3)] result_of_ok releaseFromOtherAgents_frame[OF assms(1,3)]
        split: sum.splits target.splits)
qed

section \<open>Opting out\<close>

text \<open>What makes an agent collectable, in the authoritative read.\<close>

definition collectable :: "towonel_agent \<Rightarrow> bool" where
  "collectable ta \<longleftrightarrow> mget (m_annotations (ta_meta ta)) AnnotationAutoCreated = ''true'' \<and>
     ag_services (ta_spec ta) = [] \<and> ag_tcp (ta_spec ta) = [] \<and> ag_udp (ta_spec ta) = [] \<and>
     \<not> hasSourceManager (ta_meta ta)"

lemma orphanGC_cases:
  assumes "orphanGCIfEmpty r k w = (res, w')"
  obtains (kept) x where "sr_get_agent_live r k w = (x, w')"
  | (deleted) ta w1 e where "sr_get_agent_live r k w = (Inr ta, w1)" "collectable ta"
      "sr_delete_agent r (key_of (ta_meta ta)) (m_rv (ta_meta ta)) w1 = (e, w')"
  using assms that
  by (auto simp: orphanGCIfEmpty_def collectable_def split: prod.splits sum.splits if_splits option.splits)

text \<open>Where one step of an opt-out changed an observation by deleting an agent.\<close>

definition deletes_at :: "('w, 'b) source_reconciler_scheme \<Rightarrow> ('w \<Rightarrow> 'o) \<Rightarrow> bool" where
  "deletes_at r obs \<longleftrightarrow> (\<exists>k v ta v1. sr_get_agent_live r k v = (Inr ta, v1) \<and> collectable ta \<and>
     obs (snd (sr_delete_agent r (key_of (ta_meta ta)) (m_rv (ta_meta ta)) v1)) \<noteq> obs v1)"

lemma orphanGC_frame:
  assumes "source_reads r obs" and "orphanGCIfEmpty r k w = (res, w')" and "obs w' \<noteq> obs w"
  shows "deletes_at r obs"
  using assms(2)
proof (cases rule: orphanGC_cases)
  case (kept x)
  then show ?thesis using assms(3) source_reads_run(2)[OF assms(1)] by metis
next
  case (deleted ta w1 e)
  then have "obs w1 = obs w" using source_reads_run(2)[OF assms(1)] by metis
  then show ?thesis using deleted assms(3) unfolding deletes_at_def by (metis snd_conv)
qed

lemma gc_loop_frame:
  assumes "source_reads r obs"
  shows "gc_loop r as fl w = (res, w') \<Longrightarrow> obs w' \<noteq> obs w \<Longrightarrow> deletes_at r obs"
proof (induction as arbitrary: fl w)
  case (Cons a as)
  obtain e w1 where e: "orphanGCIfEmpty r (key_of (ta_meta a)) w = (e, w1)" by fastforce
  show ?case
  proof (cases "obs w1 = obs w")
    case True
    then show ?thesis using Cons e by (auto split: option.splits if_splits)
  next
    case False
    then show ?thesis by (rule orphanGC_frame[OF assms e])
  qed
qed simp

lemma gc_loop_own:
  assumes "own_api r me mine"
  shows "gc_loop r as fl w = (res, w') \<Longrightarrow> only_clears None (mine w) (mine w')"
proof (induction as arbitrary: fl w)
  case (Cons a as)
  obtain e w1 where e: "orphanGCIfEmpty r (key_of (ta_meta a)) w = (e, w1)" by fastforce
  have step: "only_clears None (mine w) (mine w1)"
    using e
  proof (cases rule: orphanGC_cases)
    case (kept x)
    then show ?thesis using source_reads_run(2)[OF own_reads[OF assms]] by (metis only_clears_refl)
  next
    case (deleted ta v x)
    then have "mine v = mine w" using source_reads_run(2)[OF own_reads[OF assms]] by metis
    then show ?thesis using own_delete[OF assms deleted(3)] only_clears_delete by (metis only_clears_refl)
  qed
  have "only_clears None (mine w1) (mine w')" if "gc_loop r as fl' w1 = (res, w')" for fl'
    by (rule Cons.IH[OF that])
  then show ?case using Cons.prems e step only_clears_trans
    by (auto split: option.splits if_splits)
qed simp

lemma wrapf_not_Sentinel [simp]: "wrapf p e \<noteq> Sentinel s"
  by (simp add: wrapf_def)

lemma release_loop_error: "release_loop r me keep as w = (Some e, w') \<Longrightarrow> e \<noteq> Sentinel s"
  by (induction as arbitrary: w)
    (auto simp: Let_def releaseRouting_def split: prod.splits option.splits if_splits)

lemma releaseFromOtherAgents_error: "releaseFromOtherAgents r me keep w = (Some e, w') \<Longrightarrow> e \<noteq> Sentinel s"
  by (auto simp: releaseFromOtherAgents_def dest: release_loop_error split: prod.splits sum.splits)


text \<open>Releases and deletes leave an observation alone; then so does an opt-out.\<close>

definition release_frame :: "('w, 'b) source_reconciler_scheme \<Rightarrow> ('w \<Rightarrow> 'o) \<Rightarrow> bool" where
  "release_frame r obs \<longleftrightarrow>
     (\<forall>k me w e w'. sr_apply_agent r (agent_apply k []) me w = (e, w') \<longrightarrow> obs w' = obs w) \<and>
     (\<forall>k rv w e w'. sr_delete_agent r k rv w = (e, w') \<longrightarrow> obs w' = obs w)"

lemma releaseFromOtherAgents_only:
  assumes "source_reads r obs" and "release_frame r obs" and "releaseFromOtherAgents r me keep w = (e, w')"
  shows "obs w' = obs w"
proof -
  have ap: "sr_apply_agent r (agent_apply k []) me v = (x, v') \<Longrightarrow> obs v' = obs v" for k v x v'
    using assms(2) unfolding release_frame_def by blast
  have "releaseRouting r k me v = (x, v') \<Longrightarrow> obs v' = obs v" for k v x v'
    by (auto simp: releaseRouting_def dest!: ap split: prod.splits option.splits if_splits)
  then have "release_loop r me keep as v = (x, v') \<Longrightarrow> obs v' = obs v" for as v x v'
    by (induction as arbitrary: v) (auto simp: Let_def split: prod.splits option.splits if_splits)
  then show ?thesis using assms(3)
    by (auto simp: releaseFromOtherAgents_def dest!: source_reads_run(3)[OF assms(1)] split: prod.splits sum.splits)
qed

lemma release_source_only:
  assumes "source_reads r obs" and "release_frame r obs" and "release_source r kind k w = (res, w')"
  shows "obs w' = obs w"
proof -
  have "obs (snd (sr_delete_agent r j rv v)) = obs v" for j rv v
    using assms(2) unfolding release_frame_def by (metis prod.collapse)
  then have "\<not> deletes_at r obs" by (auto simp: deletes_at_def)
  then have gc: "gc_loop r as fl v = (x, v') \<Longrightarrow> obs v' = obs v" for as fl v x v'
    using gc_loop_frame[OF assms(1)] by blast
  show ?thesis using assms(3)
    by (auto simp: release_source_def releaseEverywhere_def
        dest!: releaseFromOtherAgents_only[OF assms(1,2)] source_reads_run(4)[OF assms(1)] gc
        split: prod.splits option.splits sum.splits)
qed

section \<open>Publication\<close>

text \<open>A source keeps its hostnames out of DNS exactly when its annotation is there and is not a
  true value, a typing error included, and only a typing error is reported; nothing but that one
  key of its HTTPS entries is touched.\<close>

theorem applyDNSRecordAnnotation_closed:
  assumes "applyDNSRecordAnnotation rt ann emit w = (rt', w')"
  shows "(case map_of ann AnnotationDNSRecord of
      None \<Rightarrow> rt' = rt \<and> w' = w
    | Some v \<Rightarrow>
        if truthy v then rt' = rt \<and> w' = w
        else (\<forall>s\<in>set (rt_services rt'). map_of s ''dnsRecord'' = Some (JBool False)) \<and>
             (if ParseTruthy v = Inr False then w' = w else \<exists>msg. w' = emit ReasonInvalidAnnotation msg w)) \<and>
    rt_tcp rt' = rt_tcp rt \<and> rt_udp rt' = rt_udp rt \<and>
    map entry_hostname (rt_services rt') = map entry_hostname (rt_services rt)"
  using assms
  by (auto simp: applyDNSRecordAnnotation_def truthy_def entry_hostname_def Let_def update_conv'
      split: option.splits sum.splits if_splits)

section \<open>A cluster that stores claims\<close>

text \<open>The world is the list of the claims of one field manager; it satisfies what \<open>own_api\<close> asks.\<close>

type_synonym claims = "(nn \<times> entry) list"

definition apply_target :: "json \<Rightarrow> (nn \<times> entry) option" where
  "apply_target u = (case u of
     JObj es \<Rightarrow>
       (case map_of es ''metadata'' of
          Some (JObj m) \<Rightarrow>
            (case (map_of m ''namespace'', map_of m ''name'') of
               (Some (JStr ns), Some (JStr n)) \<Rightarrow>
                 Some ((ns, n), case map_of es ''spec'' of Some (JObj spec) \<Rightarrow> spec | _ \<Rightarrow> [])
             | _ \<Rightarrow> None)
        | _ \<Rightarrow> None)
   | _ \<Rightarrow> None)"

definition set_claim :: "nn \<Rightarrow> entry \<Rightarrow> claims \<Rightarrow> claims" where
  "set_claim k spec w = (if spec = [] then filter (\<lambda>p. fst p \<noteq> k) w else AList.update k spec w)"

definition claimed_agent :: "string \<Rightarrow> nn \<Rightarrow> towonel_agent" where
  "claimed_agent me k = (let ta = bound_agent (fst k) (snd k) k
     in ta\<lparr>ta_meta := (ta_meta ta)\<lparr>m_managed := [\<lparr>mf_manager = me, mf_apply = True\<rparr>]\<rparr>\<rparr>)"

definition claims_source :: "string \<Rightarrow> towonel_agent list \<Rightarrow> claims source_reconciler" where
  "claims_source me as = (agents_source as)
     \<lparr>sr_list_agents := (\<lambda>w. (Inr (map (\<lambda>p. claimed_agent me (fst p)) w), w)),
      sr_apply_agent := (\<lambda>u m w. (None, if m \<noteq> me then w
         else (case apply_target u of None \<Rightarrow> w | Some (k, spec) \<Rightarrow> set_claim k spec w))),
      sr_delete_agent := (\<lambda>k rv w. (None, filter (\<lambda>p. fst p \<noteq> k) w))\<rparr>"

lemma apply_target_agent [simp]: "apply_target (agent_apply k spec) = Some (k, spec)"
  by (cases k) (simp add: apply_target_def agent_apply_def newAgentApply_def)

lemma map_of_drop_claim [simp]: "map_of (filter (\<lambda>p. fst p \<noteq> k) w) = (map_of w)(k := None)"
  using map_of_filter_key[of "\<lambda>j. j \<noteq> k" w] by (simp add: fun_eq_iff)

lemma map_of_set_claim [simp]: "map_of (set_claim k spec w) = (map_of w)(k := claim spec)"
  by (simp add: set_claim_def claim_def update_conv')

lemma claims_source_own: "own_api (claims_source me as) me map_of"
  by (auto simp: own_api_def source_reads_def base_frame_def create_frame_def claims_source_def
      agents_source_def claimed_agent_def bound_agent_def new_agent_def new_meta_def
      key_of_def ownsAnyField_def Let_def
      dest!: map_of_SomeD intro!: bexI)

lemma claims_source_emit [simp]: "dedupe_emit (claims_source me as) m t rs msg w = w"
  by (simp add: dedupe_emit_def claims_source_def agents_source_def safe_Event_def split: option.splits)

text \<open>A Service that moves from one hand-authored agent to another.\<close>

definition web_source :: meta where "web_source = new_meta ''app'' ''web''"

definition web_routing :: routing where
  "web_routing = no_routing\<lparr>rt_services := [[(''hostname'', JStr ''a.example''), (''origin'', JStr ''10.0.0.1:80'')]]\<rparr>"

abbreviation "web_manager \<equiv> srcFieldManager ''Service'' ''app'' ''web''"

definition web_cluster :: "claims source_reconciler" where
  "web_cluster = claims_source web_manager [bound_agent ''edge'' ''blue'' (''prod'', ''main'')]"

lemma web_target:
  "resolveTarget web_cluster emit ''edge'' n (''prod'', ''main'') ''blue'' w =
     (Inr (TargetWrite (bound_agent ''edge'' ''blue'' (''prod'', ''main''))), w)"
  by (simp add: resolveTarget_def web_cluster_def claims_source_def agents_source_def bound_agent_def
      new_agent_def zero_defs key_of_def agentNamespaceFor_def agentMode_def resolvedTunnelRef_def
      ModeManaged_def ModeObserveOnly_def)

lemma web_dns: "applyDNSRecordAnnotation web_routing (m_annotations web_source) emit w = (web_routing, w)"
  by (simp add: applyDNSRecordAnnotation_def web_source_def new_meta_def)

lemma web_emit [simp]: "dedupe_emit web_cluster m t rs msg w = w"
  by (simp add: web_cluster_def)

lemma web_contribute:
  "contributeRouting web_cluster k web_manager web_routing w = (None, set_claim k (routing_spec web_routing) w)"
  by (simp add: contributeRouting_def web_cluster_def claims_source_def)

lemma web_release: "releaseRouting web_cluster k web_manager w = (None, set_claim k [] w)"
  by (simp add: releaseRouting_def web_cluster_def claims_source_def)

lemma web_release_loop: "fst (release_loop web_cluster web_manager keep as w) = None"
  by (induction as arbitrary: w) (auto simp: Let_def web_release)

lemma web_release_all: "fst (releaseFromOtherAgents web_cluster web_manager keep w) = None"
  using web_release_loop
  by (simp add: releaseFromOtherAgents_def web_cluster_def claims_source_def)

lemma web_moves_ok:
  "is_ok (fst (applyContribution web_cluster ''edge'' None ''Service'' web_source (''prod'', ''main'') ''blue''
     web_routing w))"
proof -
  have me: "m_ns web_source = ''app''" "m_name web_source = ''web''" by (simp_all add: web_source_def new_meta_def)
  show ?thesis
    by (simp add: applyContribution_def web_dns web_target write_contribution_def me web_contribute
        Let_def split_def web_release_all)
qed


theorem applyContribution_isolated_witness:
  "sr_list_agents web_cluster (snd (applyContribution web_cluster ''edge'' None ''Service''
     (new_meta ''app'' ''api'') (''prod'', ''main'') ''blue'' web_routing [])) = sr_list_agents web_cluster []"
proof -
  have "source_reads web_cluster (sr_list_agents web_cluster)"
    by (simp add: source_reads_def base_frame_def web_cluster_def claims_source_def agents_source_def)
  moreover have "apply_frame web_cluster (srcFieldManager ''Service'' ''app'' ''api'') (sr_list_agents web_cluster)"
    by (simp add: apply_frame_def web_cluster_def claims_source_def srcFieldManager_def)
  ultimately show ?thesis
    using applyContribution_isolated[of web_cluster "sr_list_agents web_cluster" "''blue''" "''Service''"
        "new_meta ''app'' ''api''" "''edge''" None "(''prod'', ''main'')" web_routing "[]"]
    by (simp add: new_meta_def prod_eq_iff)
qed


theorem applyDNSRecordAnnotation_closed_witness:
  "map_of (hd (rt_services (fst (applyDNSRecordAnnotation web_routing [(AnnotationDNSRecord, ''fasle'')]
      (\<lambda>rs m w. w @ [rs]) [])))) ''dnsRecord'' = Some (JBool False)"
proof -
  obtain rt' w' where run: "applyDNSRecordAnnotation web_routing [(AnnotationDNSRecord, ''fasle'')]
      (\<lambda>rs m w. w @ [rs]) [] = (rt', w')" by fastforce
  have "trim_space ''fasle'' = ''fasle''" by (rule trim_space_plain) (simp add: plain_char_def)
  then have "\<not> truthy ''fasle''" by (simp add: truthy_def ParseTruthy_def lower_char_def Let_def)
  moreover have "rt_services rt' \<noteq> []"
    using applyDNSRecordAnnotation_closed[OF run] by (auto simp: web_routing_def no_routing_def)
  ultimately show ?thesis using applyDNSRecordAnnotation_closed[OF run] run
    by simp
qed

end
