(* ===== verification/SourceService.thy ===== *)
theory SourceService
  imports SourceFlow
begin

text \<open>
  \<open>service_source_controller.go\<close>: the routing a Service's annotations ask for, and
  \<open>ServiceSourceReconciler.Reconcile\<close>. The runtime's iteration order over the annotations is the
  field \<open>sr_range\<close>, asked anew for each of the two loops.
\<close>

section \<open>Ports and keys\<close>

definition originOf :: "string \<Rightarrow> int \<Rightarrow> string" where
  "originOf host port = host @ '':'' @ itoa port"

definition effectiveServicePort :: "service_obj \<Rightarrow> int \<Rightarrow> int option" where
  "effectiveServicePort svc port =
     (if port \<noteq> 0 then Some port
      else (case svc_ports svc of [] \<Rightarrow> None | p # _ \<Rightarrow> Some (sp_port p)))"

definition parsePortScopedKey :: "string \<Rightarrow> (string \<times> string) option" where
  "parsePortScopedKey key = (case cut_prefix key ''towonel.io/'' of
     None \<Rightarrow> None
   | Some rest \<Rightarrow>
       (case cut_last rest CHR ''.'' of
          None \<Rightarrow> None
        | Some (port, suffix) \<Rightarrow>
            if port = [] \<or> suffix = [] then None
            else if suffix \<in> {''hostname'', ''tcp'', ''udp'', ''public-port''} then Some (port, suffix)
            else None))"

definition port_by_name :: "service_obj \<Rightarrow> string \<Rightarrow> int option" where
  "port_by_name svc = map_of (rev (map (\<lambda>p. (sp_name p, sp_port p)) (svc_ports svc)))"

section \<open>Port-scoped annotations\<close>

definition add_exposure :: "string \<Rightarrow> string \<Rightarrow> string \<Rightarrow> string \<Rightarrow> routing \<Rightarrow> routing" where
  "add_exposure suffix name origin v rt =
     (if suffix = ''hostname''
      then rt\<lparr>rt_services := rt_services rt @ [[(''hostname'', JStr v), (''origin'', JStr origin)]]\<rparr>
      else if suffix = ''tcp''
      then rt\<lparr>rt_tcp := rt_tcp rt @ [[(''name'', JStr name), (''origin'', JStr origin)]]\<rparr>
      else rt\<lparr>rt_udp := rt_udp rt @ [[(''name'', JStr name), (''origin'', JStr origin)]]\<rparr>)"

fun scoped_loop ::
  "service_obj \<Rightarrow> 'w emitter \<Rightarrow> string list \<Rightarrow> routing \<times> bool \<Rightarrow> 'w \<Rightarrow> (routing \<times> bool) option \<times> 'w" where
  "scoped_loop svc emit [] acc w = (Some acc, w)"
| "scoped_loop svc emit (k # ks) (rt, scoped) w =
     (case parsePortScopedKey k of
        None \<Rightarrow> scoped_loop svc emit ks (rt, scoped) w
      | Some (name, suffix) \<Rightarrow>
          if suffix = ''public-port'' then scoped_loop svc emit ks (rt, True) w
          else (case port_by_name svc name of
             None \<Rightarrow> (None, emit ReasonInvalidAnnotation
               (''annotation '' @ quote k @ '' names port '' @ quote name @ '' not declared on the Service'') w)
           | Some port \<Rightarrow>
               scoped_loop svc emit ks
                 (add_exposure suffix name (originOf (svc_clusterIP svc) port)
                    (mget (m_annotations (svc_meta svc)) k) rt, True) w))"

definition set_preferred :: "string \<Rightarrow> int \<Rightarrow> entry list \<Rightarrow> entry list" where
  "set_preferred name n es =
     map (\<lambda>e. if map_of e ''name'' = Some (JStr name) then AList.update ''preferredPort'' (JNum n) e else e) es"

fun applyPublicPorts :: "strmap \<Rightarrow> 'w emitter \<Rightarrow> string list \<Rightarrow> routing \<Rightarrow> 'w \<Rightarrow> routing \<times> 'w" where
  "applyPublicPorts ann emit [] rt w = (rt, w)"
| "applyPublicPorts ann emit (k # ks) rt w =
     (case parsePortScopedKey k of
        None \<Rightarrow> applyPublicPorts ann emit ks rt w
      | Some (name, suffix) \<Rightarrow>
          if suffix \<noteq> ''public-port'' then applyPublicPorts ann emit ks rt w
          else (case atoi (mget ann k) of
             None \<Rightarrow> applyPublicPorts ann emit ks rt
               (emit ReasonInvalidAnnotation (quote k @ '' must be a valid port number'') w)
           | Some n \<Rightarrow>
               if n \<le> 0 \<or> n > 65535
               then applyPublicPorts ann emit ks rt
                 (emit ReasonInvalidAnnotation (quote k @ '' must be a valid port number'') w)
               else applyPublicPorts ann emit ks
                 (rt\<lparr>rt_tcp := set_preferred name n (rt_tcp rt), rt_udp := set_preferred name n (rt_udp rt)\<rparr>) w))"

section \<open>Single exposure\<close>

definition single_routing :: "service_obj \<Rightarrow> 'w emitter \<Rightarrow> 'w \<Rightarrow> routing option \<times> 'w" where
  "single_routing svc emit w =
     (let ann = m_annotations (svc_meta svc); given = mget ann AnnotationSrcOrigin in
      if given = [] \<and> (svc_ports svc = [] \<or> svc_clusterIP svc = [] \<or> svc_clusterIP svc = ''None'')
      then (None, emit ReasonInvalidAnnotation
        ''no towonel.io/origin and the Service has no ClusterIP:port to default to'' w)
      else
        let origin = (if given = [] then originOf (svc_clusterIP svc) (sp_port (hd (svc_ports svc))) else given);
            proto = to_lower (trim_space (mget ann AnnotationSrcProtocol));
            l4 = [[(''name'', JStr (m_name (svc_meta svc))), (''origin'', JStr origin)]]
        in if proto = ''tcp'' then (Some (no_routing\<lparr>rt_tcp := l4\<rparr>), w)
           else if proto = ''udp'' then (Some (no_routing\<lparr>rt_udp := l4\<rparr>), w)
           else if proto = [] then
             (let host = mget ann AnnotationSrcHostname; mode = mget ann AnnotationSrcEdgeTLSMode in
              if host = [] then (None, emit ReasonInvalidAnnotation
                ''opted in but no towonel.io/hostname (HTTPS) or towonel.io/protocol (raw) declared'' w)
              else (Some (no_routing\<lparr>rt_services :=
                [[(''hostname'', JStr host), (''origin'', JStr origin)] @
                 (if mode \<noteq> [] then [(''edgeTLSMode'', JStr mode)] else [])]\<rparr>), w))
           else (None, emit ReasonInvalidAnnotation
             (''towonel.io/protocol '' @ quote (mget ann AnnotationSrcProtocol) @ '' must be tcp or udp'') w))"

definition deriveServiceRouting ::
  "('w, 'b) source_reconciler_scheme \<Rightarrow> service_obj \<Rightarrow> 'w emitter \<Rightarrow> 'w \<Rightarrow> routing option \<times> 'w" where
  "deriveServiceRouting r svc emit w =
     (let ann = m_annotations (svc_meta svc) in
      case scoped_loop svc emit (sr_range r w (map fst ann)) (no_routing, False) w of
        (None, w1) \<Rightarrow> (None, w1)
      | (Some (rt, scoped), w1) \<Rightarrow>
          if scoped then
            (let (rt1, w2) = applyPublicPorts ann emit (sr_range r w1 (map fst ann)) rt w1 in
             if routing_empty rt1
             then (None, emit ReasonInvalidAnnotation
               ''port-scoped annotations present but resolved to no exposure'' w2)
             else (Some rt1, w2))
          else single_routing svc emit w1)"

section \<open>\<open>Reconcile\<close> and the watches\<close>

definition Reconcile_service ::
  "('w, 'b) source_reconciler_scheme \<Rightarrow> (event \<Rightarrow> 'w \<Rightarrow> 'w) option \<Rightarrow> nn \<Rightarrow> ('w, reconcile_result) op" where
  "Reconcile_service r0 rec req w =
     (let r = ensure rec r0 in
      case sr_get_service r req w of
        (Inl e, w1) \<Rightarrow> if is_not_found e then release_source r ''Service'' req w1 else (Inl e, w1)
      | (Inr svc, w1) \<Rightarrow>
          let m = svc_meta svc; ann = m_annotations m in
          if \<not> truthy (mget ann AnnotationTunnel) then release_source r ''Service'' (key_of m) w1
          else (case resolveTunnel r (dedupe_emit r m EvWarning) (mget ann AnnotationTunnelRef) (m_ns m) w1 of
             (Inl e, w2) \<Rightarrow> (Inl e, w2)
           | (Inr None, w2) \<Rightarrow> (Inr 0, w2)
           | (Inr (Some tunnel), w2) \<Rightarrow>
               (case deriveServiceRouting r svc (dedupe_emit r m EvWarning) w2 of
                  (None, w3) \<Rightarrow> (Inr 0, w3)
                | (Some rt, w3) \<Rightarrow>
                    if routing_empty rt then release_source r ''Service'' (key_of m) w3
                    else applyContribution r (sr_agentNamespace r) (sr_defaultReplicas r) ''Service'' m tunnel
                      (mget ann AnnotationAgentRef) rt w3)))"

definition service_sourcesForAgent :: "('w, 'b) source_reconciler_scheme \<Rightarrow> towonel_agent \<Rightarrow> ('w, nn list) op" where
  "service_sourcesForAgent r = agentSourceRequests (list_meta svc_meta (sr_list_services r)) (sr_agentNamespace r)"

definition service_sourcesForTunnel :: "('w, 'b) source_reconciler_scheme \<Rightarrow> towonel_tunnel \<Rightarrow> ('w, nn list) op" where
  "service_sourcesForTunnel r = tunnelSourceRequests (list_meta svc_meta (sr_list_services r))"

section \<open>Keys\<close>

lemma parsePortScopedKey_Some:
  "parsePortScopedKey k = Some (name, suffix) \<longleftrightarrow>
     k = ''towonel.io/'' @ name @ ''.'' @ suffix \<and> name \<noteq> [] \<and>
     suffix \<in> {''hostname'', ''tcp'', ''udp'', ''public-port''}"
proof
  assume "parsePortScopedKey k = Some (name, suffix)"
  then show "k = ''towonel.io/'' @ name @ ''.'' @ suffix \<and> name \<noteq> [] \<and>
     suffix \<in> {''hostname'', ''tcp'', ''udp'', ''public-port''}"
    unfolding parsePortScopedKey_def
    by (auto simp only: cut_prefix_Some cut_last_Some append_Cons append_Nil split: option.splits prod.splits if_splits)
next
  assume h: "k = ''towonel.io/'' @ name @ ''.'' @ suffix \<and> name \<noteq> [] \<and>
     suffix \<in> {''hostname'', ''tcp'', ''udp'', ''public-port''}"
  then have "cut_prefix k ''towonel.io/'' = Some (name @ CHR ''.'' # suffix)"
    by simp
  moreover have "cut_last (name @ CHR ''.'' # suffix) CHR ''.'' = Some (name, suffix)"
    using h by (intro cut_last_append) auto
  ultimately show "parsePortScopedKey k = Some (name, suffix)"
    using h unfolding parsePortScopedKey_def by auto
qed

section \<open>What the port-scoped annotations mean\<close>

text \<open>The reference: each key speaks for itself, and the public port of a name is looked up directly.\<close>

definition public_key :: "string \<Rightarrow> string" where
  "public_key name = ''towonel.io/'' @ name @ ''.'' @ ''public-port''"

definition public_port :: "strmap \<Rightarrow> string \<Rightarrow> int option" where
  "public_port ann name = (case atoi (mget ann (public_key name)) of
     Some n \<Rightarrow> if 0 < n \<and> n \<le> 65535 then Some n else None | None \<Rightarrow> None)"

definition exposed :: "service_obj \<Rightarrow> string \<Rightarrow> string \<Rightarrow> (string \<times> string) option" where
  "exposed svc suffix k = (case parsePortScopedKey k of
     Some (name, s) \<Rightarrow> if s = suffix
       then map_option (\<lambda>p. (name, originOf (svc_clusterIP svc) p)) (port_by_name svc name) else None
   | None \<Rightarrow> None)"

definition undeclared :: "service_obj \<Rightarrow> string \<Rightarrow> bool" where
  "undeclared svc k \<longleftrightarrow> (\<exists>name suffix. parsePortScopedKey k = Some (name, suffix) \<and>
     suffix \<noteq> ''public-port'' \<and> port_by_name svc name = None)"

definition https_of :: "service_obj \<Rightarrow> string \<Rightarrow> entry option" where
  "https_of svc k = map_option (\<lambda>(name, origin).
     [(''hostname'', JStr (mget (m_annotations (svc_meta svc)) k)), (''origin'', JStr origin)]) (exposed svc ''hostname'' k)"

definition raw_of :: "service_obj \<Rightarrow> string \<Rightarrow> string \<Rightarrow> entry option" where
  "raw_of svc suffix k = map_option (\<lambda>(name, origin).
     [(''name'', JStr name), (''origin'', JStr origin)]) (exposed svc suffix k)"

definition with_public :: "strmap \<Rightarrow> entry \<Rightarrow> entry" where
  "with_public ann e = (case map_of e ''name'' of
     Some (JStr name) \<Rightarrow>
       (case public_port ann name of Some n \<Rightarrow> AList.update ''preferredPort'' (JNum n) e | None \<Rightarrow> e)
   | _ \<Rightarrow> e)"

definition scoped_routing :: "service_obj \<Rightarrow> string list \<Rightarrow> routing" where
  "scoped_routing svc ks = \<lparr>rt_services = List.map_filter (https_of svc) ks,
     rt_tcp = map (with_public (m_annotations (svc_meta svc))) (List.map_filter (raw_of svc ''tcp'') ks),
     rt_udp = map (with_public (m_annotations (svc_meta svc))) (List.map_filter (raw_of svc ''udp'') ks)\<rparr>"

lemma public_key_parse: "name \<noteq> [] \<Longrightarrow> parsePortScopedKey (public_key name) = Some (name, ''public-port'')"
  by (simp only: parsePortScopedKey_Some public_key_def) simp

lemma parse_public: "parsePortScopedKey k = Some (name, ''public-port'') \<Longrightarrow> k = public_key name"
  by (simp only: parsePortScopedKey_Some public_key_def)

text \<open>The first loop appends what each key exposes, in the order it visits them.\<close>

definition plus_routing :: "routing \<Rightarrow> routing \<Rightarrow> routing" where
  "plus_routing a b = \<lparr>rt_services = rt_services a @ rt_services b, rt_tcp = rt_tcp a @ rt_tcp b,
     rt_udp = rt_udp a @ rt_udp b\<rparr>"

definition raw_routing :: "service_obj \<Rightarrow> string list \<Rightarrow> routing" where
  "raw_routing svc ks = \<lparr>rt_services = List.map_filter (https_of svc) ks,
     rt_tcp = List.map_filter (raw_of svc ''tcp'') ks, rt_udp = List.map_filter (raw_of svc ''udp'') ks\<rparr>"

lemma map_filter_Cons: "List.map_filter f (x # xs) = (case f x of None \<Rightarrow> [] | Some y \<Rightarrow> [y]) @ List.map_filter f xs"
  by (simp add: map_filter_simps split: option.splits)

lemma raw_routing_Cons:
  "parsePortScopedKey k = None \<Longrightarrow> raw_routing svc (k # ks) = raw_routing svc ks"
  "parsePortScopedKey k = Some (name, ''public-port'') \<Longrightarrow> raw_routing svc (k # ks) = raw_routing svc ks"
  by (simp_all add: raw_routing_def map_filter_Cons https_of_def raw_of_def exposed_def)

lemma add_exposure_Cons:
  assumes "parsePortScopedKey k = Some (name, suffix)" and "suffix \<noteq> ''public-port''"
    and "port_by_name svc name = Some port"
  shows "plus_routing (add_exposure suffix name (originOf (svc_clusterIP svc) port)
      (mget (m_annotations (svc_meta svc)) k) rt) (raw_routing svc ks) = plus_routing rt (raw_routing svc (k # ks))"
proof -
  have "suffix \<in> {''hostname'', ''tcp'', ''udp''}"
    using assms(1,2) by (auto simp: parsePortScopedKey_Some)
  then show ?thesis using assms
    by (auto simp: plus_routing_def raw_routing_def map_filter_Cons https_of_def raw_of_def exposed_def
        add_exposure_def)
qed

lemma scoped_loop_spec:
  "\<not> list_ex (undeclared svc) ks \<Longrightarrow> scoped_loop svc emit ks (rt, sc) w =
     (Some (plus_routing rt (raw_routing svc ks), sc \<or> list_ex (\<lambda>k. parsePortScopedKey k \<noteq> None) ks), w)"
proof (induction ks arbitrary: rt sc)
  case Nil
  then show ?case by (simp add: plus_routing_def raw_routing_def map_filter_simps)
next
  case (Cons k ks)
  show ?case
  proof (cases "parsePortScopedKey k")
    case None
    then show ?thesis using Cons by (simp add: raw_routing_Cons)
  next
    case (Some p)
    then obtain name suffix where p: "parsePortScopedKey k = Some (name, suffix)" by (cases p) auto
    show ?thesis
    proof (cases "suffix = ''public-port''")
      case True
      then show ?thesis using Cons p by (simp add: raw_routing_Cons)
    next
      case False
      then obtain port where "port_by_name svc name = Some port"
        using Cons.prems p by (auto simp: undeclared_def)
      then show ?thesis using Cons p False by (simp add: add_exposure_Cons)
    qed
  qed
qed

lemma scoped_loop_refuses:
  "list_ex (undeclared svc) ks \<Longrightarrow> \<exists>msg. scoped_loop svc emit ks acc w = (None, emit ReasonInvalidAnnotation msg w)"
proof (induction ks arbitrary: acc)
  case (Cons k ks)
  obtain rt sc where acc: "acc = (rt, sc)" by fastforce
  show ?case
  proof (cases "undeclared svc k")
    case True
    then show ?thesis by (auto simp: acc undeclared_def)
  next
    case False
    then have "list_ex (undeclared svc) ks" using Cons.prems by simp
    note ih = Cons.IH[OF this]
    then show ?thesis using False by (auto simp: acc undeclared_def split: option.splits)
  qed
qed simp

text \<open>The second loop: one public port per name, because one key per name.\<close>

definition seen_public :: "strmap \<Rightarrow> string list \<Rightarrow> entry \<Rightarrow> entry" where
  "seen_public ann ks e = (case map_of e ''name'' of
     Some (JStr name) \<Rightarrow> if public_key name \<in> set ks then with_public ann e else e
   | _ \<Rightarrow> e)"

lemma applyPublicPorts_fields [simp]:
  "rt_services (fst (applyPublicPorts ann emit ks rt w)) = rt_services rt"
  by (induction ann emit ks rt w rule: applyPublicPorts.induct) (auto split: option.splits)

lemma with_public_name [simp]: "map_of (with_public ann e) ''name'' = map_of e ''name''"
  by (auto simp: with_public_def update_conv' split: option.splits json.splits)

lemma seen_public_skip:
  assumes "\<And>name. k = public_key name \<Longrightarrow> name \<noteq> [] \<Longrightarrow> public_port ann name = None"
    and "map_of e ''name'' \<noteq> Some (JStr [])"
  shows "seen_public ann (k # ks) e = seen_public ann ks e"
  using assms by (auto simp: seen_public_def with_public_def split: option.splits json.splits)

lemma public_key_inject [simp]: "public_key a = public_key b \<longleftrightarrow> a = b"
  by (simp add: public_key_def)

lemma seen_public_hit:
  assumes "name \<noteq> []" and "public_port ann name = Some n" and "public_key name \<notin> set ks"
  shows "seen_public ann (public_key name # ks) e = seen_public ann ks
    (if map_of e ''name'' = Some (JStr name) then AList.update ''preferredPort'' (JNum n) e else e)"
  using assms by (auto simp: seen_public_def with_public_def update_conv' split: option.splits json.splits)

lemma applyPublicPorts_spec:
  assumes "distinct ks" and "\<forall>e\<in>set (rt_tcp rt) \<union> set (rt_udp rt). map_of e ''name'' \<noteq> Some (JStr [])"
  shows "rt_tcp (fst (applyPublicPorts ann emit ks rt w)) = map (seen_public ann ks) (rt_tcp rt) \<and>
    rt_udp (fst (applyPublicPorts ann emit ks rt w)) = map (seen_public ann ks) (rt_udp rt)"
  using assms
proof (induction ks arbitrary: rt w)
  case Nil
  then show ?case by (simp add: seen_public_def map_idI split: option.splits json.splits)
next
  case (Cons k ks)
  have skip: ?case if v: "\<And>name. k = public_key name \<Longrightarrow> name \<noteq> [] \<Longrightarrow> public_port ann name = None"
    and step: "fst (applyPublicPorts ann emit (k # ks) rt w) = fst (applyPublicPorts ann emit ks rt w1)" for w1
    using Cons step seen_public_skip[OF v] by simp
  show ?case
  proof (cases "\<exists>name. parsePortScopedKey k = Some (name, ''public-port'')")
    case False
    then have "fst (applyPublicPorts ann emit (k # ks) rt w) = fst (applyPublicPorts ann emit ks rt w)"
      by (auto split: option.splits)
    then show ?thesis using False public_key_parse by (intro skip) auto
  next
    case True
    then obtain name where p: "parsePortScopedKey k = Some (name, ''public-port'')" by blast
    then have k: "k = public_key name" and ne: "name \<noteq> []"
      using parse_public parsePortScopedKey_Some by blast+
    show ?thesis
    proof (cases "public_port ann name")
      case None
      then have "\<exists>w1. fst (applyPublicPorts ann emit (k # ks) rt w) = fst (applyPublicPorts ann emit ks rt w1)"
        using p k by (auto simp: public_port_def split: option.splits if_splits)
      then show ?thesis using None k by (elim exE, intro skip) auto
    next
      case (Some n)
      let ?rt = "rt\<lparr>rt_tcp := set_preferred name n (rt_tcp rt), rt_udp := set_preferred name n (rt_udp rt)\<rparr>"
      have step: "applyPublicPorts ann emit (k # ks) rt w = applyPublicPorts ann emit ks ?rt w"
        using Some p k by (auto simp: public_port_def split: option.splits if_splits)
      have "\<forall>e\<in>set (rt_tcp ?rt) \<union> set (rt_udp ?rt). map_of e ''name'' \<noteq> Some (JStr [])"
        using Cons.prems(2) by (auto simp: set_preferred_def update_conv')
      then have "rt_tcp (fst (applyPublicPorts ann emit ks ?rt w)) = map (seen_public ann ks) (rt_tcp ?rt) \<and>
        rt_udp (fst (applyPublicPorts ann emit ks ?rt w)) = map (seen_public ann ks) (rt_udp ?rt)"
        using Cons.prems(1) by (intro Cons.IH) simp_all
      moreover have "map (seen_public ann ks) (set_preferred name n es) = map (seen_public ann (k # ks)) es" for es
        using seen_public_hit[OF ne Some] Cons.prems(1) k by (simp add: set_preferred_def)
      ultimately show ?thesis unfolding step by simp
    qed
  qed
qed

lemma seen_all: "set ks = fst ` set ann \<Longrightarrow> seen_public ann ks e = with_public ann e"
proof -
  have "public_port ann name = None" if "public_key name \<notin> fst ` set ann" for name
  proof -
    have "mget ann (public_key name) = []" using that by (simp add: mget_def map_of_eq_None_iff[THEN iffD2])
    then show ?thesis by (simp add: public_port_def atoi_def)
  qed
  then show "set ks = fst ` set ann \<Longrightarrow> seen_public ann ks e = with_public ann e"
    by (auto simp: seen_public_def with_public_def split: option.splits json.splits)
qed

definition source_range_ok :: "('w, 'b) source_reconciler_scheme \<Rightarrow> bool" where
  "source_range_ok r \<longleftrightarrow> (\<forall>w ks. mset (sr_range r w ks) = mset ks)"

lemma source_range_set:
  assumes "source_range_ok r"
  shows "set (sr_range r w ks) = set ks" and "distinct (sr_range r w ks) = distinct ks"
proof -
  have m: "mset (sr_range r w ks) = mset ks" using assms by (simp add: source_range_ok_def)
  show "set (sr_range r w ks) = set ks" using mset_eq_setD[OF m] .
  show "distinct (sr_range r w ks) = distinct ks" using mset_eq_imp_distinct_iff[OF m] .
qed

lemma parsed_name: "parsePortScopedKey k = Some (name, suffix) \<Longrightarrow> name \<noteq> []"
  using parsePortScopedKey_Some by blast

lemma raw_of_name: "raw_of svc suffix k = Some e \<Longrightarrow> map_of e ''name'' \<noteq> Some (JStr [])"
  by (auto simp: raw_of_def exposed_def dest: parsed_name split: option.splits if_splits)

lemma raw_names:
  assumes "e \<in> set (List.map_filter (raw_of svc suffix) ks)"
  shows "map_of e ''name'' \<noteq> Some (JStr [])"
proof -
  obtain k where "raw_of svc suffix k = Some e" using assms by (auto simp: List.map_filter_def)
  then show ?thesis by (rule raw_of_name)
qed

text \<open>C29: the port-scoped annotations of a Service mean the same under every order in which the runtime
  visits them: each key contributes one entry by itself, with the Service's address and the port it
  names, a raw entry carrying the public port that its own annotation gives when that is between 1
  and 65535. A key naming a port the Service does not declare refuses the whole contribution.\<close>

theorem deriveServiceRouting_scoped:
  assumes rng: "source_range_ok r" and dist: "distinct (map fst (m_annotations (svc_meta svc)))"
    and scoped: "list_ex (\<lambda>k. parsePortScopedKey k \<noteq> None) (map fst (m_annotations (svc_meta svc)))"
  shows "\<exists>ks. mset ks = mset (map fst (m_annotations (svc_meta svc))) \<and>
    fst (deriveServiceRouting r svc emit w) =
      (if list_ex (undeclared svc) ks \<or> routing_empty (scoped_routing svc ks) then None
       else Some (scoped_routing svc ks))"
proof -
  let ?ann = "m_annotations (svc_meta svc)"
  let ?ks = "sr_range r w (map fst ?ann)"
  have m: "mset ?ks = mset (map fst ?ann)" using rng by (simp add: source_range_ok_def)
  have ex: "list_ex P ?ks = list_ex P (map fst ?ann)" for P
    using source_range_set(1)[OF rng] by (simp add: list_ex_iff)
  have "fst (deriveServiceRouting r svc emit w) =
      (if list_ex (undeclared svc) ?ks \<or> routing_empty (scoped_routing svc ?ks) then None
       else Some (scoped_routing svc ?ks))"
  proof (cases "list_ex (undeclared svc) ?ks")
    case True
    then show ?thesis using scoped_loop_refuses[OF True, of emit "(no_routing, False)" w]
      by (auto simp: deriveServiceRouting_def Let_def)
  next
    case False
    let ?raw = "raw_routing svc ?ks"
    have loop: "scoped_loop svc emit ?ks (no_routing, False) w = (Some (?raw, True), w)"
      using scoped_loop_spec[OF False, of emit no_routing False w] scoped ex
      by (simp add: plus_routing_def no_routing_def raw_routing_def)
    have pub: "rt_tcp (fst (applyPublicPorts ?ann emit ?ks ?raw w)) = map (seen_public ?ann ?ks) (rt_tcp ?raw) \<and>
        rt_udp (fst (applyPublicPorts ?ann emit ?ks ?raw w)) = map (seen_public ?ann ?ks) (rt_udp ?raw)"
      using dist source_range_set(2)[OF rng] raw_names
      by (intro applyPublicPorts_spec) (auto simp: raw_routing_def)
    have seen: "seen_public ?ann ?ks e = with_public ?ann e" for e
      by (rule seen_all) (simp add: source_range_set(1)[OF rng])
    have "fst (applyPublicPorts ?ann emit ?ks ?raw w) = scoped_routing svc ?ks"
      using pub seen by (intro routing.equality) (simp_all add: scoped_routing_def raw_routing_def)
    then show ?thesis using loop False
      by (auto simp: deriveServiceRouting_def Let_def split_def)
  qed
  then show ?thesis using m by blast
qed

text \<open>A Service without port-scoped annotations exposes exactly one entry or is refused with one
  event: raw under its own name, or HTTPS under the annotated hostname; and unless it gives its
  origin itself, it has a cluster address and a port, so a headless Service is refused.\<close>

theorem deriveServiceRouting_single:
  assumes "source_range_ok r"
    and "\<not> list_ex (\<lambda>k. parsePortScopedKey k \<noteq> None) (map fst (m_annotations (svc_meta svc)))"
    and "deriveServiceRouting r svc emit w = (res, w')"
  shows "case res of
      None \<Rightarrow> \<exists>msg. w' = emit ReasonInvalidAnnotation msg w
    | Some rt \<Rightarrow> w' = w \<and> length (rt_tcp rt @ rt_udp rt @ rt_services rt) = 1 \<and>
        (\<forall>e\<in>set (rt_tcp rt @ rt_udp rt @ rt_services rt). \<exists>origin. map_of e ''origin'' = Some (JStr origin) \<and>
          (if mget (m_annotations (svc_meta svc)) AnnotationSrcOrigin \<noteq> []
           then origin = mget (m_annotations (svc_meta svc)) AnnotationSrcOrigin
           else svc_ports svc \<noteq> [] \<and> svc_clusterIP svc \<notin> {[], ''None''} \<and>
             origin = originOf (svc_clusterIP svc) (sp_port (hd (svc_ports svc))))) \<and>
        (\<forall>e\<in>set (rt_tcp rt @ rt_udp rt). map_of e ''name'' = Some (JStr (m_name (svc_meta svc)))) \<and>
        (\<forall>e\<in>set (rt_services rt). entry_hostname e \<noteq> [] \<and>
           entry_hostname e = mget (m_annotations (svc_meta svc)) AnnotationSrcHostname)"
proof -
  let ?ks = "sr_range r w (map fst (m_annotations (svc_meta svc)))"
  have no: "\<not> list_ex (\<lambda>k. parsePortScopedKey k \<noteq> None) ?ks"
    using assms(2) source_range_set(1)[OF assms(1)] by (simp add: list_ex_iff)
  then have "\<not> list_ex (undeclared svc) ?ks" by (auto simp: list_ex_iff undeclared_def)
  from scoped_loop_spec[OF this, of emit no_routing False w]
  have "\<exists>rt. scoped_loop svc emit ?ks (no_routing, False) w = (Some (rt, False), w)" using no by simp
  then have "single_routing svc emit w = (res, w')" using assms(3) by (auto simp: deriveServiceRouting_def)
  then show ?thesis
    by (auto simp: single_routing_def no_routing_def Let_def entry_hostname_def split: if_splits)
qed

section \<open>Opting in\<close>

lemma ensure_fields [simp]:
  "sr_get_service (ensure rec r) = sr_get_service r"
  "sr_get_gateway (ensure rec r) = sr_get_gateway r"
  "sr_get_route (ensure rec r) = sr_get_route r"
  by (simp_all add: ensure_def)

context event_sink
begin

lemma scoped_loop_quiet:
  assumes "quiet obs"
  shows "obs (snd (scoped_loop svc emit ks acc w)) = obs w"
proof (induction ks arbitrary: acc w)
  case (Cons k ks)
  then show ?case by (cases acc) (auto simp: emit_quiet[OF assms] split: option.splits)
qed simp

lemma applyPublicPorts_quiet:
  assumes "quiet obs"
  shows "obs (snd (applyPublicPorts ann emit ks rt w)) = obs w"
  using assms by (induction ks arbitrary: rt w) (auto simp: emit_quiet split: option.splits)

lemma deriveServiceRouting_quiet:
  assumes "quiet obs" and "deriveServiceRouting r svc emit w = (res, w')"
  shows "obs w' = obs w"
proof -
  let ?ann = "m_annotations (svc_meta svc)"
  obtain acc w1 where l: "scoped_loop svc emit (sr_range r w (map fst ?ann)) (no_routing, False) w = (acc, w1)" by fastforce
  have w1: "obs w1 = obs w" using scoped_loop_quiet[OF assms(1)] l by (metis snd_conv)
  have single: "obs (snd (single_routing svc emit w1)) = obs w1"
    by (simp add: single_routing_def Let_def emit_quiet[OF assms(1)])
  have pub: "obs (snd (applyPublicPorts ?ann emit ks rt w1)) = obs w1" for ks rt
    by (rule applyPublicPorts_quiet[OF assms(1)])
  show ?thesis using assms(2) l w1 single pub
    by (auto simp: deriveServiceRouting_def Let_def emit_quiet[OF assms(1)] split_def
        split: option.splits if_splits dest: sym)
qed

end

lemma Reconcile_service_run:
  assumes "Reconcile_service r0 rec req w = (res, w')"
  defines "r \<equiv> ensure rec r0"
  obtains (gone) e w1 where "sr_get_service r req w = (Inl e, w1)" "release_source r ''Service'' req w1 = (res, w') \<or> w' = w1"
  | (off) svc w1 where "sr_get_service r req w = (Inr svc, w1)"
      "\<not> truthy (mget (m_annotations (svc_meta svc)) AnnotationTunnel)"
      "release_source r ''Service'' (key_of (svc_meta svc)) w1 = (res, w')"
  | (unresolved) svc w1 t where "sr_get_service r req w = (Inr svc, w1)"
      "resolveTunnel r (dedupe_emit r (svc_meta svc) EvWarning)
         (mget (m_annotations (svc_meta svc)) AnnotationTunnelRef) (m_ns (svc_meta svc)) w1 = (t, w')"
  | (derived) svc w1 t w2 out w3 where "sr_get_service r req w = (Inr svc, w1)"
      "truthy (mget (m_annotations (svc_meta svc)) AnnotationTunnel)"
      "resolveTunnel r (dedupe_emit r (svc_meta svc) EvWarning)
         (mget (m_annotations (svc_meta svc)) AnnotationTunnelRef) (m_ns (svc_meta svc)) w1 = (t, w2)"
      "deriveServiceRouting r svc (dedupe_emit r (svc_meta svc) EvWarning) w2 = (out, w3)"
      "out = None \<Longrightarrow> w' = w3"
      "\<And>rt. out = Some rt \<Longrightarrow> routing_empty rt \<Longrightarrow> release_source r ''Service'' (key_of (svc_meta svc)) w3 = (res, w')"
proof -
  obtain g w1 where g: "sr_get_service r req w = (g, w1)" by fastforce
  note run = assms(1)[unfolded Reconcile_service_def Let_def, folded r_def]
  show thesis
  proof (cases g)
    case (Inl e)
    then show ?thesis using run g by (intro gone) (auto split: if_splits)
  next
    case (Inr svc)
    let ?m = "svc_meta svc"
    obtain t w2 where t: "resolveTunnel r (dedupe_emit r ?m EvWarning)
         (mget (m_annotations ?m) AnnotationTunnelRef) (m_ns ?m) w1 = (t, w2)" by fastforce
    obtain out w3 where d: "deriveServiceRouting r svc (dedupe_emit r ?m EvWarning) w2 = (out, w3)" by fastforce
    show ?thesis
    proof (cases "truthy (mget (m_annotations ?m) AnnotationTunnel)")
      case False
      then show ?thesis using run g Inr by (intro off) auto
    next
      case True
      show ?thesis
      proof (cases "\<exists>k. t = Inr (Some k)")
        case False
        then have "w' = w2" using run g Inr True t by (cases t) (auto split: option.splits)
        then show ?thesis using g Inr t by (intro unresolved) auto
      next
        case tt: True
        then show ?thesis using run g Inr True t d
          by (intro derived[of svc w1 t w2 out w3]) auto
      qed
    qed
  qed
qed

text \<open>Nothing is applied on behalf of a Service that did not opt in: when anything but releases and
  deletes happened, the Service is there, its annotation is a true value, and its annotations
  derive a routing. And an opted-in Service whose annotations derive none keeps what it has
  contributed before: nothing at all is written.\<close>

theorem Reconcile_service_consent:
  assumes reads: "source_reads (ensure rec r) obs" and run: "Reconcile_service r rec req w = (res, w')"
  shows "(release_frame (ensure rec r) obs \<and> obs w' \<noteq> obs w \<longrightarrow>
      (\<exists>svc w1 v rt v'. sr_get_service r req w = (Inr svc, w1) \<and>
         truthy (mget (m_annotations (svc_meta svc)) AnnotationTunnel) \<and> \<not> routing_empty rt \<and>
         deriveServiceRouting (ensure rec r) svc (dedupe_emit (ensure rec r) (svc_meta svc) EvWarning) v = (Some rt, v'))) \<and>
    (\<forall>svc w1. sr_get_service r req w = (Inr svc, w1) \<and>
       truthy (mget (m_annotations (svc_meta svc)) AnnotationTunnel) \<and>
       (\<forall>v. fst (deriveServiceRouting (ensure rec r) svc (dedupe_emit (ensure rec r) (svc_meta svc) EvWarning) v) = None)
       \<longrightarrow> obs w' = obs w)"
proof -
  let ?r = "ensure rec r"
  note base = source_reads_base[OF reads]
  note get = source_reads_run(6)[OF reads]
  from run show ?thesis
  proof (cases rule: Reconcile_service_run)
    case (gone e w1)
    then have "release_frame ?r obs \<Longrightarrow> obs w' = obs w"
      using get[OF gone(1)] release_source_only[OF reads] by metis
    then show ?thesis using gone(1) by auto
  next
    case (off svc w1)
    then have "release_frame ?r obs \<Longrightarrow> obs w' = obs w"
      using get[OF off(1)] release_source_only[OF reads] by metis
    then show ?thesis using off(1,2) by auto
  next
    case (unresolved svc w1 t)
    then have "obs w' = obs w"
      using get[OF unresolved(1)] dedupe_sink.resolveTunnel_quiet[OF base reads unresolved(2)] by simp
    then show ?thesis by simp
  next
    case (derived svc w1 t w2 out w3)
    have "obs w3 = obs w"
      using get[OF derived(1)] dedupe_sink.resolveTunnel_quiet[OF base reads derived(3)]
        dedupe_sink.deriveServiceRouting_quiet[OF base derived(4)] by simp
    note w3 = this
    show ?thesis
    proof (cases out)
      case None
      then show ?thesis using derived(5) w3 by simp
    next
      case (Some rt)
      have "release_frame ?r obs \<Longrightarrow> routing_empty rt \<Longrightarrow> obs w' = obs w"
        using derived(6)[OF Some] release_source_only[OF reads] w3 by metis
      moreover have "fst (deriveServiceRouting ?r svc (dedupe_emit ?r (svc_meta svc) EvWarning) w2) \<noteq> None"
        using derived(4) Some by simp
      ultimately show ?thesis using derived(1)[simplified] derived(2,4) Some
        by (metis old.prod.inject sum.inject(2))
    qed
  qed
qed

section \<open>Concrete Services\<close>

definition a_service :: "strmap \<Rightarrow> string \<Rightarrow> service_obj" where
  "a_service ann ip = \<lparr>svc_meta = (new_meta ''app'' ''web'')\<lparr>m_annotations := ann\<rparr>, svc_type = ''ClusterIP'',
     svc_externalTrafficPolicy = [], svc_clusterIP = ip, svc_selector = [],
     svc_ports = [\<lparr>sp_name = ''http'', sp_protocol = ''TCP'', sp_port = 80, sp_targetPort = 8080, sp_nodePort = 0\<rparr>,
                  \<lparr>sp_name = ''db'', sp_protocol = ''TCP'', sp_port = 5432, sp_targetPort = 5432, sp_nodePort = 0\<rparr>]\<rparr>"

lemma agents_source_range: "source_range_ok (agents_source as)"
  by (simp add: source_range_ok_def agents_source_def)

theorem deriveServiceRouting_scoped_witness:
  "let svc = a_service [(''towonel.io/db.tcp'', ''raw''), (''towonel.io/db.public-port'', ''15432'')] ''10.0.0.7'' in
   \<exists>ks. mset ks = mset [''towonel.io/db.tcp'', ''towonel.io/db.public-port''] \<and>
     fst (deriveServiceRouting (agents_source []) svc (\<lambda>rs m w. w) ()) =
      (if list_ex (undeclared svc) ks \<or> routing_empty (scoped_routing svc ks) then None
       else Some (scoped_routing svc ks))"
proof -
  let ?svc = "a_service [(''towonel.io/db.tcp'', ''raw''), (''towonel.io/db.public-port'', ''15432'')] ''10.0.0.7''"
  have ann: "map fst (m_annotations (svc_meta ?svc)) = [''towonel.io/db.tcp'', ''towonel.io/db.public-port'']"
    by (simp add: a_service_def)
  have "parsePortScopedKey ''towonel.io/db.tcp'' = Some (''db'', ''tcp'')"
    by (simp add: parsePortScopedKey_Some)
  then have sc: "list_ex (\<lambda>k. parsePortScopedKey k \<noteq> None) (map fst (m_annotations (svc_meta ?svc)))"
    unfolding ann by simp
  have "distinct (map fst (m_annotations (svc_meta ?svc)))" unfolding ann by simp
  from deriveServiceRouting_scoped[OF agents_source_range this sc] show ?thesis unfolding Let_def ann .
qed

theorem deriveServiceRouting_single_witness:
  "fst (deriveServiceRouting (agents_source []) (a_service [(AnnotationTunnel, ''true''),
      (AnnotationSrcHostname, ''a.example'')] ''None'') (\<lambda>rs m w. w) (0 :: nat)) = None"
proof -
  let ?svc = "a_service [(AnnotationTunnel, ''true''), (AnnotationSrcHostname, ''a.example'')] ''None''"
  obtain res w' where run: "deriveServiceRouting (agents_source []) ?svc (\<lambda>rs m w. w) (0 :: nat) = (res, w')" by fastforce
  have "CHR ''.'' \<notin> set ''tunnel''" "CHR ''.'' \<notin> set ''hostname''" by simp_all
  then have "parsePortScopedKey AnnotationTunnel = None" "parsePortScopedKey AnnotationSrcHostname = None"
    by (simp_all add: parsePortScopedKey_def AnnotationTunnel_def AnnotationSrcHostname_def cut_last_def)
  then have no: "\<not> list_ex (\<lambda>k. parsePortScopedKey k \<noteq> None) (map fst (m_annotations (svc_meta ?svc)))"
    by (simp add: a_service_def)
  have "res = None"
  proof (rule ccontr)
    assume "res \<noteq> None"
    then obtain rt where "res = Some rt" by blast
    with deriveServiceRouting_single[OF agents_source_range no run]
    have "length (rt_tcp rt @ rt_udp rt @ rt_services rt) = 1"
      and "\<forall>e. e \<notin> set (rt_tcp rt @ rt_udp rt @ rt_services rt)"
      by (auto simp: a_service_def AnnotationTunnel_def AnnotationSrcHostname_def AnnotationSrcOrigin_def)
    then show False by (metis length_0_conv list.set_intros(1) list.exhaust zero_neq_one)
  qed
  then show ?thesis using run by simp
qed

lemma agents_source_reads: "source_reads ((agents_source as)\<lparr>sr_get_service := (\<lambda>k w. (Inr svc, w))\<rparr>) obs"
  by (simp add: source_reads_def base_frame_def agents_source_def)

theorem Reconcile_service_consent_witness:
  "snd (Reconcile_service ((agents_source [])\<lparr>sr_get_service := (\<lambda>k w. (Inr (a_service [] ''10.0.0.7''), w))\<rparr>)
     None (''app'', ''web'') (3 :: nat)) = 3"
proof -
  let ?r = "(agents_source [] :: nat source_reconciler)\<lparr>sr_get_service := (\<lambda>k w. (Inr (a_service [] ''10.0.0.7''), w))\<rparr>"
  obtain res w' where run: "Reconcile_service ?r None (''app'', ''web'') 3 = (res, w')" by fastforce
  have same: "ensure None ?r = ?r" by (simp add: ensure_def agents_source_def)
  have "release_frame ?r (\<lambda>w. w)" by (simp add: release_frame_def agents_source_def)
  moreover have "\<not> truthy []"
    by (simp add: truthy_def ParseTruthy_def)
  ultimately have "w' = 3"
    using Reconcile_service_consent[of None ?r "\<lambda>w. w", OF _ run] agents_source_reads unfolding same
    by (auto simp: a_service_def new_meta_def)
  then show ?thesis using run by simp
qed

end
