(* ===== verification/SourceGateway.thy ===== *)
theory SourceGateway
  imports SourceService
begin

text \<open>
  \<open>gateway_source_controller.go\<close>, \<open>httproute_source_controller.go\<close> and the predicates of
  \<open>source_base.go\<close>: a Gateway forwards its listener hostnames to its proxy Service, an HTTPRoute its
  hostnames to the proxy of its parent Gateway, either because it opted in itself or because a
  parent Gateway selects it.
\<close>

section \<open>Gateways\<close>

definition parseGatewayServiceRef :: "string \<Rightarrow> string \<Rightarrow> goerr + (nn \<times> int)" where
  "parseGatewayServiceRef raw0 defNS =
     (let raw = trim_space raw0;
          rest = (\<lambda>raw port.
            let (ns, name) = (case cut raw ''/'' of Some p \<Rightarrow> p | None \<Rightarrow> (defNS, raw)) in
            if ns = [] \<or> name = [] then Inl (PlainError (''malformed gateway-service '' @ quote raw))
            else Inr ((ns, name), port))
      in case cut_last raw CHR '':'' of
           Some (before, portStr) \<Rightarrow>
             (case atoi portStr of
                None \<Rightarrow> Inl (PlainError (''invalid port in gateway-service '' @ quote raw))
              | Some p \<Rightarrow>
                  if p \<le> 0 \<or> p > 65535
                  then Inl (PlainError (''invalid port in gateway-service '' @ quote raw))
                  else rest before p)
         | None \<Rightarrow> rest raw 0)"

fun listeners_loop :: "string \<Rightarrow> string option list \<Rightarrow> string list \<Rightarrow> entry list \<Rightarrow> entry list" where
  "listeners_loop origin [] seen out = out"
| "listeners_loop origin (l # ls) seen out =
     (case l of
        None \<Rightarrow> listeners_loop origin ls seen out
      | Some host \<Rightarrow>
          if host = [] \<or> List.member seen host then listeners_loop origin ls seen out
          else listeners_loop origin ls (host # seen)
            (out @ [[(''hostname'', JStr host), (''origin'', JStr origin)]]))"

definition deriveGatewayRouting ::
  "('w, 'b) source_reconciler_scheme \<Rightarrow> gateway \<Rightarrow> 'w emitter \<Rightarrow> 'w \<Rightarrow> routing option \<times> 'w" where
  "deriveGatewayRouting r gw emit w =
     (let raw = mget (m_annotations (gw_meta gw)) AnnotationGatewayService in
      if raw = [] then (None, emit ReasonGatewayServiceUnset
        ''towonel.io/gateway-service is required on an opted-in Gateway (the proxy Service is not derivable from the Gateway object)'' w)
      else (case parseGatewayServiceRef raw (m_ns (gw_meta gw)) of
         Inl e \<Rightarrow> (None, emit ReasonInvalidAnnotation (err_text e) w)
       | Inr (svcNN, port0) \<Rightarrow>
           (case sr_get_service r svcNN w of
              (Inl e, w1) \<Rightarrow> (None, emit ReasonInvalidAnnotation
                (''gateway-service '' @ nn_str svcNN @ '' not found: '' @ err_text e) w1)
            | (Inr svc, w1) \<Rightarrow>
                (case effectiveServicePort svc port0 of
                   None \<Rightarrow> (None, emit ReasonInvalidAnnotation
                     (''gateway-service '' @ nn_str svcNN @ '' has no ports; specify a port'') w1)
                 | Some port \<Rightarrow>
                     let services = listeners_loop (originOf (svc_clusterIP svc) port) (gw_listeners gw) [] [] in
                     if services = [] then (None, emit ReasonInvalidAnnotation
                       ''Gateway has no listener with a hostname to expose'' w1)
                     else (Some (no_routing\<lparr>rt_services := services\<rparr>), w1)))))"

definition Reconcile_gateway ::
  "('w, 'b) source_reconciler_scheme \<Rightarrow> (event \<Rightarrow> 'w \<Rightarrow> 'w) option \<Rightarrow> nn \<Rightarrow> ('w, reconcile_result) op" where
  "Reconcile_gateway r0 rec req w =
     (let r = ensure rec r0 in
      case sr_get_gateway r req w of
        (Inl e, w1) \<Rightarrow> if is_not_found e then release_source r ''Gateway'' req w1 else (Inl e, w1)
      | (Inr gw, w1) \<Rightarrow>
          let m = gw_meta gw; ann = m_annotations m in
          if \<not> truthy (mget ann AnnotationTunnel) then release_source r ''Gateway'' (key_of m) w1
          else (case resolveTunnel r (dedupe_emit r m EvWarning) (mget ann AnnotationTunnelRef) (m_ns m) w1 of
             (Inl e, w2) \<Rightarrow> (Inl e, w2)
           | (Inr None, w2) \<Rightarrow> (Inr 0, w2)
           | (Inr (Some tunnel), w2) \<Rightarrow>
               (case deriveGatewayRouting r gw (dedupe_emit r m EvWarning) w2 of
                  (None, w3) \<Rightarrow> (Inr 0, w3)
                | (Some rt, w3) \<Rightarrow>
                    applyContribution r (sr_agentNamespace r) (sr_defaultReplicas r) ''Gateway'' m tunnel
                      (mget ann AnnotationAgentRef) rt w3)))"

definition gateway_sourcesForAgent :: "('w, 'b) source_reconciler_scheme \<Rightarrow> towonel_agent \<Rightarrow> ('w, nn list) op" where
  "gateway_sourcesForAgent r = agentSourceRequests (list_meta gw_meta (sr_list_gateways r)) (sr_agentNamespace r)"

definition gateway_sourcesForTunnel :: "('w, 'b) source_reconciler_scheme \<Rightarrow> towonel_tunnel \<Rightarrow> ('w, nn list) op" where
  "gateway_sourcesForTunnel r = tunnelSourceRequests (list_meta gw_meta (sr_list_gateways r))"

section \<open>Predicates\<close>

datatype 'a watch_event = CreateEv 'a | UpdateEv 'a 'a | DeleteEv 'a | GenericEv 'a

fun admit_event :: "('a \<Rightarrow> bool) \<Rightarrow> 'a watch_event \<Rightarrow> bool" where
  "admit_event p (CreateEv x) = p x"
| "admit_event p (UpdateEv old new) = (p old \<or> p new)"
| "admit_event p (DeleteEv x) = p x"
| "admit_event p (GenericEv x) = p x"

definition sourcePredicate :: "meta watch_event \<Rightarrow> bool" where
  "sourcePredicate = admit_event (\<lambda>m. has_key (m_annotations m) AnnotationTunnel)"

text \<open>The change predicates of controller-runtime are arguments.\<close>

definition crossWatchPredicate ::
  "('a watch_event \<Rightarrow> bool) \<Rightarrow> ('a watch_event \<Rightarrow> bool) \<Rightarrow> ('a watch_event \<Rightarrow> bool) \<Rightarrow> 'a watch_event \<Rightarrow> bool" where
  "crossWatchPredicate generation annotation label e \<longleftrightarrow> generation e \<or> annotation e \<or> label e"

section \<open>Parents of a route\<close>

definition parentRefNamespace :: "parent_ref \<Rightarrow> string \<Rightarrow> string" where
  "parentRefNamespace p routeNS = (case pa_namespace p of Some ns \<Rightarrow> ns | None \<Rightarrow> routeNS)"

definition isGatewayParent :: "parent_ref \<Rightarrow> bool" where
  "isGatewayParent p =
     (let group = (case pa_group p of Some g \<Rightarrow> g | None \<Rightarrow> ''gateway.networking.k8s.io'');
          kind = (case pa_kind p of Some k \<Rightarrow> k | None \<Rightarrow> ''Gateway'')
      in group = ''gateway.networking.k8s.io'' \<and> kind = ''Gateway'')"

definition parent_key :: "parent_ref \<Rightarrow> string \<Rightarrow> nn" where
  "parent_key p routeNS = (parentRefNamespace p routeNS, pa_name p)"

definition httpRouteSourcePredicate :: "http_route watch_event \<Rightarrow> bool" where
  "httpRouteSourcePredicate = admit_event (\<lambda>rt.
     has_key (m_annotations (hr_meta rt)) AnnotationTunnel \<or> list_ex isGatewayParent (hr_parentRefs rt))"

definition httpRouteForPredicate ::
  "(http_route watch_event \<Rightarrow> bool) \<Rightarrow> (http_route watch_event \<Rightarrow> bool) \<Rightarrow> http_route watch_event \<Rightarrow> bool" where
  "httpRouteForPredicate generation annotation e \<longleftrightarrow>
     httpRouteSourcePredicate e \<and> (generation e \<or> annotation e)"

section \<open>Consent of a Gateway\<close>

definition splitNamespaces :: "string \<Rightarrow> string list" where
  "splitNamespaces raw = filter (\<lambda>ns. ns \<noteq> []) (map trim_space (split_on CHR '','' raw))"

definition gatewayAllowsRouteNamespace :: "gateway \<Rightarrow> string \<Rightarrow> bool" where
  "gatewayAllowsRouteNamespace gw routeNS =
     (if m_ns (gw_meta gw) = routeNS then True
      else let raw = trim_space (mget (m_annotations (gw_meta gw)) AnnotationAutoRoutesNamespaces) in
        if raw = [] then False
        else if equal_fold_ascii raw ''all'' then True
        else List.member (splitNamespaces raw) routeNS)"

fun auto_loop ::
  "('w, 'b) source_reconciler_scheme \<Rightarrow> 'w emitter \<Rightarrow> string \<Rightarrow> parent_ref list \<Rightarrow> ('w, goerr + bool) op" where
  "auto_loop r emit routeNS [] w = (Inr False, w)"
| "auto_loop r emit routeNS (p # ps) w =
     (if \<not> isGatewayParent p then auto_loop r emit routeNS ps w
      else (case sr_get_gateway r (parent_key p routeNS) w of
         (Inl e, w1) \<Rightarrow> if is_not_found e then auto_loop r emit routeNS ps w1 else (Inl e, w1)
       | (Inr gw, w1) \<Rightarrow>
           if \<not> gatewayAllowsRouteNamespace gw routeNS then auto_loop r emit routeNS ps w1
           else if \<not> truthy (mget (m_annotations (gw_meta gw)) AnnotationAutoRoutes)
           then auto_loop r emit routeNS ps w1
           else if mget (m_annotations (gw_meta gw)) AnnotationGatewayService = []
           then auto_loop r emit routeNS ps (emit ReasonGatewayServiceUnset
             (''Gateway '' @ nn_str (key_of (gw_meta gw)) @ '' has '' @ AnnotationAutoRoutes @ '' but no '' @
              AnnotationGatewayService @ ''; cannot auto-tunnel its routes (no origin to forward to)'') w1)
           else (Inr True, w1)))"

definition autoSelectedByGateway ::
  "('w, 'b) source_reconciler_scheme \<Rightarrow> http_route \<Rightarrow> 'w emitter \<Rightarrow> ('w, goerr + bool) op" where
  "autoSelectedByGateway r rt emit = auto_loop r emit (m_ns (hr_meta rt)) (hr_parentRefs rt)"

section \<open>The proxy of a route\<close>

text \<open>The set of origins is a list without repetitions, in the order of discovery.\<close>

fun proxy_loop ::
  "('w, 'b) source_reconciler_scheme \<Rightarrow> 'w emitter \<Rightarrow> string \<Rightarrow> parent_ref list \<Rightarrow> string list
     \<Rightarrow> ('w, goerr + string list) op" where
  "proxy_loop r emit routeNS [] origins w = (Inr origins, w)"
| "proxy_loop r emit routeNS (p # ps) origins w =
     (if \<not> isGatewayParent p then proxy_loop r emit routeNS ps origins w
      else (case sr_get_gateway r (parent_key p routeNS) w of
         (Inl e, w1) \<Rightarrow>
           if is_not_found e
           then proxy_loop r emit routeNS ps origins (emit ReasonInvalidAnnotation
             (''parent Gateway '' @ nn_str (parent_key p routeNS) @ '' not found'') w1)
           else (Inl e, w1)
       | (Inr gw, w1) \<Rightarrow>
           let raw = mget (m_annotations (gw_meta gw)) AnnotationGatewayService in
           if raw = []
           then proxy_loop r emit routeNS ps origins (emit ReasonGatewayServiceUnset
             (''parent Gateway '' @ nn_str (parentRefNamespace p routeNS, m_name (gw_meta gw)) @ '' has no '' @
              AnnotationGatewayService @ '' annotation'') w1)
           else (case parseGatewayServiceRef raw (m_ns (gw_meta gw)) of
              Inl e \<Rightarrow> proxy_loop r emit routeNS ps origins (emit ReasonInvalidAnnotation (err_text e) w1)
            | Inr (svcNN, port) \<Rightarrow>
                (case sr_get_service r svcNN w1 of
                   (Inl e, w2) \<Rightarrow>
                     if is_not_found e
                     then proxy_loop r emit routeNS ps origins (emit ReasonInvalidAnnotation
                       (''gateway-service '' @ nn_str svcNN @ '' not found'') w2)
                     else (Inl e, w2)
                 | (Inr svc, w2) \<Rightarrow>
                     (case effectiveServicePort svc port of
                        None \<Rightarrow> proxy_loop r emit routeNS ps origins (emit ReasonInvalidAnnotation
                          (''gateway-service '' @ nn_str svcNN @ '' has no ports; specify a port'') w2)
                      | Some eport \<Rightarrow>
                          proxy_loop r emit routeNS ps
                            (let o1 = originOf (svc_clusterIP svc) eport
                             in if List.member origins o1 then origins else origins @ [o1]) w2)))))"

definition resolveParentGatewayProxy ::
  "('w, 'b) source_reconciler_scheme \<Rightarrow> http_route \<Rightarrow> 'w emitter \<Rightarrow> ('w, goerr + string option) op" where
  "resolveParentGatewayProxy r rt emit w =
     (case proxy_loop r emit (m_ns (hr_meta rt)) (hr_parentRefs rt) [] w of
        (Inl e, w1) \<Rightarrow> (Inl e, w1)
      | (Inr origins, w1) \<Rightarrow>
          (case origins of
             [] \<Rightarrow> (Inr None, emit ReasonGatewayServiceUnset
               ''no parent Gateway with a usable towonel.io/gateway-service'' w1)
           | [o1] \<Rightarrow> (Inr (Some o1), w1)
           | _ \<Rightarrow> (Inr None, emit ReasonAmbiguousGateway
               (''parentRefs resolve to '' @ itoa (int (length origins)) @
                '' distinct gateway proxies; one origin is required '' @ [CHR 0xE2, CHR 0x80, CHR 0x94] @
                '' name them on separate tunnels or use an explicit TowonelAgent'') w1)))"

definition deriveHTTPRouteRouting ::
  "('w, 'b) source_reconciler_scheme \<Rightarrow> http_route \<Rightarrow> 'w emitter \<Rightarrow> ('w, goerr + routing option) op" where
  "deriveHTTPRouteRouting r rt emit w =
     (if hr_hostnames rt = [] then (Inr None, emit ReasonInvalidAnnotation
        ''HTTPRoute has no spec.hostnames to expose'' w)
      else (case resolveParentGatewayProxy r rt emit w of
         (Inl e, w1) \<Rightarrow> (Inl e, w1)
       | (Inr None, w1) \<Rightarrow> (Inr None, w1)
       | (Inr (Some origin), w1) \<Rightarrow>
           (Inr (Some (no_routing\<lparr>rt_services :=
              map (\<lambda>h. [(''hostname'', JStr h), (''origin'', JStr origin)]) (hr_hostnames rt)\<rparr>)), w1)))"

section \<open>\<open>HTTPRouteSourceReconciler\<close>\<close>

text \<open>The decision whether a route is tunnelled.\<close>

definition route_opt_in ::
  "('w, 'b) source_reconciler_scheme \<Rightarrow> http_route \<Rightarrow> ('w, goerr + bool) op" where
  "route_opt_in r rt w =
     (let m = hr_meta rt in
      case map_of (m_annotations m) AnnotationTunnel of
        Some raw \<Rightarrow> (Inr (truthy raw), w)
      | None \<Rightarrow>
          (case autoSelectedByGateway r rt (dedupe_emit r m EvWarning) w of
             (Inl e, w1) \<Rightarrow> (Inl e, w1)
           | (Inr False, w1) \<Rightarrow> (Inr False, w1)
           | (Inr True, w1) \<Rightarrow> (Inr True, dedupe_emit r m EvNormal ReasonAutoSelectedByGateway
               (''auto-selected for tunneling by a parent Gateway's towonel.io/auto-routes; set towonel.io/tunnel: '' @
                quote ''false'' @ '' on this route to opt out'') w1)))"

definition tunnel_route ::
  "('w, 'b) source_reconciler_scheme \<Rightarrow> http_route \<Rightarrow> ('w, reconcile_result) op" where
  "tunnel_route r rt w =
     (let m = hr_meta rt; ann = m_annotations m; emit = dedupe_emit r m EvWarning in
      case resolveTunnel r emit (mget ann AnnotationTunnelRef) (m_ns m) w of
        (Inl e, w2) \<Rightarrow> (Inl e, w2)
      | (Inr None, w2) \<Rightarrow> (Inr 0, w2)
      | (Inr (Some tunnel), w2) \<Rightarrow>
          (case deriveHTTPRouteRouting r rt emit w2 of
             (Inl e, w3) \<Rightarrow> (Inl e, w3)
           | (Inr None, w3) \<Rightarrow> (Inr 0, w3)
           | (Inr (Some routing), w3) \<Rightarrow>
               applyContribution r (sr_agentNamespace r) (sr_defaultReplicas r) ''HTTPRoute'' m tunnel
                 (mget ann AnnotationAgentRef) routing w3))"

definition Reconcile_route ::
  "('w, 'b) source_reconciler_scheme \<Rightarrow> (event \<Rightarrow> 'w \<Rightarrow> 'w) option \<Rightarrow> nn \<Rightarrow> ('w, reconcile_result) op" where
  "Reconcile_route r0 rec req w =
     (let r = ensure rec r0 in
      case sr_get_route r req w of
        (Inl e, w1) \<Rightarrow> if is_not_found e then release_source r ''HTTPRoute'' req w1 else (Inl e, w1)
      | (Inr rt, w1) \<Rightarrow>
          (case route_opt_in r rt w1 of
             (Inl e, w2) \<Rightarrow> (Inl e, w2)
           | (Inr False, w2) \<Rightarrow> release_source r ''HTTPRoute'' (key_of (hr_meta rt)) w2
           | (Inr True, w2) \<Rightarrow> tunnel_route r rt w2))"

section \<open>Watches of routes\<close>

definition parents :: "http_route \<Rightarrow> nn \<Rightarrow> bool" where
  "parents rt k = list_ex (\<lambda>p. isGatewayParent p \<and> parent_key p (m_ns (hr_meta rt)) = k) (hr_parentRefs rt)"

definition routesForGateway :: "('w, 'b) source_reconciler_scheme \<Rightarrow> gateway \<Rightarrow> ('w, nn list) op" where
  "routesForGateway r gw w = (case sr_list_routes r w of
     (Inl e, w1) \<Rightarrow> ([], w1)
   | (Inr items, w1) \<Rightarrow>
       (map (\<lambda>rt. key_of (hr_meta rt)) (filter (\<lambda>rt. parents rt (key_of (gw_meta gw))) items), w1))"

definition route_sourcesForAgent :: "('w, 'b) source_reconciler_scheme \<Rightarrow> towonel_agent \<Rightarrow> ('w, nn list) op" where
  "route_sourcesForAgent r = agentSourceRequests (list_meta hr_meta (sr_list_routes r)) (sr_agentNamespace r)"

text \<open>Whether a parent Gateway has auto-routes on; a failed read of one parent skips it.\<close>

fun parent_selects ::
  "('w, 'b) source_reconciler_scheme \<Rightarrow> string \<Rightarrow> parent_ref list \<Rightarrow> ('w, bool) op" where
  "parent_selects r routeNS [] w = (False, w)"
| "parent_selects r routeNS (p # ps) w =
     (if \<not> isGatewayParent p then parent_selects r routeNS ps w
      else (case sr_get_gateway r (parent_key p routeNS) w of
         (Inl e, w1) \<Rightarrow> parent_selects r routeNS ps w1
       | (Inr gw, w1) \<Rightarrow>
           if \<not> gatewayAllowsRouteNamespace gw routeNS then parent_selects r routeNS ps w1
           else if truthy (mget (m_annotations (gw_meta gw)) AnnotationAutoRoutes) then (True, w1)
           else parent_selects r routeNS ps w1))"

fun routes_for_tunnel ::
  "('w, 'b) source_reconciler_scheme \<Rightarrow> nn \<Rightarrow> http_route list \<Rightarrow> ('w, nn list) op" where
  "routes_for_tunnel r k [] w = ([], w)"
| "routes_for_tunnel r k (rt # rts) w =
     (let m = hr_meta rt; ann = m_annotations m;
          (hit, w1) = (if has_key ann AnnotationTunnel then (sourceTargetsTunnel ann (m_ns m) k, w)
            else if mget ann AnnotationTunnelRef = [] then parent_selects r (m_ns m) (hr_parentRefs rt) w
            else (sourceTargetsTunnel ann (m_ns m) k, w));
          (reqs, w2) = routes_for_tunnel r k rts w1
      in (if hit then key_of m # reqs else reqs, w2))"

definition route_sourcesForTunnel :: "('w, 'b) source_reconciler_scheme \<Rightarrow> towonel_tunnel \<Rightarrow> ('w, nn list) op" where
  "route_sourcesForTunnel r tunnel w = (case sr_list_routes r w of
     (Inl e, w1) \<Rightarrow> ([], w1)
   | (Inr items, w1) \<Rightarrow> routes_for_tunnel r (key_of (tt_meta tunnel)) items w1)"

end
