(* ===== verification/SourceConsent.thy ===== *)
theory SourceConsent
  imports SourceGateway
begin

text \<open>
  What the Gateway and HTTPRoute controllers guarantee: references parse back, a Gateway's listeners
  become one entry per hostname, a route gets the one proxy its parents agree on, nothing is applied
  for a route nobody consented to expose, and the watches lose no route.
\<close>

section \<open>References to a proxy Service\<close>

lemma plain_digits: "list_all plain_char (itoa p)"
proof -
  have "is_digit c \<Longrightarrow> plain_char c" for c by (auto simp: is_digit_def plain_char_def Let_def)
  then have "list_all plain_char (nat_str n)" for n
    using nat_str_digits[of n] by (auto simp: list_all_iff)
  then show ?thesis by (simp add: itoa_def plain_char_def)
qed

lemma itoa_no_colon: "CHR '':'' \<notin> set (itoa p)"
proof -
  have "CHR '':'' \<notin> set (nat_str n)" for n
    using nat_str_digits[of n] by (auto simp: list_all_iff is_digit_def)
  then show ?thesis by (simp add: itoa_def)
qed

text \<open>A reference to a proxy Service, printed with its namespace and port, parses back to exactly
  that Service and port; without a port it asks for the first one, and a bare name means the
  Gateway's own namespace.\<close>

theorem parseGatewayServiceRef_roundtrip:
  assumes "list_all plain_char (ns @ name)" and "ns \<noteq> []" and "name \<noteq> []"
    and "CHR ''/'' \<notin> set (ns @ name)" and "CHR '':'' \<notin> set (ns @ name)" and "def \<noteq> []"
  shows "(0 < p \<and> p \<le> 65535 \<longrightarrow>
      parseGatewayServiceRef (nn_str (ns, name) @ '':'' @ itoa p) def = Inr ((ns, name), p)) \<and>
    parseGatewayServiceRef (nn_str (ns, name)) def = Inr ((ns, name), 0) \<and>
    parseGatewayServiceRef name def = Inr ((def, name), 0)"
proof -
  have trim: "trim_space (ns @ CHR ''/'' # name @ CHR '':'' # itoa p) = ns @ CHR ''/'' # name @ CHR '':'' # itoa p"
    "trim_space (ns @ CHR ''/'' # name) = ns @ CHR ''/'' # name" "trim_space name = name"
    using assms(1) plain_digits by (auto intro!: trim_space_plain simp: plain_char_def)
  have last: "cut_last (ns @ CHR ''/'' # name @ CHR '':'' # itoa p) CHR '':'' = Some (ns @ CHR ''/'' # name, itoa p)"
    using cut_last_append[OF itoa_no_colon, of "ns @ CHR ''/'' # name" p] by simp
  have none: "cut_last (ns @ CHR ''/'' # name) CHR '':'' = None" "cut_last name CHR '':'' = None"
    using assms(5) by simp_all
  have cut: "cut (ns @ CHR ''/'' # name) ''/'' = Some (ns, name)" using assms(4) by simp
  have bare: "cut name ''/'' = None" using assms(4) by simp
  have "atoi (itoa p) = Some p" if "0 < p \<and> p \<le> 65535"
    using that by (intro atoi_itoa) (simp_all add: min_int64_def max_int64_def)
  then have "0 < p \<and> p \<le> 65535 \<longrightarrow>
      parseGatewayServiceRef (nn_str (ns, name) @ '':'' @ itoa p) def = Inr ((ns, name), p)"
    by (simp add: parseGatewayServiceRef_def nn_str_def trim(1) last cut assms(2,3))
  moreover have "parseGatewayServiceRef (nn_str (ns, name)) def = Inr ((ns, name), 0)"
    by (simp add: parseGatewayServiceRef_def nn_str_def trim(2) none(1) cut assms(2,3) del: cut_last_None)
  moreover have "parseGatewayServiceRef name def = Inr ((def, name), 0)"
    by (simp add: parseGatewayServiceRef_def trim(3) none(2) bare assms(3,6) del: cut_last_None cut_char_None)
  ultimately show ?thesis by blast
qed

section \<open>Listeners\<close>

text \<open>The hostnames of the listeners, each at its first occurrence.\<close>

definition listener_hosts :: "gateway \<Rightarrow> string list" where
  "listener_hosts gw = rev (remdups (rev (filter (\<lambda>h. h \<noteq> []) (List.map_filter (\<lambda>l. l) (gw_listeners gw)))))"

definition proxy_entry :: "string \<Rightarrow> string \<Rightarrow> entry" where
  "proxy_entry origin h = [(''hostname'', JStr h), (''origin'', JStr origin)]"

lemma listeners_loop_spec:
  "listeners_loop origin ls seen out =
     out @ map (proxy_entry origin) (filter (\<lambda>h. h \<notin> set seen)
       (rev (remdups (rev (filter (\<lambda>h. h \<noteq> []) (List.map_filter (\<lambda>l. l) ls))))))"
proof (induction origin ls seen out rule: listeners_loop.induct)
  case (1 origin seen out)
  then show ?case by (simp add: map_filter_simps)
next
  case (2 origin l ls seen out)
  have fil: "filter (\<lambda>x. x \<notin> set seen) (filter (\<lambda>x. x \<noteq> h) xs) = filter (\<lambda>x. x \<notin> set (h # seen)) xs" for h and xs :: "string list"
    by (induction xs) auto
  have rem: "rev (remdups (rev (h # xs))) = h # filter (\<lambda>x. x \<noteq> h) (rev (remdups (rev xs)))" for h and xs :: "string list"
    by (induction xs rule: rev_induct) auto
  show ?case
  proof (cases l)
    case None
    then show ?thesis using 2 by (simp add: map_filter_simps)
  next
    case (Some h)
    consider "h = []" | "h \<noteq> []" "h \<in> set seen" | "h \<noteq> []" "h \<notin> set seen" by blast
    then show ?thesis
    proof cases
      case 3
      then have "listeners_loop origin (l # ls) seen out =
          listeners_loop origin ls (h # seen) (out @ [proxy_entry origin h])"
        using Some by (simp add: proxy_entry_def)
      then show ?thesis using 2 Some 3 fil rem by (simp add: map_filter_simps proxy_entry_def)
    next
      case 2
      let ?xs = "rev (remdups (rev (filter (\<lambda>h. h \<noteq> []) (List.map_filter (\<lambda>l. l) ls))))"
      have "filter (\<lambda>x. x \<notin> set seen) (filter (\<lambda>x. x \<noteq> h) ?xs) = filter (\<lambda>x. x \<notin> set seen) ?xs"
        using 2(2) unfolding filter_filter by (intro filter_cong) auto
      then show ?thesis using "2.IH" Some 2 rem by (simp add: map_filter_simps)
    qed (use 2 Some in \<open>simp add: map_filter_simps\<close>)
  qed
qed

text \<open>An opted-in Gateway exposes each hostname of its listeners once, in their order, all with the
  one origin its proxy Service gives; the server-side apply is never sent a duplicate key.\<close>

theorem deriveGatewayRouting_hosts:
  assumes "deriveGatewayRouting r gw emit w = (Some rt, w')"
  shows "\<exists>k port0 svc port. parseGatewayServiceRef (mget (m_annotations (gw_meta gw)) AnnotationGatewayService)
        (m_ns (gw_meta gw)) = Inr (k, port0) \<and>
      sr_get_service r k w = (Inr svc, w') \<and> effectiveServicePort svc port0 = Some port \<and>
      rt = no_routing\<lparr>rt_services := map (proxy_entry (originOf (svc_clusterIP svc) port)) (listener_hosts gw)\<rparr> \<and>
      map entry_hostname (rt_services rt) = listener_hosts gw \<and> distinct (listener_hosts gw) \<and> listener_hosts gw \<noteq> []"
proof -
  have names: "map entry_hostname (map (proxy_entry origin) hs) = hs" for origin hs
    by (induction hs) (auto simp: entry_hostname_def proxy_entry_def)
  have dist: "distinct (listener_hosts gw)" by (simp add: listener_hosts_def)
  have loop: "listeners_loop origin (gw_listeners gw) [] [] = map (proxy_entry origin) (listener_hosts gw)" for origin
    by (simp add: listeners_loop_spec listener_hosts_def)
  show ?thesis using assms dist
    by (auto simp: deriveGatewayRouting_def Let_def loop names simp del: map_map
        split: if_splits sum.splits prod.splits option.splits)
qed

section \<open>One proxy per route\<close>

text \<open>The origin one parent gives, on a cluster whose Gateways are \<open>G\<close> and whose Services are \<open>S\<close>: an
  error of the API server, nothing usable, or an origin.\<close>

definition parent_origin ::
  "(nn \<Rightarrow> goerr + gateway) \<Rightarrow> (nn \<Rightarrow> goerr + service_obj) \<Rightarrow> string \<Rightarrow> parent_ref \<Rightarrow> goerr + string option" where
  "parent_origin G S routeNS p =
     (if \<not> isGatewayParent p then Inr None
      else (case G (parent_key p routeNS) of
         Inl e \<Rightarrow> if is_not_found e then Inr None else Inl e
       | Inr gw \<Rightarrow>
           let raw = mget (m_annotations (gw_meta gw)) AnnotationGatewayService in
           if raw = [] then Inr None
           else (case parseGatewayServiceRef raw (m_ns (gw_meta gw)) of
              Inl e \<Rightarrow> Inr None
            | Inr (k, port) \<Rightarrow>
                (case S k of
                   Inl e \<Rightarrow> if is_not_found e then Inr None else Inl e
                 | Inr svc \<Rightarrow> Inr (map_option (originOf (svc_clusterIP svc)) (effectiveServicePort svc port))))))"

definition usable_origins ::
  "(nn \<Rightarrow> goerr + gateway) \<Rightarrow> (nn \<Rightarrow> goerr + service_obj) \<Rightarrow> http_route \<Rightarrow> string set" where
  "usable_origins G S rt = {o1. \<exists>p\<in>set (hr_parentRefs rt). parent_origin G S (m_ns (hr_meta rt)) p = Inr (Some o1)}"

definition add_origin :: "string list \<Rightarrow> string option \<Rightarrow> string list" where
  "add_origin origins x = (case x of None \<Rightarrow> origins
     | Some o1 \<Rightarrow> if List.member origins o1 then origins else origins @ [o1])"

definition snapshot ::
  "('w, 'b) source_reconciler_scheme \<Rightarrow> (nn \<Rightarrow> goerr + gateway) \<Rightarrow> (nn \<Rightarrow> goerr + service_obj) \<Rightarrow> bool" where
  "snapshot r G S \<longleftrightarrow> (\<forall>k w. fst (sr_get_gateway r k w) = G k) \<and> (\<forall>k w. fst (sr_get_service r k w) = S k)"

lemma snapshot_get:
  "snapshot r G S \<Longrightarrow> sr_get_gateway r k w = (x, w1) \<Longrightarrow> x = G k"
  "snapshot r G S \<Longrightarrow> sr_get_service r k w = (y, w1) \<Longrightarrow> y = S k"
  unfolding snapshot_def by (metis fst_conv)+

lemma proxy_step:
  assumes "snapshot r G S"
  shows "\<exists>w1. proxy_loop r emit ns (p # ps) origins w =
    (case parent_origin G S ns p of Inl e \<Rightarrow> (Inl e, w1)
     | Inr x \<Rightarrow> proxy_loop r emit ns ps (add_origin origins x) w1)"
proof (cases "isGatewayParent p")
  case True
  obtain g v where g: "sr_get_gateway r (parent_key p ns) w = (g, v)" by fastforce
  have G: "G (parent_key p ns) = g" using snapshot_get(1)[OF assms g] by simp
  show ?thesis
  proof (cases g)
    case (Inl e)
    then show ?thesis using True g G by (auto simp: parent_origin_def add_origin_def)
  next
    case (Inr gw)
    let ?raw = "mget (m_annotations (gw_meta gw)) AnnotationGatewayService"
    show ?thesis
    proof (cases "?raw = [] \<or> isl (parseGatewayServiceRef ?raw (m_ns (gw_meta gw)))")
      case True
      then show ?thesis using \<open>isGatewayParent p\<close> g G Inr
        by (auto simp: parent_origin_def add_origin_def Let_def isl_def)
    next
      case False
      then obtain k port where ref: "?raw \<noteq> []" "parseGatewayServiceRef ?raw (m_ns (gw_meta gw)) = Inr (k, port)"
        by (cases "parseGatewayServiceRef ?raw (m_ns (gw_meta gw))") auto
      obtain s v2 where s: "sr_get_service r k v = (s, v2)" by fastforce
      have "S k = s" using snapshot_get(2)[OF assms s] by simp
      then show ?thesis using True g G Inr ref s
        by (auto simp: parent_origin_def add_origin_def Let_def split: sum.splits option.splits)
    qed
  qed
qed (auto simp: parent_origin_def add_origin_def)

lemma proxy_loop_spec:
  assumes snap: "snapshot r G S"
  shows "distinct origins \<Longrightarrow> proxy_loop r emit ns ps origins w = (Inr os, w') \<Longrightarrow>
    distinct os \<and> set os = set origins \<union> {o1. \<exists>p\<in>set ps. parent_origin G S ns p = Inr (Some o1)}"
proof (induction ps arbitrary: origins w)
  case (Cons p ps)
  obtain w1 where st: "proxy_loop r emit ns (p # ps) origins w =
    (case parent_origin G S ns p of Inl e \<Rightarrow> (Inl e, w1)
     | Inr x \<Rightarrow> proxy_loop r emit ns ps (add_origin origins x) w1)" using proxy_step[OF snap] by metis
  then obtain x where x: "parent_origin G S ns p = Inr x"
      "proxy_loop r emit ns ps (add_origin origins x) w1 = (Inr os, w')"
    using Cons.prems(2) by (auto split: sum.splits)
  have "distinct (add_origin origins x)" using Cons.prems(1)
    by (auto simp: add_origin_def split: option.splits)
  from Cons.IH[OF this x(2)] x(1) show ?case
    by (auto simp: add_origin_def split: option.splits if_splits)
qed simp

text \<open>C31: on a cluster that does not change during the run, a route is given an origin exactly when all
  its usable parents agree on that one; with none or with several it is given none, and one event
  says which.\<close>

theorem resolveParentGatewayProxy_unique:
  assumes "snapshot r G S" and "resolveParentGatewayProxy r rt emit w = (Inr res, w')"
  shows "(\<forall>o1. res = Some o1 \<longleftrightarrow> usable_origins G S rt = {o1}) \<and>
    (res = None \<longrightarrow> (\<exists>v msg. w' = emit
       (if usable_origins G S rt = {} then ReasonGatewayServiceUnset else ReasonAmbiguousGateway) msg v))"
proof -
  obtain os w1 where l: "proxy_loop r emit (m_ns (hr_meta rt)) (hr_parentRefs rt) [] w = (Inr os, w1)"
    using assms(2) by (auto simp: resolveParentGatewayProxy_def split: prod.splits sum.splits)
  have os: "distinct os" "set os = usable_origins G S rt"
    using proxy_loop_spec[OF assms(1) _ l] by (simp_all add: usable_origins_def)
  show ?thesis
  proof (cases os rule: remdups_adj.cases)
    case 1
    then show ?thesis using assms(2) l os(2)[symmetric] by (auto simp: resolveParentGatewayProxy_def)
  next
    case (2 x)
    then show ?thesis using assms(2) l os(2)[symmetric] by (auto simp: resolveParentGatewayProxy_def)
  next
    case (3 x y xs)
    then have ne: "usable_origins G S rt \<noteq> {}" "\<And>o1. usable_origins G S rt \<noteq> {o1}"
      using os by auto
    then have "res = None \<and> (\<exists>msg. w' = emit ReasonAmbiguousGateway msg w1)"
      using assms(2) l 3 by (auto simp: resolveParentGatewayProxy_def)
    then show ?thesis using ne by auto
  qed
qed

section \<open>Consent\<close>

text \<open>A parent of the route that selects it: a Gateway that was read during the run, whose owner allows
  the route's namespace, has auto-routes on and names a proxy Service.\<close>

definition selected_by ::
  "('w, 'b) source_reconciler_scheme \<Rightarrow> http_route \<Rightarrow> bool" where
  "selected_by r rt \<longleftrightarrow> (\<exists>p gw v v'. p \<in> set (hr_parentRefs rt) \<and> isGatewayParent p \<and>
     sr_get_gateway r (parent_key p (m_ns (hr_meta rt))) v = (Inr gw, v') \<and>
     gatewayAllowsRouteNamespace gw (m_ns (hr_meta rt)) \<and>
     truthy (mget (m_annotations (gw_meta gw)) AnnotationAutoRoutes) \<and>
     mget (m_annotations (gw_meta gw)) AnnotationGatewayService \<noteq> [])"

lemma auto_loop_selects:
  "auto_loop r emit ns ps w = (Inr True, w') \<Longrightarrow> \<exists>p gw v v'. p \<in> set ps \<and> isGatewayParent p \<and>
     sr_get_gateway r (parent_key p ns) v = (Inr gw, v') \<and> gatewayAllowsRouteNamespace gw ns \<and>
     truthy (mget (m_annotations (gw_meta gw)) AnnotationAutoRoutes) \<and>
     mget (m_annotations (gw_meta gw)) AnnotationGatewayService \<noteq> []"
proof (induction ps arbitrary: w)
  case (Cons p ps)
  show ?case
  proof (cases "\<exists>v. auto_loop r emit ns ps v = (Inr True, w')")
    case True
    then show ?thesis using Cons.IH by (metis list.set_intros(2))
  next
    case False
    then show ?thesis using Cons.prems
      by (auto split: if_splits prod.splits sum.splits)
  qed
qed simp

context event_sink
begin

lemma auto_loop_quiet:
  assumes "quiet obs" and "source_reads r obs"
  shows "auto_loop r emit ns ps w = (res, w') \<Longrightarrow> obs w' = obs w"
  by (induction ps arbitrary: w)
    (auto simp: emit_quiet[OF assms(1)] dest!: source_reads_run(7)[OF assms(2)]
      split: if_splits prod.splits sum.splits)

lemma proxy_loop_quiet:
  assumes "quiet obs" and "source_reads r obs"
  shows "proxy_loop r emit ns ps os w = (res, w') \<Longrightarrow> obs w' = obs w"
  by (induction ps arbitrary: os w)
    (auto simp: emit_quiet[OF assms(1)] Let_def
      dest!: source_reads_run(7)[OF assms(2)] source_reads_run(6)[OF assms(2)]
      split: if_splits prod.splits sum.splits option.splits)

lemma deriveHTTPRouteRouting_quiet:
  assumes "quiet obs" and "source_reads r obs" and "deriveHTTPRouteRouting r rt emit w = (res, w')"
  shows "obs w' = obs w"
  using assms(3)
  by (auto simp: deriveHTTPRouteRouting_def resolveParentGatewayProxy_def emit_quiet[OF assms(1)]
      dest!: proxy_loop_quiet[OF assms(1,2)]
      split: if_splits prod.splits sum.splits option.splits list.splits)

end

lemma route_opt_in_quiet:
  assumes "source_reads r obs" and "route_opt_in r rt w = (res, w')"
  shows "obs w' = obs w"
proof -
  note base = source_reads_base[OF assms(1)]
  show ?thesis using assms(2)
    by (auto simp: route_opt_in_def autoSelectedByGateway_def Let_def dedupe_emit_frame[OF base]
        dest!: dedupe_sink.auto_loop_quiet[OF base assms(1)]
        split: option.splits prod.splits sum.splits bool.splits)
qed

lemma route_opt_in_consent:
  assumes "route_opt_in r rt w = (Inr True, w')"
  shows "case map_of (m_annotations (hr_meta rt)) AnnotationTunnel of
    Some raw \<Rightarrow> truthy raw | None \<Rightarrow> selected_by r rt"
  using assms
  by (auto simp: route_opt_in_def autoSelectedByGateway_def selected_by_def Let_def
      dest!: auto_loop_selects split: option.splits prod.splits sum.splits bool.splits)

text \<open>C12: no route is exposed without consent. When anything but releases and deletes happened in a run,
  the route's own annotation is a true value or, only if it has none, a parent Gateway selects it:
  one whose owner allows the route's namespace, has auto-routes on and names a proxy. An explicit
  opt-out, or an unreadable value, is never overridden by a Gateway.\<close>

theorem Reconcile_route_consent:
  assumes reads: "source_reads (ensure rec r) obs" and rel: "release_frame (ensure rec r) obs"
    and run: "Reconcile_route r rec req w = (res, w')" and changed: "obs w' \<noteq> obs w"
  shows "\<exists>rt w1. sr_get_route r req w = (Inr rt, w1) \<and>
    (case map_of (m_annotations (hr_meta rt)) AnnotationTunnel of
       Some raw \<Rightarrow> truthy raw | None \<Rightarrow> selected_by r rt)"
proof -
  let ?r = "ensure rec r"
  obtain g w1 where g: "sr_get_route r req w = (g, w1)" by fastforce
  then have g': "sr_get_route ?r req w = (g, w1)" by simp
  have w1: "obs w1 = obs w" by (rule source_reads_run(8)[OF reads g'])
  have sel: "selected_by ?r rt = selected_by r rt" for rt by (simp add: selected_by_def)
  show ?thesis
  proof (cases g)
    case (Inl e)
    then have "obs w' = obs w1"
      using run g release_source_only[OF reads rel] by (auto simp: Reconcile_route_def Let_def split: if_splits)
    then show ?thesis using changed w1 by simp
  next
    case (Inr rt)
    obtain d w2 where d: "route_opt_in ?r rt w1 = (d, w2)" by fastforce
    have w2: "obs w2 = obs w" using route_opt_in_quiet[OF reads d] w1 by simp
    have "d = Inr True"
    proof (rule ccontr)
      assume "d \<noteq> Inr True"
      then have "w' = w2 \<or> release_source ?r ''HTTPRoute'' (key_of (hr_meta rt)) w2 = (res, w')"
        using run g Inr d by (cases d) (auto simp: Reconcile_route_def Let_def)
      then show False using changed w2 release_source_only[OF reads rel] by metis
    qed
    then show ?thesis using route_opt_in_consent[of ?r rt w1 w2] d g Inr sel by metis
  qed
qed

section \<open>No route is missed\<close>

lemma parent_selects_complete:
  assumes "snapshot r G S"
  shows "auto_loop r emit ns ps v = (Inr True, v') \<Longrightarrow> fst (parent_selects r ns ps w)"
proof (induction ps arbitrary: v w)
  case (Cons p ps)
  show ?case
  proof (cases "isGatewayParent p")
    case False
    then show ?thesis using Cons by auto
  next
    case True
    obtain g v1 where g: "sr_get_gateway r (parent_key p ns) v = (g, v1)" by fastforce
    obtain h w1 where h: "sr_get_gateway r (parent_key p ns) w = (h, w1)" by fastforce
    have "h = g" using snapshot_get(1)[OF assms g] snapshot_get(1)[OF assms h] by simp
    then show ?thesis using Cons True g h by (auto split: sum.splits if_splits)
  qed
qed simp

lemma routes_for_tunnel_mem:
  assumes "snapshot r G S" and "rt \<in> set rts" and in_opt: "route_opt_in r rt v = (Inr True, v')"
    and res: "resolveTunnel r emit (mget (m_annotations (hr_meta rt)) AnnotationTunnelRef) (m_ns (hr_meta rt)) u = (Inr (Some k), u')"
  shows "key_of (hr_meta rt) \<in> set (fst (routes_for_tunnel r k rts w))"
  using assms(2)
proof (induction rts arbitrary: w)
  case (Cons x rts)
  have tun: "sourceTargetsTunnel (m_annotations (hr_meta rt)) (m_ns (hr_meta rt)) k"
    using res by (auto simp: resolveTunnel_def sourceTargetsTunnel_def Let_def
        split: if_splits sum.splits prod.splits list.splits)
  have "\<not> has_key (m_annotations (hr_meta rt)) AnnotationTunnel \<Longrightarrow>
      fst (parent_selects r (m_ns (hr_meta rt)) (hr_parentRefs rt) w)" for w
    using in_opt parent_selects_complete[OF assms(1)]
    by (auto simp: route_opt_in_def has_key_map_of autoSelectedByGateway_def Let_def
        split: option.splits prod.splits sum.splits bool.splits)
  then show ?case using Cons tun by (auto simp: Let_def split_def)
qed simp

text \<open>No exposed route is lost on a watch. A route that is tunnelled, by its own annotation or by a
  parent Gateway, and whose tunnel resolves to \<open>k\<close> is queued by every event of that tunnel; and
  every route that names a Gateway as a parent is queued by an event of that Gateway, so also one
  that the Gateway has just ceased to allow.\<close>

theorem route_watches_complete:
  assumes "snapshot r G S" and "sr_list_routes r w = (Inr items, w1)" and "rt \<in> set items"
  shows "(\<forall>v v' emit u u'. route_opt_in r rt v = (Inr True, v') \<longrightarrow>
      resolveTunnel r emit (mget (m_annotations (hr_meta rt)) AnnotationTunnelRef) (m_ns (hr_meta rt)) u
        = (Inr (Some (key_of (tt_meta tunnel))), u') \<longrightarrow>
      key_of (hr_meta rt) \<in> set (fst (route_sourcesForTunnel r tunnel w))) \<and>
    (\<forall>p\<in>set (hr_parentRefs rt). isGatewayParent p \<longrightarrow> parent_key p (m_ns (hr_meta rt)) = key_of (gw_meta gw) \<longrightarrow>
      key_of (hr_meta rt) \<in> set (fst (routesForGateway r gw w)))"
proof -
  have "key_of (hr_meta rt) \<in> set (fst (routesForGateway r gw w))"
    if "p \<in> set (hr_parentRefs rt)" "isGatewayParent p" "parent_key p (m_ns (hr_meta rt)) = key_of (gw_meta gw)" for p
  proof -
    have "parents rt (key_of (gw_meta gw))" using that by (auto simp: parents_def list_ex_iff)
    then show ?thesis using assms(2,3) by (auto simp: routesForGateway_def)
  qed
  then show ?thesis using routes_for_tunnel_mem[OF assms(1,3)] assms(2)
    by (auto simp: route_sourcesForTunnel_def)
qed

section \<open>A Gateway and its route\<close>

definition edge_gateway :: gateway where
  "edge_gateway = \<lparr>gw_meta = (new_meta ''infra'' ''edge'')\<lparr>m_annotations :=
       [(AnnotationAutoRoutes, ''true''), (AnnotationGatewayService, ''proxy'')]\<rparr>,
     gw_listeners = [Some ''a.example'', None, Some ''a.example'', Some ''b.example'']\<rparr>"

definition edge_parent :: parent_ref where
  "edge_parent = \<lparr>pa_group = None, pa_kind = None, pa_namespace = Some ''infra'', pa_name = ''edge''\<rparr>"

definition app_route :: "strmap \<Rightarrow> http_route" where
  "app_route ann = \<lparr>hr_meta = (new_meta ''app'' ''site'')\<lparr>m_annotations := ann\<rparr>, hr_parentRefs = [edge_parent],
     hr_hostnames = [''a.example'']\<rparr>"

definition edge_cluster :: "http_route \<Rightarrow> nat source_reconciler" where
  "edge_cluster rt = (agents_source [])\<lparr>sr_get_gateway := (\<lambda>k w. (Inr edge_gateway, w)),
     sr_get_service := (\<lambda>k w. (Inr (a_service [] ''10.0.0.7''), w)),
     sr_get_route := (\<lambda>k w. (Inr rt, w)), sr_list_routes := (\<lambda>w. (Inr [rt], w))\<rparr>"

lemma edge_snapshot:
  "snapshot (edge_cluster rt) (\<lambda>k. Inr edge_gateway) (\<lambda>k. Inr (a_service [] ''10.0.0.7''))"
  by (simp add: snapshot_def edge_cluster_def agents_source_def)

lemma edge_reads: "source_reads (edge_cluster rt) obs"
  by (simp add: source_reads_def base_frame_def edge_cluster_def agents_source_def)

lemma edge_ref: "parseGatewayServiceRef ''proxy'' ''infra'' = Inr ((''infra'', ''proxy''), 0)"
proof -
  have t: "trim_space ''proxy'' = ''proxy''" by (rule trim_space_plain) (simp add: plain_char_def)
  show ?thesis by (simp add: parseGatewayServiceRef_def t cut_last_def cut_char_eq Let_def)
qed

theorem parseGatewayServiceRef_roundtrip_witness:
  "parseGatewayServiceRef ''infra/proxy:8443'' ''app'' = Inr ((''infra'', ''proxy''), 8443)"
proof -
  have "itoa 8443 = ''8443''" by (simp add: itoa_def nat_str.simps digit_char_def char_of_eq_iff)
  then show ?thesis
    using parseGatewayServiceRef_roundtrip[of "''infra''" "''proxy''" "''app''" 8443]
    by (simp add: plain_char_def nn_str_def)
qed

theorem deriveGatewayRouting_hosts_witness:
  "map_option (\<lambda>rt. map entry_hostname (rt_services rt))
     (fst (deriveGatewayRouting (edge_cluster (app_route [])) edge_gateway (\<lambda>rs m w. w) 0)) =
   Some [''a.example'', ''b.example'']"
proof -
  let ?r = "edge_cluster (app_route [])"
  have get: "sr_get_service ?r k w = (Inr (a_service [] ''10.0.0.7''), w)" for k w by (simp add: edge_cluster_def)
  have raw: "mget (m_annotations (gw_meta edge_gateway)) AnnotationGatewayService = ''proxy''"
    "m_ns (gw_meta edge_gateway) = ''infra''"
    by (simp_all add: edge_gateway_def AnnotationGatewayService_def AnnotationAutoRoutes_def new_meta_def)
  obtain rt w' where run: "deriveGatewayRouting ?r edge_gateway (\<lambda>rs m w. w) 0 = (Some rt, w')"
    by (simp add: deriveGatewayRouting_def raw edge_ref get effectiveServicePort_def a_service_def Let_def)
      (simp add: edge_gateway_def)
  have "listener_hosts edge_gateway = [''a.example'', ''b.example'']"
    by (simp add: listener_hosts_def edge_gateway_def map_filter_simps)
  then show ?thesis using deriveGatewayRouting_hosts[OF run] run by auto
qed

lemma edge_origin:
  "usable_origins (\<lambda>k. Inr edge_gateway) (\<lambda>k. Inr (a_service [] ''10.0.0.7'')) (app_route ann) = {''10.0.0.7:80''}"
proof -
  have raw: "mget (m_annotations (gw_meta edge_gateway)) AnnotationGatewayService = ''proxy''"
    "m_ns (gw_meta edge_gateway) = ''infra''"
    by (simp_all add: edge_gateway_def AnnotationGatewayService_def AnnotationAutoRoutes_def new_meta_def)
  have "itoa 80 = ''80''" by (simp add: itoa_def nat_str.simps digit_char_def char_of_eq_iff)
  then show ?thesis
    by (auto simp: usable_origins_def parent_origin_def app_route_def edge_parent_def isGatewayParent_def raw
        edge_ref effectiveServicePort_def a_service_def originOf_def Let_def)
qed

theorem resolveParentGatewayProxy_unique_witness:
  "\<exists>w'. resolveParentGatewayProxy (edge_cluster (app_route [])) (app_route []) (\<lambda>rs m w. w) 0 =
     (Inr (Some ''10.0.0.7:80''), w')"
proof -
  obtain x w' where run: "resolveParentGatewayProxy (edge_cluster (app_route [])) (app_route []) (\<lambda>rs m w. w) 0 = (x, w')"
    by fastforce
  have "x \<noteq> Inl e" for e
    using run by (auto simp: resolveParentGatewayProxy_def app_route_def edge_cluster_def edge_parent_def
        Let_def split: sum.splits prod.splits list.splits if_splits option.splits)
  then obtain res where "x = Inr res" by (cases x) auto
  with run have "resolveParentGatewayProxy (edge_cluster (app_route [])) (app_route []) (\<lambda>rs m w. w) 0 = (Inr res, w')"
    by simp
  from resolveParentGatewayProxy_unique[OF edge_snapshot this] show ?thesis
    using run \<open>x = Inr res\<close> edge_origin by auto
qed

lemma edge_truthy [simp]: "truthy ''true''" "\<not> truthy ''false''"
proof -
  have "trim_space ''true'' = ''true''" "trim_space ''false'' = ''false''"
    by (rule trim_space_plain, simp add: plain_char_def)+
  then show "truthy ''true''" "\<not> truthy ''false''"
    by (simp_all add: truthy_def ParseTruthy_def lower_char_def Let_def)
qed

text \<open>A route that opts out stays out although the parent Gateway has auto-routes on.\<close>

theorem Reconcile_route_consent_witness:
  "snd (Reconcile_route (edge_cluster (app_route [(AnnotationTunnel, ''false'')])) None (''app'', ''site'') 5) = 5"
proof -
  let ?rt = "app_route [(AnnotationTunnel, ''false'')]"
  let ?r = "edge_cluster ?rt"
  obtain res w' where run: "Reconcile_route ?r None (''app'', ''site'') 5 = (res, w')" by fastforce
  have same: "ensure None ?r = ?r" by (simp add: ensure_def edge_cluster_def agents_source_def)
  have "release_frame ?r (\<lambda>w. w)" by (simp add: release_frame_def edge_cluster_def agents_source_def)
  then have "w' = 5"
    using Reconcile_route_consent[of None ?r "\<lambda>w. w", OF _ _ run] edge_reads unfolding same
    by (auto simp: edge_cluster_def app_route_def)
  then show ?thesis using run by simp
qed

theorem route_watches_complete_witness:
  "(''app'', ''site'') \<in> set (fst (routesForGateway (edge_cluster (app_route [])) edge_gateway 0))"
proof -
  have "sr_list_routes (edge_cluster (app_route [])) 0 = (Inr [app_route []], 0)" by (simp add: edge_cluster_def)
  from route_watches_complete[OF edge_snapshot this, of "app_route []" "new_tunnel ''prod'' ''main''" edge_gateway]
  show ?thesis
    by (auto simp: app_route_def edge_parent_def isGatewayParent_def parent_key_def parentRefNamespace_def
        edge_gateway_def new_meta_def key_of_def)
qed

end
