(* ===== verification/Startup.thy ===== *)
theory Startup
  imports CommandLine AgentController SourceConsent
begin

text \<open>
  \<open>cmd/manager/main.go\<close> and \<open>source_setup.go\<close>: the validation of the flags, the order in which the
  manager is put together, and the decision whether the Gateway API controllers run; with
  \<open>groupversion_info.go\<close> and \<open>externaldns_scheme.go\<close>, the scheme of the API types. Building the
  manager, adding types to a scheme, registering a controller and serving are operations of
  controller-runtime, so arguments.
\<close>

section \<open>The Gateway API\<close>

record source_config =
  sc_agentNamespace :: string
  sc_enableGatewayAPI :: string
  sc_defaultReplicas :: "int option"

text \<open>The argument is the error of \<open>RESTMapping\<close> for the kind \<open>HTTPRoute\<close>.\<close>

definition gatewayAPISupported :: "goerr option \<Rightarrow> goerr + bool" where
  "gatewayAPISupported mapping = (case mapping of
     None \<Rightarrow> Inr True
   | Some e \<Rightarrow> if is_no_match e then Inr False else Inl e)"

definition gatewayEnable :: "source_config \<Rightarrow> goerr option \<Rightarrow> goerr + bool" where
  "gatewayEnable cfg mapping =
     (if sc_enableGatewayAPI cfg = ''true'' then Inr True
      else if sc_enableGatewayAPI cfg = ''false'' then Inr False
      else gatewayAPISupported mapping)"

section \<open>The scheme\<close>

text \<open>The API group of the operator and the types its \<open>init\<close> functions register.\<close>

definition GroupVersion :: "string \<times> string" where
  "GroupVersion = (''towonel.io'', ''v1alpha1'')"

definition agent_kinds :: "string list" where
  "agent_kinds = [''TowonelAgent'', ''TowonelAgentList'']"

definition tunnel_kinds :: "string list" where
  "tunnel_kinds = [''TowonelTunnel'', ''TowonelTunnelList'']"

definition SchemeBuilder :: "string list" where
  "SchemeBuilder = agent_kinds @ tunnel_kinds"

record 'w scheme_lib =
  sl_client_go :: "('w, goerr option) op"
  sl_add_kinds :: "string \<times> string \<Rightarrow> string list \<Rightarrow> ('w, goerr option) op"
  sl_external_dns :: "('w, goerr option) op"
  sl_external_dns_version :: "'w \<Rightarrow> 'w"
  sl_gateway_v1 :: "('w, goerr option) op"
  sl_gateway_v1beta1 :: "('w, goerr option) op"

definition AddToScheme :: "('w, 'b) scheme_lib_scheme \<Rightarrow> ('w, goerr option) op" where
  "AddToScheme sl = sl_add_kinds sl GroupVersion SchemeBuilder"

definition AddExternalDNSToScheme :: "('w, 'b) scheme_lib_scheme \<Rightarrow> ('w, goerr option) op" where
  "AddExternalDNSToScheme sl w =
     (case sl_external_dns sl w of
        (Some e, w1) \<Rightarrow> (Some e, w1)
      | (None, w1) \<Rightarrow> (None, sl_external_dns_version sl w1))"

text \<open>Steps run in order up to the first that fails.\<close>

fun run_startup :: "('w, goerr option) op list \<Rightarrow> ('w, goerr option) op" where
  "run_startup [] w = (None, w)"
| "run_startup (s # ss) w = (case s w of (Some e, w1) \<Rightarrow> (Some e, w1) | (None, w1) \<Rightarrow> run_startup ss w1)"

text \<open>\<open>utilruntime.Must\<close> panics on an error.\<close>

definition newScheme :: "('w, 'b) scheme_lib_scheme \<Rightarrow> ('w, goerr option) op" where
  "newScheme sl = run_startup [sl_client_go sl, AddToScheme sl, AddExternalDNSToScheme sl, sl_gateway_v1 sl,
     sl_gateway_v1beta1 sl]"

section \<open>Putting the manager together\<close>

record manager_options =
  mo_metricsAddr :: string
  mo_probeAddr :: string
  mo_leaderElection :: bool
  mo_leaderElectionID :: string
  mo_leaderElectionNamespace :: string

definition manager_options_of :: "flags \<Rightarrow> string \<Rightarrow> manager_options" where
  "manager_options_of fl pod_namespace = \<lparr>mo_metricsAddr = fl_metricsAddr fl, mo_probeAddr = fl_probeAddr fl,
     mo_leaderElection = fl_leaderElect fl, mo_leaderElectionID = ''towonel-operator.towonel.io'',
     mo_leaderElectionNamespace = pod_namespace\<rparr>"

text \<open>The controllers, with what the manager's flags give each of them.\<close>

datatype controller =
    TunnelController string strmap
  | AgentCtl "env_var list"
  | ServiceSource string "int option"
  | GatewaySource string "int option"
  | HTTPRouteSource string "int option"

record 'w manager = "'w scheme_lib" +
  mg_env_name_errors :: "string \<Rightarrow> string list"
  mg_config :: "('w, goerr option) op"
  mg_new :: "manager_options \<Rightarrow> ('w, goerr option) op"
  mg_register_indexes :: "('w, goerr option) op"
  mg_setup :: "controller \<Rightarrow> ('w, goerr option) op"
  mg_rest_mapping :: "('w, goerr option) op"
  mg_healthz :: "('w, goerr option) op"
  mg_readyz :: "('w, goerr option) op"
  mg_start :: "('w, goerr option) op"

definition SetupSourceControllers :: "'w manager \<Rightarrow> source_config \<Rightarrow> ('w, goerr option) op" where
  "SetupSourceControllers mg cfg w =
     (case mg_setup mg (ServiceSource (sc_agentNamespace cfg) (sc_defaultReplicas cfg)) w of
        (Some e, w1) \<Rightarrow> (Some (wrapf ''setup ServiceSource: '' e), w1)
      | (None, w1) \<Rightarrow>
          let (mapping, w2) = (if sc_enableGatewayAPI cfg \<in> {''true'', ''false''} then (None, w1)
                               else mg_rest_mapping mg w1) in
          (case gatewayEnable cfg mapping of
             Inl e \<Rightarrow> (Some (wrapf ''probe gateway-api support: '' e), w2)
           | Inr enable \<Rightarrow>
               if \<not> enable then (None, w2)
               else (case mg_setup mg (GatewaySource (sc_agentNamespace cfg) (sc_defaultReplicas cfg)) w2 of
                  (Some e, w3) \<Rightarrow> (Some (wrapf ''setup GatewaySource: '' e), w3)
                | (None, w3) \<Rightarrow>
                    (case mg_setup mg (HTTPRouteSource (sc_agentNamespace cfg) (sc_defaultReplicas cfg)) w3 of
                       (Some e, w4) \<Rightarrow> (Some (wrapf ''setup HTTPRouteSource: '' e), w4)
                     | (None, w4) \<Rightarrow> (None, w4)))))"

definition default_replicas :: "int \<Rightarrow> goerr + int option" where
  "default_replicas n =
     (if n < 0 then Inl (PlainError (''--default-agent-replicas must be >= 0, got '' @ itoa n))
      else Inr (if n > 0 then Some (wrap32 n) else None))"

definition source_steps :: "flags \<Rightarrow> 'w manager \<Rightarrow> ('w, goerr option) op" where
  "source_steps fl mg w =
     (case default_replicas (fl_defaultAgentReplicas fl) of
        Inl e \<Rightarrow> (Some e, w)
      | Inr replicas \<Rightarrow> SetupSourceControllers mg
          \<lparr>sc_agentNamespace = fl_agentNamespace fl, sc_enableGatewayAPI = fl_enableGatewayAPI fl,
           sc_defaultReplicas = replicas\<rparr> w)"

text \<open>
  From the validated flags on. A failing step ends the process with status 1, a panic of the scheme
  with status 2. The environment gives \<open>POD_NAMESPACE\<close>.
\<close>

definition exit_code :: "goerr option \<Rightarrow> int" where
  "exit_code e = (case e of Some _ \<Rightarrow> 1 | None \<Rightarrow> 0)"

definition manager_steps :: "flags \<Rightarrow> env_var list \<Rightarrow> strmap \<Rightarrow> string \<Rightarrow> 'w manager \<Rightarrow> ('w, goerr option) op list" where
  "manager_steps fl env targets pod_namespace mg =
     [mg_new mg (manager_options_of fl pod_namespace), mg_register_indexes mg,
      mg_setup mg (TunnelController (fl_towonelAPIURL fl) targets), mg_setup mg (AgentCtl env),
      source_steps fl mg, mg_healthz mg, mg_readyz mg, mg_start mg]"

definition manager_main :: "flags \<Rightarrow> string \<Rightarrow> 'w manager \<Rightarrow> ('w, int) op" where
  "manager_main fl pod_namespace mg w =
     (case ParseAgentEnv (mg_env_name_errors mg) (fl_agentEnv fl) of
        Inl e \<Rightarrow> (1, w)
      | Inr env \<Rightarrow>
          (case ResolveDNSEdgeTargets (fl_towonelAPIURL fl) (fl_dnsEdgeTargets fl) of
             Inl e \<Rightarrow> (1, w)
           | Inr targets \<Rightarrow>
               (case mg_config mg w of
                  (Some e, w1) \<Rightarrow> (1, w1)
                | (None, w1) \<Rightarrow>
                    (case newScheme mg w1 of
                       (Some e, w2) \<Rightarrow> (2, w2)
                     | (None, w2) \<Rightarrow>
                         let (e, w3) = run_startup (manager_steps fl env targets pod_namespace mg) w2
                         in (exit_code e, w3)))))"

text \<open>The whole process: its exit status and what it prints, with the version the linker stamps in.\<close>

record build_info =
  bi_version :: string
  bi_commit :: string
  bi_date :: string

definition version_text :: "build_info \<Rightarrow> string" where
  "version_text bi = ''towonel-operator '' @ bi_version bi @ '' (commit '' @ bi_commit bi @ '', built '' @ bi_date bi @
     '')'' @ [CHR 0x0A]"

definition main :: "build_info \<Rightarrow> foreign_flags \<Rightarrow> string list \<Rightarrow> (string \<Rightarrow> string) \<Rightarrow> 'w manager
    \<Rightarrow> ('w, int \<times> string) op" where
  "main bi foreign args getenv mg w =
     (case parse_args foreign args default_flags of
        HelpShown \<Rightarrow> ((0, []), w)
      | BadFlag \<Rightarrow> ((2, []), w)
      | Parsed fl \<Rightarrow>
          if fl_showVersion fl then ((0, version_text bi), w)
          else let (status, w1) = manager_main fl (getenv ''POD_NAMESPACE'') mg w in ((status, []), w1))"

section \<open>Startup\<close>

text \<open>The replica count of the default agent is taken as given up to 2147483647 and rejected when it
  is negative, but a larger one is accepted and wraps around to a negative count or to zero.\<close>

theorem default_replicas_bounds:
  "(n < 0 \<longrightarrow> isl (default_replicas n)) \<and>
   (0 < n \<and> n < 2147483648 \<longrightarrow> default_replicas n = Inr (Some n)) \<and>
   default_replicas 0 = Inr None \<and>
   default_replicas 2147483648 = Inr (Some (- 2147483648)) \<and>
   default_replicas 4294967296 = Inr (Some 0)"
  by (auto simp: default_replicas_def wrap32_id) (simp_all add: wrap32_def)

text \<open>Bad flags stop the manager before it does anything: with a malformed environment entry or
  edge target nothing is built or registered, and with a negative replica count no source
  controller is set up; the exit status is then not 0.\<close>

theorem manager_main_fails_fast:
  assumes "isl (ParseAgentEnv (mg_env_name_errors mg) (fl_agentEnv fl)) \<or>
      isl (ResolveDNSEdgeTargets (fl_towonelAPIURL fl) (fl_dnsEdgeTargets fl)) \<or> fl_defaultAgentReplicas fl < 0"
    and "manager_main fl ns mg w = (status, w')"
  shows "status \<noteq> 0 \<and> (fl_defaultAgentReplicas fl \<ge> 0 \<longrightarrow> w' = w)"
  using assms
  by (auto simp: manager_main_def manager_steps_def source_steps_def default_replicas_def isl_def exit_code_def Let_def
      split: sum.splits prod.splits option.splits)

definition counting_manager :: "nat manager" where
  "counting_manager = \<lparr>sl_client_go = (\<lambda>w. (None, w)), sl_add_kinds = (\<lambda>gv ks w. (None, w)),
     sl_external_dns = (\<lambda>w. (None, w)), sl_external_dns_version = (\<lambda>w. w), sl_gateway_v1 = (\<lambda>w. (None, w)),
     sl_gateway_v1beta1 = (\<lambda>w. (None, w)), mg_env_name_errors = (\<lambda>n. []), mg_config = (\<lambda>w. (None, w)),
     mg_new = (\<lambda>opts w. (None, w + 1)), mg_register_indexes = (\<lambda>w. (None, w + 1)), mg_setup = (\<lambda>c w. (None, w + 1)),
     mg_rest_mapping = (\<lambda>w. (None, w)), mg_healthz = (\<lambda>w. (None, w + 1)),
     mg_readyz = (\<lambda>w. (None, w + 1)), mg_start = (\<lambda>w. (None, w + 1))\<rparr>"

theorem default_replicas_bounds_witness: "default_replicas 3 = Inr (Some 3)"
  using default_replicas_bounds[of 3] by simp

theorem manager_main_fails_fast_witness:
  "fst (manager_main (default_flags\<lparr>fl_defaultAgentReplicas := - 1\<rparr>) [] counting_manager 0) \<noteq> 0"
proof -
  obtain status w' where run: "manager_main (default_flags\<lparr>fl_defaultAgentReplicas := - 1\<rparr>) [] counting_manager 0 = (status, w')"
    by fastforce
  have "fl_defaultAgentReplicas (default_flags\<lparr>fl_defaultAgentReplicas := - 1\<rparr>) < 0" by simp
  then show ?thesis using manager_main_fails_fast[OF _ run] run by simp
qed

section \<open>What a running manager has set up\<close>

text \<open>\<open>reg\<close> observes the controllers set up so far: a successful set-up adds one, nothing else does.\<close>

definition keeps :: "('w \<Rightarrow> 'o) \<Rightarrow> ('w, 'a) op \<Rightarrow> bool" where
  "keeps reg s \<longleftrightarrow> (\<forall>w e w'. s w = (e, w') \<longrightarrow> reg w' = reg w)"

definition tracks_setup :: "'w manager \<Rightarrow> ('w \<Rightarrow> controller list) \<Rightarrow> bool" where
  "tracks_setup mg reg \<longleftrightarrow>
     (\<forall>c w e w'. mg_setup mg c w = (e, w') \<longrightarrow> reg w' = (if e = None then reg w @ [c] else reg w)) \<and>
     keeps reg (mg_config mg) \<and> keeps reg (newScheme mg) \<and> (\<forall>opts. keeps reg (mg_new mg opts)) \<and>
     keeps reg (mg_register_indexes mg) \<and> keeps reg (mg_rest_mapping mg) \<and> keeps reg (mg_healthz mg) \<and>
     keeps reg (mg_readyz mg) \<and> keeps reg (mg_start mg)"

lemma tracks_setup_add: "tracks_setup mg reg \<Longrightarrow> mg_setup mg c w = (None, w') \<Longrightarrow> reg w' = reg w @ [c]"
  unfolding tracks_setup_def by fastforce

lemma source_controllers_up:
  assumes reg: "tracks_setup mg reg" and run: "SetupSourceControllers mg cfg w = (None, w')"
  shows "reg w' = reg w @ ServiceSource (sc_agentNamespace cfg) (sc_defaultReplicas cfg) # (if sc_enableGatewayAPI cfg = ''true''
      then [GatewaySource (sc_agentNamespace cfg) (sc_defaultReplicas cfg), HTTPRouteSource (sc_agentNamespace cfg) (sc_defaultReplicas cfg)]
      else []) \<or> sc_enableGatewayAPI cfg \<notin> {''true'', ''false''} \<and>
    reg w' = reg w @ [ServiceSource (sc_agentNamespace cfg) (sc_defaultReplicas cfg),
      GatewaySource (sc_agentNamespace cfg) (sc_defaultReplicas cfg), HTTPRouteSource (sc_agentNamespace cfg) (sc_defaultReplicas cfg)]"
proof -
  note add = tracks_setup_add[OF reg]
  have map: "reg v' = reg v" if "mg_rest_mapping mg v = (m, v')" for v m v'
    using reg that by (auto simp: tracks_setup_def keeps_def)
  show ?thesis using run
    by (auto simp: SetupSourceControllers_def gatewayEnable_def dest!: add map
        split: prod.splits option.splits sum.splits if_splits)
qed


text \<open>A cluster without the Gateway API, in the automatic mode.\<close>

definition listing_manager :: "controller list manager" where
  "listing_manager = \<lparr>sl_client_go = (\<lambda>w. (None, w)), sl_add_kinds = (\<lambda>gv ks w. (None, w)),
     sl_external_dns = (\<lambda>w. (None, w)), sl_external_dns_version = (\<lambda>w. w), sl_gateway_v1 = (\<lambda>w. (None, w)),
     sl_gateway_v1beta1 = (\<lambda>w. (None, w)), mg_env_name_errors = (\<lambda>n. []), mg_config = (\<lambda>w. (None, w)),
     mg_new = (\<lambda>opts w. (None, w)), mg_register_indexes = (\<lambda>w. (None, w)), mg_setup = (\<lambda>c w. (None, w @ [c])),
     mg_rest_mapping = (\<lambda>w. (Some (KubeError RNoMatch ''no matches for kind''), w)), mg_healthz = (\<lambda>w. (None, w)),
     mg_readyz = (\<lambda>w. (None, w)), mg_start = (\<lambda>w. (None, w))\<rparr>"


end
