(* ===== verification/Wiring.thy ===== *)
theory Wiring
  imports Startup
begin

text \<open>
  \<open>SetupWithManager\<close> of the five controllers: which kind each one is for, which objects it owns,
  and which other kinds it watches, under which predicate and through which map function. The
  table of a controller is typed by kind, so a watch on tunnels holds a predicate on tunnel events
  and a map function from tunnels. What controller-runtime does with a table is its documentation:
  an event that the predicate admits queues the requests the map function gives for the object. Its
  change predicates, of which the source controllers compose theirs, are arguments.
\<close>

section \<open>Tables\<close>

datatype ('w, 'a) watch_handler =
    ForObject
  | MapFunc "'a \<Rightarrow> ('w, nn list) op"

datatype ('w, 'a) watching = Watching "'a watch_event \<Rightarrow> bool" "('w, 'a) watch_handler"

datatype child_kind = ChildKind owned_kind | ChildDeployment | ChildSecret

record 'w wiring =
  su_name :: string
  su_owns :: "child_kind list"
  su_tunnels :: "('w, towonel_tunnel) watching list"
  su_agents :: "('w, towonel_agent) watching list"
  su_services :: "('w, service_obj) watching list"
  su_gateways :: "('w, gateway) watching list"
  su_routes :: "('w, http_route) watching list"

definition new_wiring :: "string \<Rightarrow> 'w wiring" where
  "new_wiring name = \<lparr>su_name = name, su_owns = [], su_tunnels = [], su_agents = [], su_services = [],
     su_gateways = [], su_routes = []\<rparr>"

text \<open>The change predicates of controller-runtime; they read nothing but the metadata.\<close>

record change_predicates =
  cp_generation :: "meta watch_event \<Rightarrow> bool"
  cp_annotations :: "meta watch_event \<Rightarrow> bool"
  cp_labels :: "meta watch_event \<Rightarrow> bool"

definition always :: "'a watch_event \<Rightarrow> bool" where "always e = True"

definition cross_watch :: "change_predicates \<Rightarrow> ('a \<Rightarrow> meta) \<Rightarrow> 'a watch_event \<Rightarrow> bool" where
  "cross_watch cp meta_of e =
     crossWatchPredicate (cp_generation cp) (cp_annotations cp) (cp_labels cp) (map_watch_event meta_of e)"

section \<open>The five controllers\<close>

definition tunnel_wiring :: "change_predicates \<Rightarrow> 'w wiring" where
  "tunnel_wiring cp = (new_wiring ''towoneltunnel'')
     \<lparr>su_tunnels := [Watching always ForObject],
      su_owns := [ChildSecret],
      su_agents := [Watching (cross_watch cp ta_meta) (MapFunc (\<lambda>ta w. (agent_requests ta, w)))]\<rparr>"

definition agent_wiring :: "('w, 'b) agent_reconciler_scheme \<Rightarrow> 'w wiring" where
  "agent_wiring r = (new_wiring ''towonelagent'')
     \<lparr>su_agents := [Watching always ForObject],
      su_owns := [ChildDeployment, ChildSecret, ChildKind KServiceAccount, ChildKind KService,
        ChildKind KRole, ChildKind KRoleBinding],
      su_tunnels := [Watching always (MapFunc (agentsForTunnel r))]\<rparr>"

definition service_wiring :: "('w, 'b) source_reconciler_scheme \<Rightarrow> change_predicates \<Rightarrow> 'w wiring" where
  "service_wiring r cp = (new_wiring ''service-source'')
     \<lparr>su_services := [Watching (\<lambda>e. sourcePredicate (map_watch_event svc_meta e)) ForObject],
      su_agents := [Watching (cross_watch cp ta_meta) (MapFunc (service_sourcesForAgent r))],
      su_tunnels := [Watching (cross_watch cp tt_meta) (MapFunc (service_sourcesForTunnel r))]\<rparr>"

definition gateway_wiring :: "('w, 'b) source_reconciler_scheme \<Rightarrow> change_predicates \<Rightarrow> 'w wiring" where
  "gateway_wiring r cp = (new_wiring ''gateway-source'')
     \<lparr>su_gateways := [Watching (\<lambda>e. sourcePredicate (map_watch_event gw_meta e)) ForObject],
      su_agents := [Watching (cross_watch cp ta_meta) (MapFunc (gateway_sourcesForAgent r))],
      su_tunnels := [Watching (cross_watch cp tt_meta) (MapFunc (gateway_sourcesForTunnel r))]\<rparr>"

definition route_wiring :: "('w, 'b) source_reconciler_scheme \<Rightarrow> change_predicates \<Rightarrow> 'w wiring" where
  "route_wiring r cp = (new_wiring ''httproute-source'')
     \<lparr>su_routes := [Watching (httpRouteForPredicate (\<lambda>e. cp_generation cp (map_watch_event hr_meta e))
         (\<lambda>e. cp_annotations cp (map_watch_event hr_meta e))) ForObject],
      su_gateways := [Watching (cross_watch cp gw_meta) (MapFunc (routesForGateway r))],
      su_agents := [Watching (cross_watch cp ta_meta) (MapFunc (route_sourcesForAgent r))],
      su_tunnels := [Watching (cross_watch cp tt_meta) (MapFunc (route_sourcesForTunnel r))]\<rparr>"

lemmas wiring_defs = tunnel_wiring_def agent_wiring_def service_wiring_def gateway_wiring_def route_wiring_def
  new_wiring_def

section \<open>What an event asks for\<close>

text \<open>The requests of one object of the event, \<open>x\<close>, over the watches of its kind.\<close>

fun asked :: "('a \<Rightarrow> meta) \<Rightarrow> ('w, 'a) watch_handler \<Rightarrow> 'a \<Rightarrow> 'w \<Rightarrow> nn list" where
  "asked meta_of ForObject x w = [key_of (meta_of x)]"
| "asked meta_of (MapFunc f) x w = fst (f x w)"

fun wakes :: "('a \<Rightarrow> meta) \<Rightarrow> ('w, 'a) watching list \<Rightarrow> 'a watch_event \<Rightarrow> 'a \<Rightarrow> 'w \<Rightarrow> nn \<Rightarrow> bool" where
  "wakes meta_of [] e x w k = False"
| "wakes meta_of (Watching admits h # ws) e x w k =
     (admits e \<and> k \<in> set (asked meta_of h x w) \<or> wakes meta_of ws e x w k)"

text \<open>A change in the sense of the predicates: of the generation, the annotations or the labels.\<close>

lemma wakes_cross [simp]:
  "cross_watch cp meta_of e \<Longrightarrow>
   wakes meta_of [Watching (cross_watch cp meta_of) (MapFunc f)] e x w k \<longleftrightarrow> k \<in> set (fst (f x w))"
  by simp

lemma wakes_always [simp]:
  "wakes meta_of [Watching always h] e x w k \<longleftrightarrow> k \<in> set (asked meta_of h x w)"
  by (simp add: always_def)

text \<open>The documented meaning of the change predicates, for the events they do not let through.\<close>

definition change_ok :: "change_predicates \<Rightarrow> bool" where
  "change_ok cp \<longleftrightarrow> (\<forall>m n. (m_generation m = m_generation n \<longrightarrow> \<not> cp_generation cp (UpdateEv m n)) \<and>
     (m_annotations m = m_annotations n \<longrightarrow> \<not> cp_annotations cp (UpdateEv m n)) \<and>
     (m_labels m = m_labels n \<longrightarrow> \<not> cp_labels cp (UpdateEv m n)))"

text \<open>A write of a status touches none of the three.\<close>

definition same_but_status :: "meta \<Rightarrow> meta \<Rightarrow> bool" where
  "same_but_status m n \<longleftrightarrow> m_generation m = m_generation n \<and>
     m_annotations m = m_annotations n \<and> m_labels m = m_labels n"

lemma cross_watch_status:
  assumes "change_ok cp" and "same_but_status (meta_of x) (meta_of y)"
  shows "\<not> cross_watch cp meta_of (UpdateEv x y)"
  using assms by (simp add: cross_watch_def crossWatchPredicate_def change_ok_def same_but_status_def)

section \<open>No change is lost\<close>

text \<open>What a reconcile of a source would resolve its tunnel to, in some state it may see.\<close>

definition may_resolve :: "('w, 'b) source_reconciler_scheme \<Rightarrow> meta \<Rightarrow> nn \<Rightarrow> bool" where
  "may_resolve r m k \<longleftrightarrow> (\<exists>emit u u'.
     resolveTunnel r emit (mget (m_annotations m) AnnotationTunnelRef) (m_ns m) u = (Inr (Some k), u'))"

text \<open>The shared field index answers with the agents that carry the value.\<close>

definition index_ok :: "('w, 'b) agent_reconciler_scheme \<Rightarrow> towonel_agent list \<Rightarrow> bool" where
  "index_ok r agents \<longleftrightarrow> (\<forall>v w. fst (ar_list_indexed r v w) =
     Inr (filter (\<lambda>a. v \<in> set (agentTunnelRefIndex a)) agents))"

lemma agentsForTunnel_complete:
  assumes "index_ok r agents" and "a \<in> set agents" and "tr_name (ag_tunnelRef (ta_spec a)) \<noteq> []"
    and "resolvedTunnelRef a = key_of (tt_meta t)"
  shows "key_of (ta_meta a) \<in> set (fst (agentsForTunnel r t w))"
proof -
  obtain w1 where "ar_list_indexed r (nn_str (key_of (tt_meta t))) w =
      (Inr (filter (\<lambda>a. nn_str (key_of (tt_meta t)) \<in> set (agentTunnelRefIndex a)) agents), w1)"
    using assms(1) unfolding index_ok_def by (metis prod.collapse)
  then show ?thesis using assms(2-4) by (auto simp: agentsForTunnel_def agentTunnelRefIndex_def)
qed

lemma opted_source_woken:
  assumes "l w = (Inr items, w1)" and "x \<in> set items" and "has_key (m_annotations (f x)) AnnotationTunnel"
    and "may_resolve r (f x) (key_of (tt_meta t))"
  shows "key_of (f x) \<in> set (fst (tunnelSourceRequests (list_meta f l) t w))"
proof -
  obtain emit u u' where run: "resolveTunnel r emit (mget (m_annotations (f x)) AnnotationTunnelRef) (m_ns (f x)) u =
      (Inr (Some (key_of (tt_meta t))), u')" using assms(4) by (auto simp: may_resolve_def)
  show ?thesis
    by (rule tunnelSourceRequests_complete[OF run]) (use assms in \<open>auto simp: list_meta_def\<close>)
qed

lemma routes_woken:
  assumes "snapshot r G S" and "sr_list_routes r w = (Inr rts, w1)" and "rt \<in> set rts"
    and "may_resolve r (hr_meta rt) (key_of (tt_meta t))" and "route_opt_in r rt v = (Inr True, v')"
  shows "key_of (hr_meta rt) \<in> set (fst (route_sourcesForTunnel r t w))"
proof -
  obtain emit u u' where run: "resolveTunnel r emit (mget (m_annotations (hr_meta rt)) AnnotationTunnelRef)
      (m_ns (hr_meta rt)) u = (Inr (Some (key_of (tt_meta t))), u')" using assms(4) by (auto simp: may_resolve_def)
  show ?thesis
    using routes_for_tunnel_mem[OF assms(1,3,5) run] assms(2) by (simp add: route_sourcesForTunnel_def)
qed


text \<open>A write of a status wakes no source, and one of an agent's no tunnel; only the agents, which
  read the status of their tunnel, see every event of one.\<close>

theorem status_writes_quiet:
  assumes "change_ok cp"
  shows "same_but_status (tt_meta x) (tt_meta y) \<Longrightarrow>
      ws \<in> {su_tunnels (service_wiring r cp), su_tunnels (gateway_wiring r cp), su_tunnels (route_wiring r cp)} \<Longrightarrow>
      \<not> wakes tt_meta ws (UpdateEv x y) z w k"
    and "same_but_status (ta_meta a) (ta_meta b) \<Longrightarrow>
      us \<in> {su_agents (tunnel_wiring cp), su_agents (service_wiring r cp), su_agents (gateway_wiring r cp),
        su_agents (route_wiring r cp)} \<Longrightarrow> \<not> wakes ta_meta us (UpdateEv a b) c w k"
    and "wakes tt_meta (su_tunnels (agent_wiring ra)) e z w k \<longleftrightarrow> k \<in> set (fst (agentsForTunnel ra z w))"
  by (auto simp: wiring_defs always_def cross_watch_status[where meta_of=tt_meta, OF assms]
      cross_watch_status[where meta_of=ta_meta, OF assms])

section \<open>A proxy Service that cannot be read\<close>

text \<open>The events of Services wake the Service source only.\<close>

lemma service_events:
  "su_services (gateway_wiring r cp) = []" "su_services (route_wiring r cp) = []"
  "su_services (tunnel_wiring cp) = []" "su_services (agent_wiring ra) = []"
  by (simp_all add: wiring_defs)

text \<open>C34: an opted-in Gateway whose proxy Service cannot be read, whatever the error, is given
  up without a requeue and without an error; and no event of a Service wakes a Gateway. So neither
  the end of a passing API failure nor the creation of the Service brings the contribution: it waits
  for the next event of the Gateway, its tunnel or its agent, or for the resync.\<close>

theorem Reconcile_gateway_gives_up:
  assumes "sr_get_gateway (ensure rec r) req w = (Inr gw, w1)"
    and "truthy (mget (m_annotations (gw_meta gw)) AnnotationTunnel)"
    and "resolveTunnel (ensure rec r) (dedupe_emit (ensure rec r) (gw_meta gw) EvWarning)
      (mget (m_annotations (gw_meta gw)) AnnotationTunnelRef) (m_ns (gw_meta gw)) w1 = (Inr (Some tunnel), w2)"
    and "parseGatewayServiceRef (mget (m_annotations (gw_meta gw)) AnnotationGatewayService) (m_ns (gw_meta gw)) = Inr (k, port)"
    and "sr_get_service (ensure rec r) k w2 = (Inl e, w3)"
  shows "fst (Reconcile_gateway r rec req w) = Inr 0 \<and>
    \<not> wakes svc_meta (su_services (gateway_wiring r cp)) ev svc v req"
  using assms by (auto simp: Reconcile_gateway_def deriveGatewayRouting_def service_events Let_def)

section \<open>A small cluster\<close>

definition observed_changes :: change_predicates where
  "observed_changes =
     (let on = (\<lambda>changed e. (case e of UpdateEv m n \<Rightarrow> changed m n | _ \<Rightarrow> True))
      in \<lparr>cp_generation = on (\<lambda>m n. m_generation m \<noteq> m_generation n),
          cp_annotations = on (\<lambda>m n. m_annotations m \<noteq> m_annotations n),
          cp_labels = on (\<lambda>m n. m_labels m \<noteq> m_labels n)\<rparr>)"

lemma observed_changes_ok: "change_ok observed_changes"
  by (simp add: change_ok_def observed_changes_def Let_def)

definition opted :: strmap where "opted = [(AnnotationTunnel, ''true'')]"

definition wired_cluster :: "nat source_reconciler" where
  "wired_cluster = (edge_cluster (app_route opted))
     \<lparr>sr_list_tunnels := (\<lambda>w. (Inr [new_tunnel ''prod'' ''main''], w)),
      sr_list_services := (\<lambda>w. (Inr [a_service opted ''10.0.0.7''], w)),
      sr_list_gateways := (\<lambda>w. (Inr [edge_gateway], w))\<rparr>"

definition indexed_agents :: "towonel_agent list \<Rightarrow> nat agent_reconciler" where
  "indexed_agents as = idle_agent_reconciler
     \<lparr>ar_list_indexed := (\<lambda>v w. (Inr (filter (\<lambda>a. v \<in> set (agentTunnelRefIndex a)) as), w))\<rparr>"

lemma opted_annotations [simp]:
  "has_key opted AnnotationTunnel" "mget opted AnnotationTunnel = ''true''" "mget opted AnnotationTunnelRef = []"
  "map_of opted AnnotationTunnel = Some ''true''"
  by (simp_all add: opted_def AnnotationTunnel_def AnnotationTunnelRef_def)

lemma wired_resolves:
  "mget (m_annotations m) AnnotationTunnelRef = [] \<Longrightarrow> may_resolve wired_cluster m (''prod'', ''main'')"
  by (auto simp: may_resolve_def resolveTunnel_def wired_cluster_def new_tunnel_def new_meta_def key_of_def)


theorem Reconcile_gateway_gives_up_witness:
  "fst (Reconcile_gateway (wired_cluster
     \<lparr>sr_get_gateway := (\<lambda>k w. (Inr (edge_gateway\<lparr>gw_meta := (gw_meta edge_gateway)
        \<lparr>m_annotations := [(AnnotationTunnel, ''true''), (AnnotationGatewayService, ''proxy'')]\<rparr>\<rparr>), w)),
      sr_get_service := (\<lambda>k w. (Inl (KubeError ROther ''etcd leader changed''), w))\<rparr>)
     None (''infra'', ''edge'') 0) = Inr 0"
proof -
  let ?m = "(gw_meta edge_gateway)\<lparr>m_annotations := [(AnnotationTunnel, ''true''), (AnnotationGatewayService, ''proxy'')]\<rparr>"
  let ?gw = "edge_gateway\<lparr>gw_meta := ?m\<rparr>" and ?e = "KubeError ROther ''etcd leader changed''"
  let ?r = "wired_cluster\<lparr>sr_get_gateway := (\<lambda>k w. (Inr ?gw, w)), sr_get_service := (\<lambda>k w. (Inl ?e, w))\<rparr>"
  have same: "ensure None ?r = ?r" by (simp add: ensure_def wired_cluster_def edge_cluster_def agents_source_def)
  have anns: "mget (m_annotations ?m) AnnotationTunnel = ''true''" "mget (m_annotations ?m) AnnotationTunnelRef = []"
    "mget (m_annotations ?m) AnnotationGatewayService = ''proxy''" "m_ns ?m = ''infra''"
    by (simp_all add: AnnotationTunnel_def AnnotationTunnelRef_def AnnotationGatewayService_def edge_gateway_def new_meta_def)
  have get: "sr_get_gateway (ensure None ?r) (''infra'', ''edge'') 0 = (Inr ?gw, 0)"
    and svc: "sr_get_service (ensure None ?r) (''infra'', ''proxy'') 0 = (Inl ?e, 0)" unfolding same by simp_all
  have tun: "resolveTunnel (ensure None ?r) (dedupe_emit (ensure None ?r) (gw_meta ?gw) EvWarning)
      (mget (m_annotations (gw_meta ?gw)) AnnotationTunnelRef) (m_ns (gw_meta ?gw)) 0 = (Inr (Some (''prod'', ''main'')), 0)"
    using anns unfolding same
    by (simp add: resolveTunnel_def wired_cluster_def new_tunnel_def new_meta_def key_of_def)
  have gm: "gw_meta ?gw = ?m" by simp
  have tr: "truthy (mget (m_annotations (gw_meta ?gw)) AnnotationTunnel)" unfolding gm anns by simp
  have ref: "parseGatewayServiceRef (mget (m_annotations (gw_meta ?gw)) AnnotationGatewayService) (m_ns (gw_meta ?gw)) =
      Inr ((''infra'', ''proxy''), 0)" unfolding gm anns by (rule edge_ref)
  show ?thesis
    using Reconcile_gateway_gives_up[OF get tr tun ref svc] by blast
qed

end
