(* ===== verification/DeepCopy.thy ===== *)
theory DeepCopy
  imports Prelude
begin

text \<open>
  \<open>api/v1alpha1/zz_generated.deepcopy.go\<close>: the deep copies of the custom resources, over an explicit
  store. The rest of the development has values; the operator has structs with pointers, slices and
  maps, and it is \<open>DeepCopy\<close> that makes the difference invisible: \<open>orig := tt.Status.DeepCopy()\<close> is
  compared with the status after conditions have been edited in place. A slice covers its backing
  array. The types of the API machinery (\<open>ObjectMeta\<close>, \<open>Condition\<close>, \<open>Toleration\<close>, ...) and their
  deep copies are parameters.
\<close>

section \<open>Go memory\<close>

datatype gval =
    GStr string
  | GInt int
  | GBool bool
  | GNil
  | GPtr nat
  | GSlice nat
  | GMap nat
  | GStruct "(string \<times> gval) list"

datatype gcell =
    CVar gval
  | CArr "gval list"
  | CMap "(string \<times> string) list"

type_synonym gheap = "gcell list"

definition cell :: "gheap \<Rightarrow> nat \<Rightarrow> gcell option" where
  "cell h a = (if a < length h then Some (h ! a) else None)"

datatype gty =
    TyStr
  | TyInt
  | TyBool
  | TyPtr gty
  | TySlice gty
  | TyMap
  | TyStruct "(string \<times> gty) list"

section \<open>The shapes of the generated code\<close>

text \<open>
  A copier is a \<open>DeepCopyInto\<close>: the value of \<open>*in\<close> and the store to the value of \<open>*out\<close> and the
  store. The new cell of a clone comes after the cells of its contents; the numbering is not
  observable.
\<close>

type_synonym copier = "gval \<Rightarrow> gheap \<Rightarrow> gval \<times> gheap"

definition shallow :: copier where
  "shallow v h = (v, h)"

text \<open>\<open>*out = new(T)\<close> followed by a copy of the target.\<close>

definition clone_ptr :: "copier \<Rightarrow> copier" where
  "clone_ptr cp v h = (case v of
     GPtr a \<Rightarrow> (case cell h a of
        Some (CVar x) \<Rightarrow> (let (x', h') = cp x h in (GPtr (length h'), h' @ [CVar x']))
      | _ \<Rightarrow> (v, h))
   | _ \<Rightarrow> (v, h))"

fun copy_each :: "copier \<Rightarrow> gval list \<Rightarrow> gheap \<Rightarrow> gval list \<times> gheap" where
  "copy_each cp [] h = ([], h)"
| "copy_each cp (v # vs) h = (let (v', h1) = cp v h; (vs', h2) = copy_each cp vs h1 in (v' # vs', h2))"

text \<open>\<open>*out = make([]T, len( *in))\<close> followed by \<open>copy\<close> or by the loop over the elements.\<close>

definition clone_slice :: "copier \<Rightarrow> copier" where
  "clone_slice cp v h = (case v of
     GSlice a \<Rightarrow> (case cell h a of
        Some (CArr xs) \<Rightarrow> (let (xs', h') = copy_each cp xs h in (GSlice (length h'), h' @ [CArr xs']))
      | _ \<Rightarrow> (v, h))
   | _ \<Rightarrow> (v, h))"

definition clone_map :: copier where
  "clone_map v h = (case v of
     GMap a \<Rightarrow> (case cell h a of Some (CMap m) \<Rightarrow> (GMap (length h), h @ [CMap m]) | _ \<Rightarrow> (v, h))
   | _ \<Rightarrow> (v, h))"

text \<open>\<open>*out = *in\<close>, then the listed fields again.\<close>

fun copy_fields :: "(string \<times> copier) list \<Rightarrow> (string \<times> gval) list \<Rightarrow> gheap \<Rightarrow> (string \<times> gval) list \<times> gheap" where
  "copy_fields cps [] h = ([], h)"
| "copy_fields cps ((f, v) # fs) h =
     (let (v', h1) = (case map_of cps f of None \<Rightarrow> (v, h) | Some cp \<Rightarrow> cp v h);
          (fs', h2) = copy_fields cps fs h1 in ((f, v') # fs', h2))"

definition copy_struct :: "(string \<times> copier) list \<Rightarrow> copier" where
  "copy_struct cps v h = (case v of
     GStruct fs \<Rightarrow> (let (fs', h') = copy_fields cps fs h in (GStruct fs', h'))
   | _ \<Rightarrow> (v, h))"

section \<open>Contents and reach\<close>

text \<open>\<open>holds h t v T R\<close>: in store \<open>h\<close> the value \<open>v\<close> of type \<open>t\<close> has the contents \<open>T\<close>, and following
  its pointers, slices and maps reaches the cells \<open>R\<close>.\<close>

datatype tree =
    LStr string
  | LInt int
  | LBool bool
  | LNil
  | LPtr tree
  | LSlice "tree list"
  | LMap "(string \<times> string) list"
  | LStruct "(string \<times> tree) list"

inductive holds :: "gheap \<Rightarrow> gty \<Rightarrow> gval \<Rightarrow> tree \<Rightarrow> nat set \<Rightarrow> bool"
  and holds_each :: "gheap \<Rightarrow> gty \<Rightarrow> gval list \<Rightarrow> tree list \<Rightarrow> nat set \<Rightarrow> bool"
  and holds_fields :: "gheap \<Rightarrow> (string \<times> gty) list \<Rightarrow> (string \<times> gval) list \<Rightarrow> (string \<times> tree) list \<Rightarrow> nat set \<Rightarrow> bool"
  for h where
  h_str: "holds h TyStr (GStr s) (LStr s) {}"
| h_int: "holds h TyInt (GInt n) (LInt n) {}"
| h_bool: "holds h TyBool (GBool b) (LBool b) {}"
| h_nil_ptr: "holds h (TyPtr t) GNil LNil {}"
| h_nil_slice: "holds h (TySlice t) GNil LNil {}"
| h_nil_map: "holds h TyMap GNil LNil {}"
| h_ptr: "cell h a = Some (CVar v) \<Longrightarrow> holds h t v T R \<Longrightarrow> holds h (TyPtr t) (GPtr a) (LPtr T) (insert a R)"
| h_slice: "cell h a = Some (CArr vs) \<Longrightarrow> holds_each h t vs Ts R \<Longrightarrow>
    holds h (TySlice t) (GSlice a) (LSlice Ts) (insert a R)"
| h_map: "cell h a = Some (CMap m) \<Longrightarrow> holds h TyMap (GMap a) (LMap m) {a}"
| h_struct: "holds_fields h fts fs Ts R \<Longrightarrow> holds h (TyStruct fts) (GStruct fs) (LStruct Ts) R"
| h_each_Nil: "holds_each h t [] [] {}"
| h_each_Cons: "holds h t v T R \<Longrightarrow> holds_each h t vs Ts Q \<Longrightarrow> holds_each h t (v # vs) (T # Ts) (R \<union> Q)"
| h_fields_Nil: "holds_fields h [] [] [] {}"
| h_fields_Cons: "holds h t v T R \<Longrightarrow> holds_fields h fts fs Ts Q \<Longrightarrow>
    holds_fields h ((f, t) # fts) ((f, v) # fs) ((f, T) # Ts) (R \<union> Q)"

inductive_cases holds_ptrE: "holds h (TyPtr t) v T R"
inductive_cases holds_sliceE: "holds h (TySlice t) v T R"
inductive_cases holds_mapE: "holds h TyMap v T R"
inductive_cases holds_structE: "holds h (TyStruct fts) v T R"
inductive_cases holds_each_NilE: "holds_each h t [] Ts R"
inductive_cases holds_each_ConsE: "holds_each h t (v # vs) Ts R"
inductive_cases holds_fields_NilE: "holds_fields h [] fs Ts R"
inductive_cases holds_fields_ConsE: "holds_fields h (p # fts) fs Ts R"

lemma holds_frame_all:
  "holds h t v T R \<Longrightarrow> (\<forall>a\<in>R. cell h' a = cell h a) \<longrightarrow> holds h' t v T R"
  "holds_each h t vs Ts R \<Longrightarrow> (\<forall>a\<in>R. cell h' a = cell h a) \<longrightarrow> holds_each h' t vs Ts R"
  "holds_fields h fts fs Us R \<Longrightarrow> (\<forall>a\<in>R. cell h' a = cell h a) \<longrightarrow> holds_fields h' fts fs Us R"
  by (induction rule: holds_holds_each_holds_fields.inducts)
    (auto intro: holds_holds_each_holds_fields.intros)

lemma holds_frame: "holds h t v T R \<Longrightarrow> (\<And>a. a \<in> R \<Longrightarrow> cell h' a = cell h a) \<Longrightarrow> holds h' t v T R"
  using holds_frame_all(1) by blast

lemma holds_below_all:
  "holds h t v T R \<Longrightarrow> R \<subseteq> {..<length h}"
  "holds_each h t vs Ts R \<Longrightarrow> R \<subseteq> {..<length h}"
  "holds_fields h fts fs Us R \<Longrightarrow> R \<subseteq> {..<length h}"
  by (induction rule: holds_holds_each_holds_fields.inducts) (auto simp: cell_def split: if_splits)

lemmas holds_below = holds_below_all(1)

lemma cell_append: "a < length h \<Longrightarrow> cell (h @ cs) a = cell h a"
  by (simp add: cell_def nth_append)

lemma holds_append: "holds h t v T R \<Longrightarrow> holds (h @ cs) t v T R"
  using holds_frame cell_append holds_below by (metis lessThan_iff subsetD)

lemma holds_append_all:
  "holds_each h t vs Ts R \<Longrightarrow> holds_each (h @ cs) t vs Ts R"
  "holds_fields h fts fs Us R \<Longrightarrow> holds_fields (h @ cs) fts fs Us R"
  using holds_frame_all(2,3) cell_append holds_below_all(2,3) by (metis lessThan_iff subsetD)+

lemma cell_last: "cell (h @ [c]) (length h) = Some c"
  by (simp add: cell_def)


section \<open>What a deep copy promises\<close>

text \<open>
  The documented contract: the copy has the contents of the original, the store the original lives
  in is left as it is, and nothing the copy reaches existed before.
\<close>

definition good_copier :: "gty \<Rightarrow> copier \<Rightarrow> bool" where
  "good_copier t cp \<longleftrightarrow> (\<forall>h v T R. holds h t v T R \<longrightarrow>
     (\<exists>v' cs R'. cp v h = (v', h @ cs) \<and> holds (h @ cs) t v' T R' \<and> R' \<inter> {..<length h} = {}))"

lemma good_copierD:
  assumes "good_copier t cp" and "holds h t v T R"
  obtains v' cs R' where "cp v h = (v', h @ cs)" "holds (h @ cs) t v' T R'" "R' \<inter> {..<length h} = {}"
  using assms unfolding good_copier_def by blast

text \<open>Types without pointers, slices and maps need no more than the assignment.\<close>

fun flat :: "gty \<Rightarrow> bool" where
  "flat TyStr = True"
| "flat TyInt = True"
| "flat TyBool = True"
| "flat (TyPtr t) = False"
| "flat (TySlice t) = False"
| "flat TyMap = False"
| "flat (TyStruct fts) = list_all (\<lambda>p. flat (snd p)) fts"

lemma flat_reach:
  "holds h t v T R \<Longrightarrow> flat t \<longrightarrow> R = {}"
  "holds_each h t vs Ts R \<Longrightarrow> flat t \<longrightarrow> R = {}"
  "holds_fields h fts fs Us R \<Longrightarrow> list_all (\<lambda>p. flat (snd p)) fts \<longrightarrow> R = {}"
  by (induction rule: holds_holds_each_holds_fields.inducts) auto

lemma good_shallow: "flat t \<Longrightarrow> good_copier t shallow"
  unfolding good_copier_def shallow_def using flat_reach(1) holds_append
  by (metis Int_empty_left append_Nil2)

lemma good_ptr:
  assumes "good_copier t cp"
  shows "good_copier (TyPtr t) (clone_ptr cp)"
  unfolding good_copier_def
proof (intro allI impI)
  fix h v T R assume "holds h (TyPtr t) v T R"
  then show "\<exists>v' cs R'. clone_ptr cp v h = (v', h @ cs) \<and> holds (h @ cs) (TyPtr t) v' T R' \<and> R' \<inter> {..<length h} = {}"
  proof (cases rule: holds_ptrE[consumes 1])
    case 1
    then have "clone_ptr cp v h = (GNil, h @ [])" "holds (h @ []) (TyPtr t) GNil T {}"
      by (simp_all add: clone_ptr_def h_nil_ptr)
    then show ?thesis by blast
  next
    case (2 a x U Q)
    obtain x' cs Q' where x: "cp x h = (x', h @ cs)" "holds (h @ cs) t x' U Q'" "Q' \<inter> {..<length h} = {}"
      by (rule good_copierD[OF assms 2(5)])
    have "holds (h @ cs @ [CVar x']) (TyPtr t) (GPtr (length (h @ cs))) (LPtr U) (insert (length (h @ cs)) Q')"
      using h_ptr[OF cell_last holds_append[OF x(2)]] by simp
    moreover have "clone_ptr cp v h = (GPtr (length (h @ cs)), h @ cs @ [CVar x'])"
      using 2(1,4) x(1) by (simp add: clone_ptr_def)
    moreover have "insert (length (h @ cs)) Q' \<inter> {..<length h} = {}" using x(3) by auto
    ultimately show ?thesis using 2(2) by blast
  qed
qed

lemma good_each:
  assumes "good_copier t cp"
  shows "holds_each h t vs Ts R \<Longrightarrow> \<exists>vs' cs R'. copy_each cp vs h = (vs', h @ cs) \<and>
    holds_each (h @ cs) t vs' Ts R' \<and> R' \<inter> {..<length h} = {}"
proof (induction vs arbitrary: h Ts R)
  case Nil
  then show ?case by (auto elim!: holds_each_NilE intro!: exI[of _ "{}"] h_each_Nil)
next
  case (Cons v vs)
  from Cons.prems obtain T Us R1 R2 where v: "holds h t v T R1" "holds_each h t vs Us R2" "Ts = T # Us"
    by (auto elim!: holds_each_ConsE)
  obtain v' cs Q where c: "cp v h = (v', h @ cs)" "holds (h @ cs) t v' T Q" "Q \<inter> {..<length h} = {}"
    by (rule good_copierD[OF assms v(1)])
  obtain vs' ds Q' where d: "copy_each cp vs (h @ cs) = (vs', (h @ cs) @ ds)"
      "holds_each ((h @ cs) @ ds) t vs' Us Q'" "Q' \<inter> {..<length (h @ cs)} = {}"
    using Cons.IH[OF holds_append_all(1)[OF v(2)]] by blast
  have "holds_each (h @ cs @ ds) t (v' # vs') Ts (Q \<union> Q')"
    using h_each_Cons[OF holds_append[OF c(2), of ds] d(2)] v(3) by simp
  then show ?case using c d by (intro exI[of _ "v' # vs'"] exI[of _ "cs @ ds"] exI[of _ "Q \<union> Q'"]) auto
qed

lemma good_slice:
  assumes "good_copier t cp"
  shows "good_copier (TySlice t) (clone_slice cp)"
  unfolding good_copier_def
proof (intro allI impI)
  fix h v T R assume "holds h (TySlice t) v T R"
  then show "\<exists>v' cs R'. clone_slice cp v h = (v', h @ cs) \<and> holds (h @ cs) (TySlice t) v' T R' \<and>
      R' \<inter> {..<length h} = {}"
  proof (cases rule: holds_sliceE[consumes 1])
    case 1
    then have "clone_slice cp v h = (GNil, h @ [])" "holds (h @ []) (TySlice t) GNil T {}"
      by (simp_all add: clone_slice_def h_nil_slice)
    then show ?thesis by blast
  next
    case (2 a xs Us Q)
    obtain xs' cs Q' where x: "copy_each cp xs h = (xs', h @ cs)" "holds_each (h @ cs) t xs' Us Q'"
        "Q' \<inter> {..<length h} = {}"
      using good_each[OF assms 2(5)] by blast
    have "holds (h @ cs @ [CArr xs']) (TySlice t) (GSlice (length (h @ cs))) (LSlice Us) (insert (length (h @ cs)) Q')"
      using h_slice[OF cell_last holds_append_all(1)[OF x(2)]] by simp
    moreover have "clone_slice cp v h = (GSlice (length (h @ cs)), h @ cs @ [CArr xs'])"
      using 2(1,4) x(1) by (simp add: clone_slice_def)
    moreover have "insert (length (h @ cs)) Q' \<inter> {..<length h} = {}" using x(3) by auto
    ultimately show ?thesis using 2(2) by blast
  qed
qed

lemma good_map: "good_copier TyMap clone_map"
  unfolding good_copier_def
proof (intro allI impI)
  fix h v T R assume "holds h TyMap v T R"
  then show "\<exists>v' cs R'. clone_map v h = (v', h @ cs) \<and> holds (h @ cs) TyMap v' T R' \<and> R' \<inter> {..<length h} = {}"
  proof (cases rule: holds_mapE[consumes 1])
    case 1
    then have "clone_map v h = (GNil, h @ [])" "holds (h @ []) TyMap GNil T {}"
      by (simp_all add: clone_map_def h_nil_map)
    then show ?thesis by blast
  next
    case (2 a m)
    then have "clone_map v h = (GMap (length h), h @ [CMap m])" by (simp add: clone_map_def)
    moreover have "{length h} \<inter> {..<length h} = {}" by simp
    ultimately show ?thesis using h_map[OF cell_last, of h m] 2(2) by blast
  qed
qed

text \<open>A struct is copied well when every field the code copies again is, and the others are flat.\<close>

definition good_field :: "(string \<times> copier) list \<Rightarrow> string \<times> gty \<Rightarrow> bool" where
  "good_field cps p = (case map_of cps (fst p) of None \<Rightarrow> flat (snd p) | Some cp \<Rightarrow> good_copier (snd p) cp)"

lemma good_fields:
  "list_all (good_field cps) fts \<Longrightarrow> holds_fields h fts fs Ts R \<Longrightarrow> \<exists>fs' cs R'. copy_fields cps fs h = (fs', h @ cs) \<and>
     holds_fields (h @ cs) fts fs' Ts R' \<and> R' \<inter> {..<length h} = {}"
proof (induction fts arbitrary: h fs Ts R)
  case Nil
  then show ?case by (auto elim!: holds_fields_NilE intro!: exI[of _ "{}"] h_fields_Nil)
next
  case (Cons p fts)
  from Cons.prems(2) obtain f t v gs T Us R1 R2 where p: "p = (f, t)" "fs = (f, v) # gs" "Ts = (f, T) # Us"
      and v: "holds h t v T R1" "holds_fields h fts gs Us R2"
    by (auto elim!: holds_fields_ConsE)
  have rest: "list_all (good_field cps) fts" using Cons.prems(1) by simp
  let ?cp = "case map_of cps f of None \<Rightarrow> shallow | Some cp \<Rightarrow> cp"
  have "good_copier t ?cp" using Cons.prems(1) p(1) good_shallow
    by (auto simp: good_field_def split: option.splits)
  then obtain v' cs Q where c: "?cp v h = (v', h @ cs)" "holds (h @ cs) t v' T Q" "Q \<inter> {..<length h} = {}"
    by (rule good_copierD[OF _ v(1)])
  obtain gs' ds Q' where d: "copy_fields cps gs (h @ cs) = (gs', (h @ cs) @ ds)"
      "holds_fields ((h @ cs) @ ds) fts gs' Us Q'" "Q' \<inter> {..<length (h @ cs)} = {}"
    using Cons.IH[OF rest holds_append_all(2)[OF v(2), of cs]] by blast
  have "holds_fields (h @ cs @ ds) (p # fts) ((f, v') # gs') Ts (Q \<union> Q')"
    using h_fields_Cons[OF holds_append[OF c(2), of ds] d(2)] p by simp
  moreover have "copy_fields cps fs h = ((f, v') # gs', h @ cs @ ds)"
    using c(1) d(1) p(2) by (auto simp: shallow_def split: option.splits)
  ultimately show ?case using c(3) d(3)
    by (intro exI[of _ "(f, v') # gs'"] exI[of _ "cs @ ds"] exI[of _ "Q \<union> Q'"]) auto
qed

lemma good_struct:
  assumes "list_all (good_field cps) fts"
  shows "good_copier (TyStruct fts) (copy_struct cps)"
  unfolding good_copier_def
proof (intro allI impI)
  fix h v T R assume "holds h (TyStruct fts) v T R"
  then obtain fs Ts where v: "v = GStruct fs" "T = LStruct Ts" "holds_fields h fts fs Ts R"
    by (auto elim: holds_structE)
  from good_fields[OF assms v(3)] obtain fs' cs R' where "copy_fields cps fs h = (fs', h @ cs)"
      "holds_fields (h @ cs) fts fs' Ts R'" "R' \<inter> {..<length h} = {}" by blast
  then show "\<exists>v' cs R'. copy_struct cps v h = (v', h @ cs) \<and> holds (h @ cs) (TyStruct fts) v' T R' \<and>
      R' \<inter> {..<length h} = {}"
    using v h_struct by (intro exI[of _ "GStruct fs'"] exI[of _ cs] exI[of _ R']) (auto simp: copy_struct_def)
qed

lemmas good_copiers = good_ptr good_slice good_map good_shallow

section \<open>The generated copies\<close>

text \<open>
  Per type: its fields as \<open>*_types.go\<close> declares them, and its \<open>DeepCopyInto\<close> and \<open>DeepCopy\<close>. In
  them \<open>x n\<close> is the API machinery's type \<open>n\<close> and \<open>xc n\<close> its deep copy; immutable values those types
  share, such as time zones, are not cells.
\<close>

definition ty_TypeMeta :: gty where
  "ty_TypeMeta = TyStruct [(''Kind'', TyStr), (''APIVersion'', TyStr)]"

definition ty_AgentL4Service :: gty where
  "ty_AgentL4Service = TyStruct
     [(''Name'', TyStr), (''Origin'', TyStr), (''PreferredPort'', TyInt), (''Hostname'', TyStr)]"

definition AgentL4Service_DeepCopyInto :: copier where
  "AgentL4Service_DeepCopyInto = shallow"

definition AgentL4Service_DeepCopy :: copier where
  "AgentL4Service_DeepCopy = clone_ptr AgentL4Service_DeepCopyInto"

definition ty_AgentService :: gty where
  "ty_AgentService = TyStruct
     [(''Hostname'', TyStr), (''Origin'', TyStr), (''EdgeTLSMode'', TyStr),
      (''ProxyProtocol'', TyStr), (''DNSRecord'', TyPtr TyBool)]"

definition AgentService_DeepCopyInto :: copier where
  "AgentService_DeepCopyInto = copy_struct
     [(''DNSRecord'', clone_ptr shallow)]"

definition AgentService_DeepCopy :: copier where
  "AgentService_DeepCopy = clone_ptr AgentService_DeepCopyInto"

definition ty_NodePortSpec :: gty where
  "ty_NodePortSpec = TyStruct
     [(''Create'', TyBool), (''Name'', TyStr), (''Port'', TyInt)]"

definition NodePortSpec_DeepCopyInto :: copier where
  "NodePortSpec_DeepCopyInto = shallow"

definition NodePortSpec_DeepCopy :: copier where
  "NodePortSpec_DeepCopy = clone_ptr NodePortSpec_DeepCopyInto"

definition ty_ConnectivitySpec :: gty where
  "ty_ConnectivitySpec = TyStruct
     [(''Autodiscover'', TyBool), (''IrohPort'', TyInt), (''ExtraLocalAddrs'', TySlice TyStr),
      (''NodePort'', ty_NodePortSpec)]"

definition ConnectivitySpec_DeepCopyInto :: copier where
  "ConnectivitySpec_DeepCopyInto = copy_struct
     [(''ExtraLocalAddrs'', clone_slice shallow), (''NodePort'', shallow)]"

definition ConnectivitySpec_DeepCopy :: copier where
  "ConnectivitySpec_DeepCopy = clone_ptr ConnectivitySpec_DeepCopyInto"

definition ty_DNSProviderProperty :: gty where
  "ty_DNSProviderProperty = TyStruct
     [(''Name'', TyStr), (''Value'', TyStr)]"

definition DNSProviderProperty_DeepCopyInto :: copier where
  "DNSProviderProperty_DeepCopyInto = shallow"

definition DNSProviderProperty_DeepCopy :: copier where
  "DNSProviderProperty_DeepCopy = clone_ptr DNSProviderProperty_DeepCopyInto"

definition ty_DNSRecord :: gty where
  "ty_DNSRecord = TyStruct
     [(''Hostname'', TyStr), (''Type'', TyStr), (''Target'', TyStr), (''Port'', TyInt),
      (''Protocol'', TyStr)]"

definition DNSRecord_DeepCopyInto :: copier where
  "DNSRecord_DeepCopyInto = shallow"

definition DNSRecord_DeepCopy :: copier where
  "DNSRecord_DeepCopy = clone_ptr DNSRecord_DeepCopyInto"

definition ty_EdgeRef :: gty where
  "ty_EdgeRef = TyStruct
     [(''NodeID'', TyStr), (''Addresses'', TySlice TyStr)]"

definition EdgeRef_DeepCopyInto :: copier where
  "EdgeRef_DeepCopyInto = copy_struct
     [(''Addresses'', clone_slice shallow)]"

definition EdgeRef_DeepCopy :: copier where
  "EdgeRef_DeepCopy = clone_ptr EdgeRef_DeepCopyInto"

definition ty_PortAllocation :: gty where
  "ty_PortAllocation = TyStruct
     [(''Name'', TyStr), (''Protocol'', TyStr), (''ListenPort'', TyInt), (''Edge'', ty_EdgeRef)]"

definition PortAllocation_DeepCopyInto :: copier where
  "PortAllocation_DeepCopyInto = copy_struct
     [(''Edge'', EdgeRef_DeepCopyInto)]"

definition PortAllocation_DeepCopy :: copier where
  "PortAllocation_DeepCopy = clone_ptr PortAllocation_DeepCopyInto"

definition ty_RegionEndpoint :: gty where
  "ty_RegionEndpoint = TyStruct
     [(''Region'', TyStr), (''Role'', TyStr), (''Addresses'', TySlice TyStr)]"

definition RegionEndpoint_DeepCopyInto :: copier where
  "RegionEndpoint_DeepCopyInto = copy_struct
     [(''Addresses'', clone_slice shallow)]"

definition RegionEndpoint_DeepCopy :: copier where
  "RegionEndpoint_DeepCopy = clone_ptr RegionEndpoint_DeepCopyInto"

definition ty_SecretKeyRef :: gty where
  "ty_SecretKeyRef = TyStruct
     [(''Name'', TyStr), (''Key'', TyStr)]"

definition SecretKeyRef_DeepCopyInto :: copier where
  "SecretKeyRef_DeepCopyInto = shallow"

definition SecretKeyRef_DeepCopy :: copier where
  "SecretKeyRef_DeepCopy = clone_ptr SecretKeyRef_DeepCopyInto"

definition ty_SecretReference :: gty where
  "ty_SecretReference = TyStruct
     [(''Name'', TyStr), (''Namespace'', TyStr)]"

definition SecretReference_DeepCopyInto :: copier where
  "SecretReference_DeepCopyInto = shallow"

definition SecretReference_DeepCopy :: copier where
  "SecretReference_DeepCopy = clone_ptr SecretReference_DeepCopyInto"

definition ty_TunnelReference :: gty where
  "ty_TunnelReference = TyStruct
     [(''Name'', TyStr), (''Namespace'', TyStr)]"

definition TunnelReference_DeepCopyInto :: copier where
  "TunnelReference_DeepCopyInto = shallow"

definition TunnelReference_DeepCopy :: copier where
  "TunnelReference_DeepCopy = clone_ptr TunnelReference_DeepCopyInto"

definition ty_WorkloadSpec :: "(string \<Rightarrow> gty) \<Rightarrow> gty" where
  "ty_WorkloadSpec x = TyStruct
     [(''DisableUDPGSO'', TyBool), (''Replicas'', TyPtr TyInt), (''Image'', TyStr),
      (''Resources'', x ''ResourceRequirements''), (''NodeSelector'', TyMap),
      (''Tolerations'', TySlice (x ''Toleration'')), (''Affinity'', TyPtr (x ''Affinity'')),
      (''PodSecurityContext'', TyPtr (x ''PodSecurityContext'')),
      (''SecurityContext'', TyPtr (x ''SecurityContext''))]"

definition WorkloadSpec_DeepCopyInto :: "(string \<Rightarrow> copier) \<Rightarrow> copier" where
  "WorkloadSpec_DeepCopyInto xc = copy_struct
     [(''Replicas'', clone_ptr shallow), (''Resources'', xc ''ResourceRequirements''),
      (''NodeSelector'', clone_map), (''Tolerations'', clone_slice (xc ''Toleration'')),
      (''Affinity'', clone_ptr (xc ''Affinity'')),
      (''PodSecurityContext'', clone_ptr (xc ''PodSecurityContext'')),
      (''SecurityContext'', clone_ptr (xc ''SecurityContext''))]"

definition WorkloadSpec_DeepCopy :: "(string \<Rightarrow> copier) \<Rightarrow> copier" where
  "WorkloadSpec_DeepCopy xc = clone_ptr (WorkloadSpec_DeepCopyInto xc)"

definition ty_TowonelAgentSpec :: "(string \<Rightarrow> gty) \<Rightarrow> gty" where
  "ty_TowonelAgentSpec x = TyStruct
     [(''TunnelRef'', ty_TunnelReference), (''Mode'', TyStr),
      (''Services'', TySlice ty_AgentService), (''TCP'', TySlice ty_AgentL4Service),
      (''UDP'', TySlice ty_AgentL4Service), (''RelayURL'', TyStr),
      (''Connectivity'', ty_ConnectivitySpec), (''Workload'', ty_WorkloadSpec x)]"

definition TowonelAgentSpec_DeepCopyInto :: "(string \<Rightarrow> copier) \<Rightarrow> copier" where
  "TowonelAgentSpec_DeepCopyInto xc = copy_struct
     [(''TunnelRef'', shallow), (''Services'', clone_slice AgentService_DeepCopyInto),
      (''TCP'', clone_slice shallow), (''UDP'', clone_slice shallow),
      (''Connectivity'', ConnectivitySpec_DeepCopyInto),
      (''Workload'', WorkloadSpec_DeepCopyInto xc)]"

definition TowonelAgentSpec_DeepCopy :: "(string \<Rightarrow> copier) \<Rightarrow> copier" where
  "TowonelAgentSpec_DeepCopy xc = clone_ptr (TowonelAgentSpec_DeepCopyInto xc)"

definition ty_TowonelAgentStatus :: "(string \<Rightarrow> gty) \<Rightarrow> gty" where
  "ty_TowonelAgentStatus x = TyStruct
     [(''Phase'', TyStr), (''ObservedConfigHash'', TyStr),
      (''RenderedSecretRef'', TyPtr ty_SecretReference),
      (''Conditions'', TySlice (x ''Condition'')), (''ObservedGeneration'', TyInt)]"

definition TowonelAgentStatus_DeepCopyInto :: "(string \<Rightarrow> copier) \<Rightarrow> copier" where
  "TowonelAgentStatus_DeepCopyInto xc = copy_struct
     [(''RenderedSecretRef'', clone_ptr shallow), (''Conditions'', clone_slice (xc ''Condition''))]"

definition TowonelAgentStatus_DeepCopy :: "(string \<Rightarrow> copier) \<Rightarrow> copier" where
  "TowonelAgentStatus_DeepCopy xc = clone_ptr (TowonelAgentStatus_DeepCopyInto xc)"

definition ty_TowonelAgent :: "(string \<Rightarrow> gty) \<Rightarrow> gty" where
  "ty_TowonelAgent x = TyStruct
     [(''TypeMeta'', ty_TypeMeta), (''ObjectMeta'', x ''ObjectMeta''),
      (''Spec'', ty_TowonelAgentSpec x), (''Status'', ty_TowonelAgentStatus x)]"

definition TowonelAgent_DeepCopyInto :: "(string \<Rightarrow> copier) \<Rightarrow> copier" where
  "TowonelAgent_DeepCopyInto xc = copy_struct
     [(''TypeMeta'', shallow), (''ObjectMeta'', xc ''ObjectMeta''),
      (''Spec'', TowonelAgentSpec_DeepCopyInto xc), (''Status'', TowonelAgentStatus_DeepCopyInto xc)]"

definition TowonelAgent_DeepCopy :: "(string \<Rightarrow> copier) \<Rightarrow> copier" where
  "TowonelAgent_DeepCopy xc = clone_ptr (TowonelAgent_DeepCopyInto xc)"

definition TowonelAgent_DeepCopyObject :: "(string \<Rightarrow> copier) \<Rightarrow> copier" where
  "TowonelAgent_DeepCopyObject xc = TowonelAgent_DeepCopy xc"

definition ty_TowonelAgentList :: "(string \<Rightarrow> gty) \<Rightarrow> gty" where
  "ty_TowonelAgentList x = TyStruct
     [(''TypeMeta'', ty_TypeMeta), (''ListMeta'', x ''ListMeta''),
      (''Items'', TySlice (ty_TowonelAgent x))]"

definition TowonelAgentList_DeepCopyInto :: "(string \<Rightarrow> copier) \<Rightarrow> copier" where
  "TowonelAgentList_DeepCopyInto xc = copy_struct
     [(''TypeMeta'', shallow), (''ListMeta'', xc ''ListMeta''),
      (''Items'', clone_slice (TowonelAgent_DeepCopyInto xc))]"

definition TowonelAgentList_DeepCopy :: "(string \<Rightarrow> copier) \<Rightarrow> copier" where
  "TowonelAgentList_DeepCopy xc = clone_ptr (TowonelAgentList_DeepCopyInto xc)"

definition TowonelAgentList_DeepCopyObject :: "(string \<Rightarrow> copier) \<Rightarrow> copier" where
  "TowonelAgentList_DeepCopyObject xc = TowonelAgentList_DeepCopy xc"

definition ty_TunnelDNSSpec :: gty where
  "ty_TunnelDNSSpec = TyStruct
     [(''Mode'', TyStr), (''DefaultTTL'', TyInt), (''Namespace'', TyStr), (''CNAMETarget'', TyStr),
      (''IncludeWildcards'', TyBool), (''Labels'', TyMap), (''Annotations'', TyMap),
      (''ProviderSpecific'', TySlice ty_DNSProviderProperty)]"

definition TunnelDNSSpec_DeepCopyInto :: copier where
  "TunnelDNSSpec_DeepCopyInto = copy_struct
     [(''Labels'', clone_map), (''Annotations'', clone_map),
      (''ProviderSpecific'', clone_slice shallow)]"

definition TunnelDNSSpec_DeepCopy :: copier where
  "TunnelDNSSpec_DeepCopy = clone_ptr TunnelDNSSpec_DeepCopyInto"

definition ty_TowonelTunnelSpec :: gty where
  "ty_TowonelTunnelSpec = TyStruct
     [(''Region'', TyStr), (''FailoverRegions'', TySlice TyStr),
      (''APIKeySecretRef'', TyPtr ty_SecretKeyRef), (''TokenExpiry'', TyInt),
      (''DeletionPolicy'', TyStr), (''ExtraHostnames'', TySlice TyStr), (''DNS'', ty_TunnelDNSSpec)]"

definition TowonelTunnelSpec_DeepCopyInto :: copier where
  "TowonelTunnelSpec_DeepCopyInto = copy_struct
     [(''FailoverRegions'', clone_slice shallow), (''APIKeySecretRef'', clone_ptr shallow),
      (''ExtraHostnames'', clone_slice shallow), (''DNS'', TunnelDNSSpec_DeepCopyInto)]"

definition TowonelTunnelSpec_DeepCopy :: copier where
  "TowonelTunnelSpec_DeepCopy = clone_ptr TowonelTunnelSpec_DeepCopyInto"

definition ty_TowonelTunnelStatus :: "(string \<Rightarrow> gty) \<Rightarrow> gty" where
  "ty_TowonelTunnelStatus x = TyStruct
     [(''InviteID'', TyStr), (''TenantID'', TyStr), (''TokenSecretRef'', TyPtr ty_SecretReference),
      (''ExpiresAt'', TyInt), (''AuthorizedHostnames'', TySlice TyStr),
      (''PortAllocations'', TySlice ty_PortAllocation), (''Edges'', TySlice TyStr),
      (''DNSRecords'', TySlice ty_DNSRecord), (''RegionEndpoints'', TySlice ty_RegionEndpoint),
      (''Conditions'', TySlice (x ''Condition'')), (''Phase'', TyStr),
      (''ObservedGeneration'', TyInt)]"

definition TowonelTunnelStatus_DeepCopyInto :: "(string \<Rightarrow> copier) \<Rightarrow> copier" where
  "TowonelTunnelStatus_DeepCopyInto xc = copy_struct
     [(''TokenSecretRef'', clone_ptr shallow), (''AuthorizedHostnames'', clone_slice shallow),
      (''PortAllocations'', clone_slice PortAllocation_DeepCopyInto),
      (''Edges'', clone_slice shallow), (''DNSRecords'', clone_slice shallow),
      (''RegionEndpoints'', clone_slice RegionEndpoint_DeepCopyInto),
      (''Conditions'', clone_slice (xc ''Condition''))]"

definition TowonelTunnelStatus_DeepCopy :: "(string \<Rightarrow> copier) \<Rightarrow> copier" where
  "TowonelTunnelStatus_DeepCopy xc = clone_ptr (TowonelTunnelStatus_DeepCopyInto xc)"

definition ty_TowonelTunnel :: "(string \<Rightarrow> gty) \<Rightarrow> gty" where
  "ty_TowonelTunnel x = TyStruct
     [(''TypeMeta'', ty_TypeMeta), (''ObjectMeta'', x ''ObjectMeta''),
      (''Spec'', ty_TowonelTunnelSpec), (''Status'', ty_TowonelTunnelStatus x)]"

definition TowonelTunnel_DeepCopyInto :: "(string \<Rightarrow> copier) \<Rightarrow> copier" where
  "TowonelTunnel_DeepCopyInto xc = copy_struct
     [(''TypeMeta'', shallow), (''ObjectMeta'', xc ''ObjectMeta''),
      (''Spec'', TowonelTunnelSpec_DeepCopyInto), (''Status'', TowonelTunnelStatus_DeepCopyInto xc)]"

definition TowonelTunnel_DeepCopy :: "(string \<Rightarrow> copier) \<Rightarrow> copier" where
  "TowonelTunnel_DeepCopy xc = clone_ptr (TowonelTunnel_DeepCopyInto xc)"

definition TowonelTunnel_DeepCopyObject :: "(string \<Rightarrow> copier) \<Rightarrow> copier" where
  "TowonelTunnel_DeepCopyObject xc = TowonelTunnel_DeepCopy xc"

definition ty_TowonelTunnelList :: "(string \<Rightarrow> gty) \<Rightarrow> gty" where
  "ty_TowonelTunnelList x = TyStruct
     [(''TypeMeta'', ty_TypeMeta), (''ListMeta'', x ''ListMeta''),
      (''Items'', TySlice (ty_TowonelTunnel x))]"

definition TowonelTunnelList_DeepCopyInto :: "(string \<Rightarrow> copier) \<Rightarrow> copier" where
  "TowonelTunnelList_DeepCopyInto xc = copy_struct
     [(''TypeMeta'', shallow), (''ListMeta'', xc ''ListMeta''),
      (''Items'', clone_slice (TowonelTunnel_DeepCopyInto xc))]"

definition TowonelTunnelList_DeepCopy :: "(string \<Rightarrow> copier) \<Rightarrow> copier" where
  "TowonelTunnelList_DeepCopy xc = clone_ptr (TowonelTunnelList_DeepCopyInto xc)"

definition TowonelTunnelList_DeepCopyObject :: "(string \<Rightarrow> copier) \<Rightarrow> copier" where
  "TowonelTunnelList_DeepCopyObject xc = TowonelTunnelList_DeepCopy xc"

section \<open>They all keep the promise\<close>

named_theorems deep_good "the deep copies of the types"

lemma flat_TypeMeta [deep_good]: "flat ty_TypeMeta"
  by (simp add: ty_TypeMeta_def)

lemma AgentL4Service_good [deep_good]: "flat ty_AgentL4Service" "good_copier ty_AgentL4Service AgentL4Service_DeepCopyInto"
  by (simp_all add: ty_AgentL4Service_def AgentL4Service_DeepCopyInto_def good_shallow)

lemma AgentService_good [deep_good]:
  "good_copier (ty_AgentService) (AgentService_DeepCopyInto)"
  unfolding ty_AgentService_def AgentService_DeepCopyInto_def
  by (rule good_struct) (simp add: good_field_def good_copiers deep_good)

lemma NodePortSpec_good [deep_good]: "flat ty_NodePortSpec" "good_copier ty_NodePortSpec NodePortSpec_DeepCopyInto"
  by (simp_all add: ty_NodePortSpec_def NodePortSpec_DeepCopyInto_def good_shallow)

lemma ConnectivitySpec_good [deep_good]:
  "good_copier (ty_ConnectivitySpec) (ConnectivitySpec_DeepCopyInto)"
  unfolding ty_ConnectivitySpec_def ConnectivitySpec_DeepCopyInto_def
  by (rule good_struct) (simp add: good_field_def good_copiers deep_good)

lemma DNSProviderProperty_good [deep_good]: "flat ty_DNSProviderProperty" "good_copier ty_DNSProviderProperty DNSProviderProperty_DeepCopyInto"
  by (simp_all add: ty_DNSProviderProperty_def DNSProviderProperty_DeepCopyInto_def good_shallow)

lemma DNSRecord_good [deep_good]: "flat ty_DNSRecord" "good_copier ty_DNSRecord DNSRecord_DeepCopyInto"
  by (simp_all add: ty_DNSRecord_def DNSRecord_DeepCopyInto_def good_shallow)

lemma EdgeRef_good [deep_good]:
  "good_copier (ty_EdgeRef) (EdgeRef_DeepCopyInto)"
  unfolding ty_EdgeRef_def EdgeRef_DeepCopyInto_def
  by (rule good_struct) (simp add: good_field_def good_copiers deep_good)

lemma PortAllocation_good [deep_good]:
  "good_copier (ty_PortAllocation) (PortAllocation_DeepCopyInto)"
  unfolding ty_PortAllocation_def PortAllocation_DeepCopyInto_def
  by (rule good_struct) (simp add: good_field_def good_copiers deep_good)

lemma RegionEndpoint_good [deep_good]:
  "good_copier (ty_RegionEndpoint) (RegionEndpoint_DeepCopyInto)"
  unfolding ty_RegionEndpoint_def RegionEndpoint_DeepCopyInto_def
  by (rule good_struct) (simp add: good_field_def good_copiers deep_good)

lemma SecretKeyRef_good [deep_good]: "flat ty_SecretKeyRef" "good_copier ty_SecretKeyRef SecretKeyRef_DeepCopyInto"
  by (simp_all add: ty_SecretKeyRef_def SecretKeyRef_DeepCopyInto_def good_shallow)

lemma SecretReference_good [deep_good]: "flat ty_SecretReference" "good_copier ty_SecretReference SecretReference_DeepCopyInto"
  by (simp_all add: ty_SecretReference_def SecretReference_DeepCopyInto_def good_shallow)

lemma TunnelReference_good [deep_good]: "flat ty_TunnelReference" "good_copier ty_TunnelReference TunnelReference_DeepCopyInto"
  by (simp_all add: ty_TunnelReference_def TunnelReference_DeepCopyInto_def good_shallow)

lemma WorkloadSpec_good [deep_good]:
  "(\<And>n. good_copier (x n) (xc n)) \<Longrightarrow> good_copier (ty_WorkloadSpec x) (WorkloadSpec_DeepCopyInto xc)"
  unfolding ty_WorkloadSpec_def WorkloadSpec_DeepCopyInto_def
  by (rule good_struct) (simp add: good_field_def good_copiers deep_good)

lemma TowonelAgentSpec_good [deep_good]:
  "(\<And>n. good_copier (x n) (xc n)) \<Longrightarrow> good_copier (ty_TowonelAgentSpec x) (TowonelAgentSpec_DeepCopyInto xc)"
  unfolding ty_TowonelAgentSpec_def TowonelAgentSpec_DeepCopyInto_def
  by (rule good_struct) (simp add: good_field_def good_copiers deep_good)

lemma TowonelAgentStatus_good [deep_good]:
  "(\<And>n. good_copier (x n) (xc n)) \<Longrightarrow> good_copier (ty_TowonelAgentStatus x) (TowonelAgentStatus_DeepCopyInto xc)"
  unfolding ty_TowonelAgentStatus_def TowonelAgentStatus_DeepCopyInto_def
  by (rule good_struct) (simp add: good_field_def good_copiers deep_good)

lemma TowonelAgent_good [deep_good]:
  "(\<And>n. good_copier (x n) (xc n)) \<Longrightarrow> good_copier (ty_TowonelAgent x) (TowonelAgent_DeepCopyInto xc)"
  unfolding ty_TowonelAgent_def TowonelAgent_DeepCopyInto_def
  by (rule good_struct) (simp add: good_field_def good_copiers deep_good)

lemma TowonelAgentList_good [deep_good]:
  "(\<And>n. good_copier (x n) (xc n)) \<Longrightarrow> good_copier (ty_TowonelAgentList x) (TowonelAgentList_DeepCopyInto xc)"
  unfolding ty_TowonelAgentList_def TowonelAgentList_DeepCopyInto_def
  by (rule good_struct) (simp add: good_field_def good_copiers deep_good)

lemma TunnelDNSSpec_good [deep_good]:
  "good_copier (ty_TunnelDNSSpec) (TunnelDNSSpec_DeepCopyInto)"
  unfolding ty_TunnelDNSSpec_def TunnelDNSSpec_DeepCopyInto_def
  by (rule good_struct) (simp add: good_field_def good_copiers deep_good)

lemma TowonelTunnelSpec_good [deep_good]:
  "good_copier (ty_TowonelTunnelSpec) (TowonelTunnelSpec_DeepCopyInto)"
  unfolding ty_TowonelTunnelSpec_def TowonelTunnelSpec_DeepCopyInto_def
  by (rule good_struct) (simp add: good_field_def good_copiers deep_good)

lemma TowonelTunnelStatus_good [deep_good]:
  "(\<And>n. good_copier (x n) (xc n)) \<Longrightarrow> good_copier (ty_TowonelTunnelStatus x) (TowonelTunnelStatus_DeepCopyInto xc)"
  unfolding ty_TowonelTunnelStatus_def TowonelTunnelStatus_DeepCopyInto_def
  by (rule good_struct) (simp add: good_field_def good_copiers deep_good)

lemma TowonelTunnel_good [deep_good]:
  "(\<And>n. good_copier (x n) (xc n)) \<Longrightarrow> good_copier (ty_TowonelTunnel x) (TowonelTunnel_DeepCopyInto xc)"
  unfolding ty_TowonelTunnel_def TowonelTunnel_DeepCopyInto_def
  by (rule good_struct) (simp add: good_field_def good_copiers deep_good)

lemma TowonelTunnelList_good [deep_good]:
  "(\<And>n. good_copier (x n) (xc n)) \<Longrightarrow> good_copier (ty_TowonelTunnelList x) (TowonelTunnelList_DeepCopyInto xc)"
  unfolding ty_TowonelTunnelList_def TowonelTunnelList_DeepCopyInto_def
  by (rule good_struct) (simp add: good_field_def good_copiers deep_good)

definition deep_copies :: "(string \<Rightarrow> gty) \<Rightarrow> (string \<Rightarrow> copier) \<Rightarrow> (gty \<times> copier) list" where
  "deep_copies x xc =
     [(ty_AgentL4Service, AgentL4Service_DeepCopy),
      (ty_AgentService, AgentService_DeepCopy),
      (ty_ConnectivitySpec, ConnectivitySpec_DeepCopy),
      (ty_DNSProviderProperty, DNSProviderProperty_DeepCopy),
      (ty_DNSRecord, DNSRecord_DeepCopy),
      (ty_EdgeRef, EdgeRef_DeepCopy),
      (ty_NodePortSpec, NodePortSpec_DeepCopy),
      (ty_PortAllocation, PortAllocation_DeepCopy),
      (ty_RegionEndpoint, RegionEndpoint_DeepCopy),
      (ty_SecretKeyRef, SecretKeyRef_DeepCopy),
      (ty_SecretReference, SecretReference_DeepCopy),
      (ty_TowonelAgent x, TowonelAgent_DeepCopy xc),
      (ty_TowonelAgent x, TowonelAgent_DeepCopyObject xc),
      (ty_TowonelAgentList x, TowonelAgentList_DeepCopy xc),
      (ty_TowonelAgentList x, TowonelAgentList_DeepCopyObject xc),
      (ty_TowonelAgentSpec x, TowonelAgentSpec_DeepCopy xc),
      (ty_TowonelAgentStatus x, TowonelAgentStatus_DeepCopy xc),
      (ty_TowonelTunnel x, TowonelTunnel_DeepCopy xc),
      (ty_TowonelTunnel x, TowonelTunnel_DeepCopyObject xc),
      (ty_TowonelTunnelList x, TowonelTunnelList_DeepCopy xc),
      (ty_TowonelTunnelList x, TowonelTunnelList_DeepCopyObject xc),
      (ty_TowonelTunnelSpec, TowonelTunnelSpec_DeepCopy),
      (ty_TowonelTunnelStatus x, TowonelTunnelStatus_DeepCopy xc),
      (ty_TunnelDNSSpec, TunnelDNSSpec_DeepCopy),
      (ty_TunnelReference, TunnelReference_DeepCopy),
      (ty_WorkloadSpec x, WorkloadSpec_DeepCopy xc)]"

lemmas deep_copy_defs =
  AgentL4Service_DeepCopy_def AgentService_DeepCopy_def NodePortSpec_DeepCopy_def
  ConnectivitySpec_DeepCopy_def DNSProviderProperty_DeepCopy_def DNSRecord_DeepCopy_def
  EdgeRef_DeepCopy_def PortAllocation_DeepCopy_def RegionEndpoint_DeepCopy_def SecretKeyRef_DeepCopy_def
  SecretReference_DeepCopy_def TunnelReference_DeepCopy_def WorkloadSpec_DeepCopy_def
  TowonelAgentSpec_DeepCopy_def TowonelAgentStatus_DeepCopy_def TowonelAgent_DeepCopy_def
  TowonelAgent_DeepCopyObject_def TowonelAgentList_DeepCopy_def TowonelAgentList_DeepCopyObject_def
  TunnelDNSSpec_DeepCopy_def TowonelTunnelSpec_DeepCopy_def TowonelTunnelStatus_DeepCopy_def
  TowonelTunnel_DeepCopy_def TowonelTunnel_DeepCopyObject_def TowonelTunnelList_DeepCopy_def
  TowonelTunnelList_DeepCopyObject_def

lemma deep_copies_good:
  assumes "\<And>n. good_copier (x n) (xc n)" and "(t, cp) \<in> set (deep_copies x xc)"
  shows "good_copier (TyPtr t) cp"
  using assms(2) unfolding deep_copies_def deep_copy_defs
  by (auto intro!: good_ptr deep_good assms(1))

text \<open>C22: every generated \<open>DeepCopy\<close> isolates. The copy of a well-typed object, down to every
  pointer, slice and map its type declares, has the same contents and shares no memory with the
  original, so a later write through either of them, at any depth, is not seen through the other:
  the status a reconcile compares with at its end is the one it started from.\<close>

theorem DeepCopy_isolates:
  assumes "\<And>n. good_copier (x n) (xc n)" and "(t, cp) \<in> set (deep_copies x xc)"
    and "holds h (TyPtr t) v T R" and "cp v h = (v', h')"
  shows "\<exists>R'. holds h' (TyPtr t) v' T R' \<and> holds h' (TyPtr t) v T R \<and> R \<inter> R' = {} \<and>
    (\<forall>a c. a \<in> R' \<longrightarrow> holds (h'[a := c]) (TyPtr t) v T R) \<and>
    (\<forall>a c. a \<in> R \<longrightarrow> holds (h'[a := c]) (TyPtr t) v' T R')"
proof -
  obtain cs R' where cp: "h' = h @ cs" "holds h' (TyPtr t) v' T R'" "R' \<inter> {..<length h} = {}"
    using good_copierD[OF deep_copies_good[OF assms(1,2)] assms(3)] assms(4) by (metis prod.inject)
  have R: "R \<subseteq> {..<length h}" by (rule holds_below[OF assms(3)])
  have orig: "holds h' (TyPtr t) v T R" using holds_append[OF assms(3)] cp(1) by simp
  have disj: "R \<inter> R' = {}" using R cp(3) by auto
  have upd: "cell (g[a := c]) b = cell g b" if "a \<noteq> b" for g a b c
    using that by (simp add: cell_def)
  have "holds (h'[a := c]) (TyPtr t) v T R" if "a \<in> R'" for a c
    by (rule holds_frame[OF orig]) (use disj that in \<open>auto intro!: upd\<close>)
  moreover have "holds (h'[a := c]) (TyPtr t) v' T R'" if "a \<in> R" for a c
    by (rule holds_frame[OF cp(2)]) (use disj that in \<open>auto intro!: upd\<close>)
  ultimately show ?thesis using cp(2) orig disj by blast
qed


text \<open>A service that stays out of DNS, its flag in a cell of its own: setting the original's flag
  does not publish the copy.\<close>

definition service_heap :: gheap where
  "service_heap = [CVar (GBool False), CVar (GStruct [(''Hostname'', GStr ''a.example''),
     (''Origin'', GStr ''10.0.0.1:80''), (''EdgeTLSMode'', GStr []), (''ProxyProtocol'', GStr []),
     (''DNSRecord'', GPtr 0)])]"

definition service_tree :: tree where
  "service_tree = LPtr (LStruct [(''Hostname'', LStr ''a.example''), (''Origin'', LStr ''10.0.0.1:80''),
     (''EdgeTLSMode'', LStr []), (''ProxyProtocol'', LStr []), (''DNSRecord'', LPtr (LBool False))])"

lemma service_holds: "holds service_heap (TyPtr ty_AgentService) (GPtr 1) service_tree {0, 1}"
proof -
  have flag: "holds service_heap (TyPtr TyBool) (GPtr 0) (LPtr (LBool False)) (insert 0 {})"
    by (rule h_ptr[OF _ h_bool]) (simp add: cell_def service_heap_def)
  have "holds service_heap (TyPtr ty_AgentService) (GPtr 1) service_tree (insert 1 ({} \<union> ({} \<union> ({} \<union> ({} \<union> (insert 0 {} \<union> {}))))))"
    unfolding ty_AgentService_def service_tree_def
    by (rule h_ptr[OF _ h_struct]) (simp add: cell_def service_heap_def,
      intro h_fields_Cons h_fields_Nil h_str flag)
  then show ?thesis by (simp add: insert_commute)
qed

theorem DeepCopy_isolates_witness:
  "\<exists>v' h' R'. AgentService_DeepCopy (GPtr 1) service_heap = (v', h') \<and>
     holds (h'[0 := CVar (GBool True)]) (TyPtr ty_AgentService) v' service_tree R'"
proof -
  let ?x = "\<lambda>n. TyStr" and ?xc = "\<lambda>n. shallow"
  have ext: "good_copier (?x n) (?xc n)" for n :: string by (simp add: good_shallow)
  have mem: "(ty_AgentService, AgentService_DeepCopy) \<in> set (deep_copies ?x ?xc)" by (simp add: deep_copies_def)
  obtain v' h' where run: "AgentService_DeepCopy (GPtr 1) service_heap = (v', h')" by fastforce
  obtain R' where "\<forall>a c. a \<in> {0, 1} \<longrightarrow> holds (h'[a := c]) (TyPtr ty_AgentService) v' service_tree R'"
    using DeepCopy_isolates[OF ext mem service_holds run] by blast
  then have "holds (h'[0 := CVar (GBool True)]) (TyPtr ty_AgentService) v' service_tree R'" by blast
  then show ?thesis using run by blast
qed

end
