(* ===== verification/Spec2Isabelle.thy ===== *)
theory Spec2Isabelle
  imports OperatorRuns Wiring DeepCopy
begin

text \<open>
  The towonel-operator: a Kubernetes operator that exposes cluster services through Towonel tunnels.

  The program. A \<open>TowonelTunnel\<close> is one invite at the Towonel hub with the host names it
  authorises, the ports its tenant holds, the token Secret and the DNS records that follow from it.
  A \<open>TowonelAgent\<close> is a Deployment that serves a tunnel; its configuration is rendered from
  the agent's services and the tunnel's ports. Services, Gateways and HTTPRoutes that carry the
  \<open>towonel.io/tunnel\<close> annotation are sources: three controllers derive routing entries from
  them and contribute these, each under a field manager of its own, to an agent's spec. So an
  annotation travels through an agent to the tunnel, from there to the hub and to DNS, and the token
  and the ports travel back to the agent's container. Every arrow of that picture is a read or a
  write of the API server or a request to the hub.

  How it is modelled. A Go function that touches the outside is a function of a world of any type
  that returns its result and the next world. A reconciler is a record of the client operations it
  calls, so the API server, the hub's transport, the clock, the recorder and the order in which
  \<open>range\<close> visits a map are arguments, and an interleaving writer is one of the values such an
  operation may take. Errors are values: \<open>goerr\<close> keeps the chain that \<open>errors.Is\<close> and
  \<open>errors.As\<close> look through, and a fallible function returns a sum. Conditions of the code are
  conditions of the model, with early returns as branches; a struct is a record with the fields of
  the source, a named string type a string, an \<open>int32\<close> or \<open>int64\<close> an integer with the
  wrap-around written out where the code can reach it (\<open>HubClient.seconds\<close>).

  The theories, in the order they build on each other:

  \<^item> \<open>Prelude\<close>, \<open>GoLib\<close>, \<open>GoErrors\<close>, \<open>Json\<close>, \<open>Sha256\<close>: shared lemmas, and the
    parts of Go's standard library the operator uses (strings, numbers, errors, JSON, SHA-256).
  \<^item> \<open>Kube\<close>, \<open>ApiTypes\<close>, \<open>DeepCopy\<close>: the Kubernetes objects the operator sees, the two
    custom resources (\<open>api/v1alpha1\<close>), and their generated deep copies over an explicit store.
  \<^item> \<open>Conventions\<close>: names, labels, annotation keys and indexes (\<open>conventions.go\<close>,
    \<open>indexes.go\<close>, \<open>parsetruthy.go\<close>, \<open>source_agentname.go\<close>).
  \<^item> \<open>HubClient\<close>, \<open>HubContract\<close>, \<open>FakeHub\<close>, \<open>FakeHubClient\<close>: the wire types and the
    client (\<open>internal/towonel\<close>), what the operator relies on of a hub (two locales), the
    repository's own hub (\<open>towoneltest/hub.go\<close>), and the proof that the client on that hub keeps
    the contract.
  \<^item> \<open>TunnelModel\<close>, \<open>TunnelInvite\<close>, \<open>TunnelPorts\<close>, \<open>TunnelDns\<close>, \<open>TunnelController\<close>: the
    tunnel's reconciler, file by file (\<open>towoneltunnel_*.go\<close>, \<open>dns_edge_targets.go\<close>).
    \<open>TunnelHub\<close> runs it on the repository's hub, \<open>TunnelDeletion\<close> follows a deletion to its end,
    \<open>TunnelReady\<close> shows what the phase Ready stands for, \<open>TunnelProgress\<close> that a new tunnel gets there,
    and \<open>OperatorRuns\<close> follows the operator over any sequence of reconciles.
  \<^item> \<open>AgentConfig\<close>, \<open>AgentModel\<close>, \<open>AgentChildren\<close>, \<open>AgentController\<close>: the agent's reconciler
    (\<open>towonelagent_*.go\<close>); \<open>AgentGuards\<close> holds what its writes guarantee about the cluster.
  \<^item> \<open>SourceEvents\<close>, \<open>SourceTarget\<close>, \<open>SourceContribute\<close>, \<open>SourceService\<close>, \<open>SourceGateway\<close>:
    the three source controllers (\<open>source_*.go\<close>, \<open>service_source_controller.go\<close>,
    \<open>gateway_source_controller.go\<close>, \<open>httproute_source_controller.go\<close>, \<open>saferecorder.go\<close>,
    \<open>redact.go\<close>); \<open>SourceFlow\<close> and \<open>SourceConsent\<close> hold what they guarantee.
  \<^item> \<open>CommandLine\<close>, \<open>Startup\<close>, \<open>Wiring\<close>: \<open>cmd/manager/main.go\<close> with its flags, \<open>source_setup.go\<close>,
    the scheme (\<open>groupversion_info.go\<close>, \<open>externaldns_scheme.go\<close>), and the watches each controller
    registers.
  \<^item> this theory: properties that span components.

  What the lemmas show. Each component has the behaviour of its operations on every branch, and the
  guarantees it gives the others: a crash between two writes does not leak an invite, and under any
  interleaving of reconciles, lost writes and other clients there is never a second one; the hub ends
  with the desired host names and ports, and a second run has nothing to do; Ready is stored only
  with everything behind it in place, and a new tunnel on a healthy cluster gets there at once; deletion withdraws DNS first and leaves nothing at the hub;
  objects of others are neither overwritten nor pruned; an agent is changed only from a token of the
  tunnel's current invite; a contribution appears on the new agent before it leaves the old one, and
  is gone everywhere after an opt-out; no route is exposed without consent; no watch loses a
  dependent. Reference definitions stand beside the loops that compute the same by steps (the union
  of the ports, the port-scoped annotations, the parents of a route). Round trips cover the wire
  types and the command line, bounds the generated names and the retry delays.

  Hypotheses. What is not in this repository is an argument, and what the code relies on of it is a
  named predicate: \<open>lib_ok\<close> (condition, finalizer and owner helpers), \<open>secret_api\<close>,
  \<open>dns_api\<close>, \<open>tunnel_status_api\<close>, \<open>agent_secret_api\<close>, \<open>owned_api\<close>, \<open>crb_api\<close>,
  \<open>deployment_api\<close>, \<open>own_api\<close> (the API server on one kind of object), the \<open>frame\<close>
  predicates (which operations leave an observation alone), \<open>range_ok\<close> (a map is visited in some
  order), \<open>index_ok\<close> and \<open>change_ok\<close> (field index and change predicates of
  controller-runtime), \<open>echoes_protocol\<close> (the hub reserves what it was asked for),
  \<open>good_copier\<close> (deep copies of library types), \<open>healthy\<close> (an API server that answers),
  \<open>tracks_setup\<close> (setting a controller up registers it). Each is inhabited by a concrete cluster, on which
  the witnesses run.

  Bounds. No definition takes fuel: every loop of the code runs over a list and is structurally
  recursive, and the retries on conflict are as many as the backoff of the library allows, a field
  of the reconciler. The event map is bounded by the constants of the code (1024 keys, one hour).

  Not modelled: contexts and their deadlines, logging and the signal handling of the manager; what
  the API machinery does with a registered type; the work queue and the caches of
  controller-runtime, so that a reconcile is one call and two reconciles interleave only as far as
  the operations of the world allow (\<open>OperatorRuns\<close> follows sequences of them); the locks of
  \<open>eventDedupe\<close> and of the in-memory hub, whose critical sections are single steps; JSON numbers
  beyond the range of their Go type; events that are not UTF-8. The Helm chart, the manifests and
  the documentation hold no code of the operator.
\<close>

section \<open>From an annotation to the DNS records\<close>

text \<open>
  How the API server's JSON of a routing entry reads back as an \<open>AgentService\<close>: the two fields the
  DNS handoff looks at, by their JSON names. The defaulting of the other fields is the server's.
\<close>

definition entry_dnsRecord :: "entry \<Rightarrow> bool option" where
  "entry_dnsRecord s = (case map_of s ''dnsRecord'' of Some (JBool b) \<Rightarrow> Some b | _ \<Rightarrow> None)"

text \<open>
  What server-side apply documents of an object: each list element a field manager holds on it is an
  element of the object.
\<close>

definition shows_claim :: "entry \<Rightarrow> towonel_agent \<Rightarrow> bool" where
  "shows_claim spec ag \<longleftrightarrow> (\<forall>es. map_of spec ''services'' = Some (toSlice es) \<longrightarrow>
     (\<forall>s \<in> set es. \<exists>x \<in> set (ag_services (ta_spec ag)).
        as_hostname x = entry_hostname s \<and> as_dnsRecord x = entry_dnsRecord s))"

lemma applyContribution_claims:
  assumes own: "own_api r (srcFieldManager kind (m_ns src) (m_name src)) mine" and ne: "\<not> routing_empty rt"
    and run: "applyContribution r cfg n kind src tunnel ref rt w = (res, w')"
    and dns: "applyDNSRecordAnnotation rt (m_annotations src) (dedupe_emit r src EvWarning) w = (rt1, w0)"
  shows "mine w' k \<in> {mine w k, None, Some (routing_spec rt1)}"
proof -
  let ?me = "srcFieldManager kind (m_ns src) (m_name src)" and ?emit = "dedupe_emit r src EvWarning"
  note reads = own_reads[OF own] and base = source_reads_base[OF own_reads[OF own]]
  obtain t w1 where tgt: "resolveTarget r ?emit cfg n tunnel ref w0 = (t, w1)" by fastforce
  have "mine w1 = mine w0" using dedupe_sink.resolveTarget_quiet[OF base reads own_create[OF own] tgt] .
  then have w1: "mine w1 = mine w" using applyDNS_quiet[OF base dns] by simp
  have rel: "mine w' k \<in> {mine v k, None}"
    if rel: "result_of (releaseFromOtherAgents r ?me None) v = (res, w')" for v
  proof -
    obtain e where "releaseFromOtherAgents r ?me None v = (e, w')" using result_of_ok[OF rel] by blast
    from releaseFromOtherAgents_effect[OF own this] have "only_clears None (mine v) (mine w')" ..
    then show ?thesis unfolding only_clears_def by blast
  qed
  show ?thesis
  proof (cases t)
    case (Inl e)
    then show ?thesis using run dns tgt w1 by (simp add: applyContribution_def)
  next
    case (Inr tg)
    show ?thesis
    proof (cases tg)
      case (TargetWrite ta)
      then have "write_contribution r ?me src tunnel ta rt1 w1 = (res, w')"
        using run dns tgt Inr by (simp add: applyContribution_def)
      from write_contribution_effect[OF own _ this, unfolded w1] applyDNS_empty[OF dns] ne
      have "mine w' = mine w \<or> only_clears (Some (key_of (ta_meta ta)))
          ((mine w)(key_of (ta_meta ta) \<mapsto> routing_spec rt1)) (mine w')" by simp
      then show ?thesis unfolding only_clears_def
        by (auto simp del: split_paired_All dest: spec[of _ k] split: if_splits)
    next
      case (TargetObserve ta)
      then have "result_of (releaseFromOtherAgents r ?me None) (observeUserAgent ?emit ta tunnel rt1 w1) = (res, w')"
        using run dns tgt Inr by (simp add: applyContribution_def)
      from rel[OF this] show ?thesis using w1 observe_quiet[OF base] by auto
    next
      case TargetSkip
      then have "result_of (releaseFromOtherAgents r ?me None) w1 = (res, w')"
        using run dns tgt Inr by (simp add: applyContribution_def)
      from rel[OF this] show ?thesis using w1 by auto
    qed
  qed
qed

lemma opted_out_services:
  assumes "applyDNSRecordAnnotation rt ann emit w = (rt1, w0)"
    and "map_of ann AnnotationDNSRecord = Some v" and "ParseTruthy v \<noteq> Inr True"
  shows "rt_services rt1 = map (AList.update ''dnsRecord'' (JBool False)) (rt_services rt)"
  using assms by (auto simp: applyDNSRecordAnnotation_def Let_def split: sum.splits if_splits)

lemma opted_out_entry:
  "entry_hostname (AList.update ''dnsRecord'' (JBool False) s) = entry_hostname s"
  "entry_dnsRecord (AList.update ''dnsRecord'' (JBool False) s) = Some False"
  by (simp_all add: entry_hostname_def entry_dnsRecord_def update_conv')

lemma routing_services:
  "rt_services rt \<noteq> [] \<Longrightarrow> map_of (routing_spec rt) ''services'' = Some (toSlice (rt_services rt))"
  by (simp add: routing_spec_def)

lemma shows_opt_out:
  assumes "shows_claim (routing_spec rt1) ag" and "ag \<in> set agents" and "s \<in> set (rt_services rt1)"
    and "entry_dnsRecord s = Some False"
  shows "entry_hostname s \<in> set (dnsOptOutHostnames agents)"
proof -
  have "map_of (routing_spec rt1) ''services'' = Some (toSlice (rt_services rt1))"
    using assms(3) by (intro routing_services) auto
  then obtain x where "x \<in> set (ag_services (ta_spec ag))" "as_hostname x = entry_hostname s"
    "as_dnsRecord x = Some False" using assms unfolding shows_claim_def by metis
  then show ?thesis using assms(2) by (force simp: dnsOptOutHostnames_def)
qed

text \<open>C10: an opt-out given on a source reaches the DNS records. Once a source whose
  \<open>dns-record\<close> annotation is false, or not a recognized value, has written its routing to an agent,
  a run of the tunnel's DNS step that reads this agent and reports the records in sync leaves no
  record for any host name of that source in an object of the tunnel.\<close>

theorem dns_opt_out_end_to_end:
  assumes own: "own_api sr (srcFieldManager kind (m_ns src) (m_name src)) mine" and ne: "\<not> routing_empty rt"
    and ann: "map_of (m_annotations src) AnnotationDNSRecord = Some v" "ParseTruthy v \<noteq> Inr True"
    and contributed: "applyContribution sr cfg n kind src tunnel ref rt w = (res, w')"
    and claimed: "mine w' (key_of (ta_meta ag)) = Some spec" "mine w (key_of (ta_meta ag)) \<noteq> Some spec"
    and read: "ag \<in> set agents" "shows_claim spec ag"
    and api: "dns_api r dns" and lib: "lib_ok r"
    and run: "reconcileDNS r tt view (dnsOptOutHostnames agents) u = ((False, tt'), u')"
    and synced: "map_option c_status (tunnel_cond r tt' CondDNSEndpointSynced) = Some CTrue"
    and own_ep: "dns u' k = Some ep" "ownedByTunnel ep (tunnel_hash tt)"
    and s: "s \<in> set (rt_services rt)"
  shows "entry_hostname s \<notin> de_dnsName ` set (dns_endpoints ep)"
proof -
  let ?emit = "dedupe_emit sr src EvWarning"
  obtain rt1 w0 where dns: "applyDNSRecordAnnotation rt (m_annotations src) ?emit w = (rt1, w0)" by fastforce
  have spec: "spec = routing_spec rt1"
    using applyContribution_claims[OF own ne contributed dns, of "key_of (ta_meta ag)"] claimed by auto
  have "AList.update ''dnsRecord'' (JBool False) s \<in> set (rt_services rt1)"
    using opted_out_services[OF dns ann] s by simp
  from shows_opt_out[OF _ read(1) this] read(2) spec
  have out: "entry_hostname s \<in> set (dnsOptOutHostnames agents)" by (simp add: opted_out_entry)
  note eff = reconcileDNS_effect[OF api run]
  show ?thesis
  proof (cases "dns_publishes tt view (tr_dnsEdgeTargets r) (dnsOptOutHostnames agents)")
    case False
    then show ?thesis using eff own_ep unfolding owned_only_def by blast
  next
    case True
    let ?key = "key_of (dns_meta_of tt)"
    obtain ep' where ep': "dns u' ?key = Some ep'" "map (\<lambda>e. (de_dnsName e, de_targets e)) (dns_endpoints ep') =
        map (\<lambda>h. (h, [dns_target tt view (tr_dnsEdgeTargets r)])) (dns_hostnames tt view (dnsOptOutHostnames agents))"
      and one: "owned_only (dns u') (tunnel_hash tt) (Some ?key)"
      using eff True lib synced by auto
    have "ep' = ep" using one own_ep ep'(1) unfolding owned_only_def by fastforce
    then have "de_dnsName ` set (dns_endpoints ep) = set (dns_hostnames tt view (dnsOptOutHostnames agents))"
      using arg_cong[OF ep'(2), of "map fst"] by (metis (no_types, lifting) comp_def fst_conv list.map_comp
          list.map_ident map_eq_conv set_map)
    then show ?thesis using out by (auto simp: dns_hostnames_def)
  qed
qed


section \<open>From a reservation to the agent's environment\<close>

lemma entry_key_mem:
  assumes "ag \<in> set agents"
  shows "e \<in> set (ag_tcp (ta_spec ag)) \<Longrightarrow> allocKey ''tcp'' (l4_name e) \<in> entry_key ` set (l4_entries agents)"
    and "e \<in> set (ag_udp (ta_spec ag)) \<Longrightarrow> allocKey ''udp'' (l4_name e) \<in> entry_key ` set (l4_entries agents)"
proof -
  let ?a = "nn_str (key_of (ta_meta ag))"
  have "e \<in> set (ag_tcp (ta_spec ag)) \<Longrightarrow> (''tcp'', e, ?a) \<in> set (l4_entries agents)"
    "e \<in> set (ag_udp (ta_spec ag)) \<Longrightarrow> (''udp'', e, ?a) \<in> set (l4_entries agents)"
    using assms by (auto simp: l4_entries_def sort_agents_def)
  then show "e \<in> set (ag_tcp (ta_spec ag)) \<Longrightarrow> allocKey ''tcp'' (l4_name e) \<in> entry_key ` set (l4_entries agents)"
    "e \<in> set (ag_udp (ta_spec ag)) \<Longrightarrow> allocKey ''udp'' (l4_name e) \<in> entry_key ` set (l4_entries agents)"
    by (metis (no_types, lifting) entry_key_def image_eqI case_prod_conv)+
qed

lemma marshalL4_all:
  assumes "\<And>e. e \<in> set es \<Longrightarrow> \<exists>pa \<in> set allocs. al_key pa = allocKey p (l4_name e)"
  shows "marshalL4 es p (alloc_ports allocs) pend =
    (if es = [] then [] else json_text (JArr
       [l4_json (l4_name e) (al_listenPort (the (alloc_of allocs (allocKey p (l4_name e))))) (l4_origin e). e \<leftarrow> es]),
     pend)"
proof -
  have all: "filter (\<lambda>e. has_key (alloc_ports allocs) (allocKey p (l4_name e))) es = es"
    "filter (\<lambda>e. \<not> has_key (alloc_ports allocs) (allocKey p (l4_name e))) es = []"
    using assms by (auto simp: alloc_ports_key filter_id_conv filter_empty_conv)
  have eq: "map (\<lambda>e. l4_json (l4_name e) (the (map_of (alloc_ports allocs) (allocKey p (l4_name e)))) (l4_origin e)) es =
    map (\<lambda>e. l4_json (l4_name e) (al_listenPort (the (alloc_of allocs (allocKey p (l4_name e))))) (l4_origin e)) es"
  proof (rule map_cong[OF refl])
    fix e assume "e \<in> set es"
    then obtain pa where "alloc_of allocs (allocKey p (l4_name e)) = Some pa"
      using assms by (fastforce simp: alloc_ports_key[symmetric] has_key_map_of alloc_ports_lookup)
    then show "l4_json (l4_name e) (the (map_of (alloc_ports allocs) (allocKey p (l4_name e)))) (l4_origin e) =
        l4_json (l4_name e) (al_listenPort (the (alloc_of allocs (allocKey p (l4_name e))))) (l4_origin e)"
      by (simp add: alloc_ports_lookup)
  qed
  show ?thesis by (simp only: marshalL4_eq Let_def all eq list.map append_Nil2)
qed

lemma alloc_of_distinct:
  assumes "distinct (map al_key allocs)" and "pa \<in> set allocs" and "al_key pa = k"
  shows "alloc_of allocs k = Some pa"
proof (cases "alloc_of allocs k")
  case None
  then show ?thesis using assms(2,3) by (auto simp: alloc_of_def find_None_iff)
next
  case (Some q)
  then have "q \<in> set allocs" "al_key q = k" using find_in[of _ "rev allocs" q] by (auto simp: alloc_of_def)
  then have "q = pa" using assms by (metis distinct_map inj_onD)
  then show ?thesis using Some by simp
qed

text \<open>The entries of an agent with their protocols, and the ports a run gives back.\<close>

definition agent_l4 :: "towonel_agent \<Rightarrow> (string \<times> agent_l4_service) list" where
  "agent_l4 ag = map (Pair ''tcp'') (ag_tcp (ta_spec ag)) @ map (Pair ''udp'') (ag_udp (ta_spec ag))"

definition released_ports :: "towonel_tunnel \<Rightarrow> towonel_agent list \<Rightarrow> (string \<times> int) set" where
  "released_ports tt agents = port_of ` {pa \<in> set (st_portAllocations (tt_status tt)).
     al_key pa \<notin> entry_key ` set (l4_entries agents)}"


section \<open>From the hub's token to the agent's environment\<close>

text \<open>C8: the token reaches the agent. When \<open>ensureTokenSecret\<close> has succeeded and an agent's
  reads see the tunnel and the Secrets it left, \<open>readTunnelToken\<close> opens the gate with the token of
  the tunnel's current invite (the fresh one, if a Secret was written), and once
  \<open>ensureAgentSecret\<close> has succeeded too, the Secret the container's \<open>TOWONEL_INVITE_TOKEN\<close> refers
  to holds a token of that invite and belongs to the agent.\<close>

theorem token_reaches_agent:
  assumes tunnel: "secret_api r secs" "lib_ok r" "ensureTokenSecret r tt token w = ((None, tt'), w')"
    and reads: "ar_get_tunnel ra (resolvedTunnelRef ta) v = (Inr tt', v1)"
      "\<And>k s. secs w' k = Some s \<Longrightarrow> ar_get_secret ra k v1 = (Inr s, v2 k)"
    and agent: "agent_secret_api ra asecs" "lib_ok ra"
  shows "\<exists>tok v3. readTunnelToken ra ta v = (Inr (Token tt' tok), v3) \<and> tok \<noteq> [] \<and>
    (secs w' \<noteq> secs w \<longrightarrow> tok = token) \<and>
    (\<forall>ta' v4. ensureAgentSecret ra ta tok (st_inviteID (tt_status tt')) v3 = ((None, ta'), v4) \<longrightarrow>
       (\<exists>s. asecs v4 (agent_secret_key ta) = Some s \<and> holds_token s ta (st_inviteID (tt_status tt))) \<and>
       \<lparr>ev_name = ''TOWONEL_INVITE_TOKEN'', ev_source = EnvSecretKey (snd (agent_secret_key ta)) tokenDataKey\<rparr>
         \<in> set (agentEnv ta cfg))"
proof -
  let ?key = "(m_ns (tt_meta tt), tokenSecretName (m_name (tt_meta tt)))"
  obtain s where s: "secs w' ?key = Some s" "mget (sec_data s) tokenDataKey \<noteq> []"
      "mget (m_annotations (sec_meta s)) AnnotationInviteID = st_inviteID (tt_status tt)"
      "st_tokenSecretRef (tt_status tt') = Some \<lparr>sr_name = snd ?key, sr_namespace = fst ?key\<rparr>"
      "secs w' \<noteq> secs w \<longrightarrow> mget (sec_data s) tokenDataKey = token"
    using ensureTokenSecret_sound[OF tunnel] by auto
  have keep: "tt_meta tt' = tt_meta tt" "st_inviteID (tt_status tt') = st_inviteID (tt_status tt)"
    using ensureTokenSecret_keeps[OF tunnel(3)] by simp_all
  have "cmp_or (m_ns (tt_meta tt)) (m_ns (tt_meta tt)) = m_ns (tt_meta tt)" by (simp add: cmp_or_def)
  moreover have "tokenSecretName (m_name (tt_meta tt)) \<noteq> []" by (simp add: tokenSecretName_def)
  ultimately have read: "readTunnelToken ra ta v = (Inr (Token tt' (mget (sec_data s) tokenDataKey)), v2 ?key)"
    using reads(1) reads(2)[OF s(1)] s(2-4) keep by (simp add: readTunnelToken_def Let_def)
  have "\<exists>s. asecs v4 (agent_secret_key ta) = Some s \<and> holds_token s ta (st_inviteID (tt_status tt))"
    if "ensureAgentSecret ra ta (mget (sec_data s) tokenDataKey) (st_inviteID (tt_status tt')) (v2 ?key) =
      ((None, ta'), v4)" for ta' v4
    using ensureAgentSecret_effect[OF agent s(2) that] keep by simp
  moreover have "\<lparr>ev_name = ''TOWONEL_INVITE_TOKEN'', ev_source = EnvSecretKey (snd (agent_secret_key ta)) tokenDataKey\<rparr>
      \<in> set (agentEnv ta cfg)"
    by (simp add: agentEnv_def operatorEnv_def agent_secret_key_def)
  ultimately show ?thesis using read s(2,5) by blast
qed


section \<open>Witnesses\<close>

definition optout_source :: meta where
  "optout_source = web_source\<lparr>m_annotations := [(AnnotationDNSRecord, ''fasle'')]\<rparr>"

definition optout_routing :: routing where
  "optout_routing = web_routing\<lparr>rt_services := map (AList.update ''dnsRecord'' (JBool False)) (rt_services web_routing)\<rparr>"

definition optout_agent :: towonel_agent where
  "optout_agent = (bound_agent ''edge'' ''blue'' (''prod'', ''main''))\<lparr>ta_spec := zero_agent_spec\<lparr>
     ag_services := [\<lparr>as_hostname = ''a.example'', as_origin = ''10.0.0.1:80'', as_edgeTLSMode = ''passthrough'',
       as_proxyProtocol = [], as_dnsRecord = Some False\<rparr>]\<rparr>\<rparr>"

lemma optout_value: "ParseTruthy ''fasle'' \<noteq> Inr True"
proof -
  have "trim_space ''fasle'' = ''fasle''" by (rule trim_space_plain) (simp add: plain_char_def)
  then show ?thesis by (simp add: ParseTruthy_def lower_char_def Let_def)
qed

lemma optout_dns:
  "fst (applyDNSRecordAnnotation web_routing (m_annotations optout_source) emit w) = optout_routing"
proof -
  have ann: "m_annotations optout_source = [(AnnotationDNSRecord, ''fasle'')]" by (simp add: optout_source_def)
  show ?thesis unfolding ann applyDNSRecordAnnotation_def
    using optout_value by (cases "ParseTruthy ''fasle''") (simp_all add: optout_routing_def Let_def)
qed

lemma optout_contribution:
  "map_of (snd (applyContribution web_cluster ''edge'' None ''Service'' optout_source (''prod'', ''main'') ''blue''
     web_routing [])) (''edge'', ''blue'') = Some (routing_spec optout_routing)"
proof -
  let ?emit = "dedupe_emit web_cluster optout_source EvWarning" and ?k = "(''edge'', ''blue'')"
  have me: "m_ns optout_source = ''app''" "m_name optout_source = ''web''"
    by (simp_all add: optout_source_def web_source_def new_meta_def)
  have own: "own_api web_cluster web_manager map_of" unfolding web_cluster_def by (rule claims_source_own)
  have key: "key_of (ta_meta (bound_agent ''edge'' ''blue'' (''prod'', ''main''))) = ?k"
    by (simp add: bound_agent_def new_agent_def new_meta_def key_of_def)
  obtain w0 where w0: "applyDNSRecordAnnotation web_routing (m_annotations optout_source) ?emit [] = (optout_routing, w0)"
    using optout_dns by (metis prod.collapse)
  have con: "contributeRouting web_cluster ?k web_manager optout_routing w0 = (None, set_claim ?k (routing_spec optout_routing) w0)"
    by (simp add: contributeRouting_def web_cluster_def claims_source_def)
  obtain res w' where run: "write_contribution web_cluster web_manager optout_source (''prod'', ''main'')
      (bound_agent ''edge'' ''blue'' (''prod'', ''main'')) optout_routing w0 = (res, w')" by fastforce
  have "is_ok res" using run web_release_all[of "Some ?k"] con key
    by (auto simp: write_contribution_def Let_def split_def split: option.splits)
  moreover have "\<not> routing_empty optout_routing"
    by (simp add: optout_routing_def web_routing_def no_routing_def routing_empty_def)
  ultimately have "map_of w' ?k = Some (routing_spec optout_routing)"
    using write_contribution_effect[OF own _ run] con key by simp
  then show ?thesis using run w0 me by (simp add: applyContribution_def web_target)
qed

theorem dns_opt_out_end_to_end_witness:
  "\<exists>ep. stored (snd (reconcileDNS dns_reconciler dns_tunnel dns_view (dnsOptOutHostnames [optout_agent]) []))
      (key_of (dns_meta_of dns_tunnel)) = Some ep \<and> ''a.example'' \<notin> de_dnsName ` set (dns_endpoints ep)"
proof -
  have me: "m_ns optout_source = ''app''" "m_name optout_source = ''web''"
    "map_of (m_annotations optout_source) AnnotationDNSRecord = Some ''fasle''"
    by (simp_all add: optout_source_def web_source_def new_meta_def)
  have own: "own_api web_cluster (srcFieldManager ''Service'' (m_ns optout_source) (m_name optout_source)) map_of"
    unfolding web_cluster_def me by (rule claims_source_own)
  have ne: "\<not> routing_empty web_routing" by (simp add: web_routing_def no_routing_def routing_empty_def)
  obtain res w' where con: "applyContribution web_cluster ''edge'' None ''Service'' optout_source
      (''prod'', ''main'') ''blue'' web_routing [] = (res, w')" by fastforce
  have key: "key_of (ta_meta optout_agent) = (''edge'', ''blue'')"
    by (simp add: optout_agent_def bound_agent_def new_agent_def new_meta_def key_of_def)
  have claimed: "map_of w' (key_of (ta_meta optout_agent)) = Some (routing_spec optout_routing)"
    "map_of [] (key_of (ta_meta optout_agent)) \<noteq> Some (routing_spec optout_routing)"
    using optout_contribution con key by simp_all
  have shown: "shows_claim (routing_spec optout_routing) optout_agent"
    by (auto simp: shows_claim_def routing_spec_def optout_routing_def web_routing_def no_routing_def toSlice_def
        optout_agent_def entry_hostname_def entry_dnsRecord_def dest: map_injective[OF _ injI])
  have oo: "dnsOptOutHostnames [optout_agent] = [''a.example'']"
    by (simp add: dnsOptOutHostnames_def optout_agent_def)
  have b: "''b.example'' \<notin> set (dnsOptOutHostnames [optout_agent])" by (simp add: oo)
  obtain tt' u' where run: "reconcileDNS dns_reconciler dns_tunnel dns_view (dnsOptOutHostnames [optout_agent]) [] =
      ((False, tt'), u')" using publish_run[OF b] by (metis prod.collapse)
  have synced: "map_option c_status (tunnel_cond dns_reconciler tt' CondDNSEndpointSynced) = Some CTrue"
    using publish_run[OF b] run by simp
  have "dns_hostnames dns_tunnel dns_view (dnsOptOutHostnames [optout_agent]) \<noteq> []"
    by (simp add: oo dns_hostnames_def dns_tunnel_def dns_view_def zero_defs dedupe_def has_prefix_def)
  moreover have "dns_target dns_tunnel dns_view tg \<noteq> []" for tg
    by (simp add: dns_target_def dns_tunnel_def trim_suffix_def cut_suffix_def)
  ultimately have "dns_publishes dns_tunnel dns_view (tr_dnsEdgeTargets dns_reconciler) (dnsOptOutHostnames [optout_agent])"
    by (simp add: dns_publishes_def dns_view_def) (simp add: dns_tunnel_def)
  then obtain ep where ep: "stored u' (key_of (dns_meta_of dns_tunnel)) = Some ep" "ownedByTunnel ep (tunnel_hash dns_tunnel)"
    using reconcileDNS_effect[OF dns_reconciler_api run] dns_reconciler_lib synced by auto
  have s: "[(''hostname'', JStr ''a.example''), (''origin'', JStr ''10.0.0.1:80'')] \<in> set (rt_services web_routing)"
    by (simp add: web_routing_def no_routing_def)
  from dns_opt_out_end_to_end[OF own ne me(3) optout_value con claimed _ shown dns_reconciler_api
      dns_reconciler_lib run synced ep s, simplified] ep(1) run
  show ?thesis by (simp add: entry_hostname_def)
qed



theorem token_reaches_agent_witness:
  "\<exists>tt' w'. ensureTokenSecret secret_reconciler (new_tunnel ''n'' ''t'') ''tok'' Map.empty = ((None, tt'), w') \<and>
     fst (readTunnelToken (small_reconciler\<lparr>ar_get_tunnel := \<lambda>k v. (Inr tt', v)\<rparr>) (small_agent small_world)
       (small_world\<lparr>aw_secrets := w'\<rparr>)) = Inr (Token tt' ''tok'')"
proof -
  obtain tt' w' where run: "ensureTokenSecret secret_reconciler (new_tunnel ''n'' ''t'') ''tok'' Map.empty =
      ((None, tt'), w')"
    by (simp add: ensureTokenSecret_def write_token_def secret_reconciler_def idle_reconciler_def
        std_lib_def Let_def)
  let ?ra = "small_reconciler\<lparr>ar_get_tunnel := \<lambda>k v. (Inr tt', v)\<rparr>" and ?v = "small_world\<lparr>aw_secrets := w'\<rparr>"
  have "w' \<noteq> Map.empty"
    using ensureTokenSecret_sound[OF secret_reconciler_api secret_reconciler_lib run] by auto
  moreover have "agent_secret_api ?ra aw_secrets" "lib_ok ?ra"
    using small_secrets small_lib by (simp_all add: agent_secret_api_def lib_ok_def)
  moreover have "ar_get_secret ?ra k ?v = (Inr s, ?v)" if "w' k = Some s" for k s
    using that by (simp add: small_reconciler_def)
  ultimately have "fst (readTunnelToken ?ra (small_agent small_world) ?v) = Inr (Token tt' ''tok'')"
    using token_reaches_agent[OF secret_reconciler_api secret_reconciler_lib run, where ra = ?ra and v = ?v
        and ?v1.0 = ?v and ?v2.0 = "\<lambda>k. ?v" and ta = "small_agent small_world" and asecs = aw_secrets] by fastforce
  then show ?thesis using run by blast
qed

end
